theory Spec2Isabelle
  imports Main "HOL-Library.Sublist"
begin

section \<open>JavaScript values and the operations the scripts apply to them\<close>

text \<open>
  The two scripts, \<^verbatim>\<open>src/test-bug.js\<close> and its corrected version
  \<^verbatim>\<open>src/unnamed/part_000\<close>, read \<^verbatim>\<open>schema.eventsDefsMap\<close> and inspect it
  with \<^verbatim>\<open>||\<close>, \<^verbatim>\<open>Object.keys\<close>, \<^verbatim>\<open>.size\<close> and \<^verbatim>\<open>.keys()\<close>.
  The values that property can hold are the primitives, arrays, plain objects (a list of
  own enumerable string-keyed data properties), \<^verbatim>\<open>Map\<close> instances (a list of
  entries, kept in an internal slot: a Map as built by \<^verbatim>\<open>new Map\<close> and
  \<^verbatim>\<open>set\<close> has no own enumerable property) and \<^verbatim>\<open>Error\<close> instances.
  Numbers are integers or NaN; functions and proxies are not values of this type.

  An \<^verbatim>\<open>Error\<close> instance is given by its \<^verbatim>\<open>message\<close> and by the name
  of its constructor (\<^verbatim>\<open>Error\<close>, \<^verbatim>\<open>TypeError\<close>, ...), which is also its
  \<^verbatim>\<open>name\<close>, as for every built-in error type; its own properties
  (\<^verbatim>\<open>message\<close>, \<^verbatim>\<open>stack\<close>) are not enumerable.

  What a \<^verbatim>\<open>throw\<close> raises and what a promise is rejected with is any value of
  this type: JavaScript does not require it to be an \<^verbatim>\<open>Error\<close>.
\<close>

datatype js_value =
    JUndefined
  | JNull
  | JBool bool
  | JNum int
  | JNaN
  | JStr string
  | JArray "js_value list"
  | JObject "(string \<times> js_value) list"
  | JMap "(js_value \<times> js_value) list"
  | JsError string string

text \<open>The TypeError the runtime throws, with the message V8 gives it.\<close>

definition TypeError :: "string \<Rightarrow> js_value" where
  "TypeError msg = JsError msg ''TypeError''"

text \<open>ToBoolean: the falsy values are undefined, null, false, 0, NaN and the empty string.\<close>

fun truthy :: "js_value \<Rightarrow> bool" where
  "truthy JUndefined = False"
| "truthy JNull = False"
| "truthy (JBool b) = b"
| "truthy (JNum n) = (n \<noteq> 0)"
| "truthy JNaN = False"
| "truthy (JStr s) = (s \<noteq> [])"
| "truthy (JArray xs) = True"
| "truthy (JObject ps) = True"
| "truthy (JMap es) = True"
| "truthy (JsError m c) = True"

text \<open>\<^verbatim>\<open>a || b\<close>\<close>

definition js_or :: "js_value \<Rightarrow> js_value \<Rightarrow> js_value" where
  "js_or a b = (if truthy a then a else b)"

text \<open>Decimal rendering of an array index, as in the property names of arrays and strings.\<close>

definition digit :: "nat \<Rightarrow> char" where
  "digit d = ''0123456789'' ! d"

fun string_of_nat :: "nat \<Rightarrow> string" where
  "string_of_nat n =
     (if n < 10 then [digit n] else string_of_nat (n div 10) @ [digit (n mod 10)])"

declare string_of_nat.simps [simp del]

definition index_keys :: "nat \<Rightarrow> string list" where
  "index_keys n = map string_of_nat [0..<n]"

text \<open>
  \<^verbatim>\<open>Object.keys(v)\<close>: the own enumerable string-keyed property names. It throws a
  TypeError on undefined and null; a primitive is converted to its wrapper object first
  (only a string's wrapper has own enumerable properties, its indices); the entries of a
  Map are not properties, and the properties of an Error instance are not enumerable.
\<close>

fun Object_keys :: "js_value \<Rightarrow> js_value + string list" where
  "Object_keys JUndefined = Inl (TypeError ''Cannot convert undefined or null to object'')"
| "Object_keys JNull = Inl (TypeError ''Cannot convert undefined or null to object'')"
| "Object_keys (JBool b) = Inr []"
| "Object_keys (JNum n) = Inr []"
| "Object_keys JNaN = Inr []"
| "Object_keys (JStr s) = Inr (index_keys (length s))"
| "Object_keys (JArray xs) = Inr (index_keys (length xs))"
| "Object_keys (JObject ps) = Inr (remdups (map fst ps))"
| "Object_keys (JMap es) = Inr []"
| "Object_keys (JsError m c) = Inr []"

text \<open>
  \<^verbatim>\<open>o.name\<close> on a plain object: the first binding of the name, undefined when
  there is none (\<^verbatim>\<open>Object.prototype\<close> has no data property the scripts read).
\<close>

definition own_property :: "(string \<times> js_value) list \<Rightarrow> string \<Rightarrow> js_value" where
  "own_property ps name = (case map_of ps name of None \<Rightarrow> JUndefined | Some v \<Rightarrow> v)"

text \<open>
  \<^verbatim>\<open>v.size\<close>: a TypeError on undefined and null, the number of entries of a Map, the
  own property of a plain object, and undefined on every other value (neither arrays nor
  the wrappers of primitives have a \<^verbatim>\<open>size\<close>).
\<close>

fun get_size :: "js_value \<Rightarrow> js_value + js_value" where
  "get_size JUndefined =
     Inl (TypeError ''Cannot read properties of undefined (reading 'size')'')"
| "get_size JNull = Inl (TypeError ''Cannot read properties of null (reading 'size')'')"
| "get_size (JMap es) = Inr (JNum (int (length es)))"
| "get_size (JObject ps) = Inr (own_property ps ''size'')"
| "get_size v = Inr JUndefined"

text \<open>
  \<^verbatim>\<open>Array.from(v.keys())\<close>: the keys of a Map's entries, the indices of an array.
  On every other value \<^verbatim>\<open>v.keys\<close> is not a function (it is undefined, or a data
  property of a plain object), and calling it throws a TypeError; on undefined and null
  the property read itself throws.
\<close>

fun keys_method :: "js_value \<Rightarrow> js_value + js_value list" where
  "keys_method JUndefined =
     Inl (TypeError ''Cannot read properties of undefined (reading 'keys')'')"
| "keys_method JNull = Inl (TypeError ''Cannot read properties of null (reading 'keys')'')"
| "keys_method (JMap es) = Inr (map fst es)"
| "keys_method (JArray xs) = Inr (map (\<lambda>i. JNum (int i)) [0..<length xs])"
| "keys_method v = Inl (TypeError ''schema.eventsDefsMap.keys is not a function'')"

text \<open>
  \<^verbatim>\<open>s > 0\<close> for the values a \<^verbatim>\<open>size\<close> read can give once
  \<^verbatim>\<open>keys()\<close> has returned: a number, or undefined (which converts to NaN, and every
  comparison with NaN is false). Booleans and null convert to 1, 0 and 0; the conversion
  of strings and objects to numbers is not modelled, and line 77 is never reached with
  one of them (\<open>size_after_keys\<close> below).
\<close>

fun greater_than_zero :: "js_value \<Rightarrow> bool" where
  "greater_than_zero (JNum n) = (0 < n)"
| "greater_than_zero (JBool b) = b"
| "greater_than_zero v = False"

subsection \<open>What the scripts read from a caught value\<close>

text \<open>
  \<^verbatim>\<open>v.message\<close>: a TypeError on undefined and null, the message of an Error
  instance, the own property of a plain object, and undefined on every other value.
\<close>

fun get_message :: "js_value \<Rightarrow> js_value + js_value" where
  "get_message JUndefined =
     Inl (TypeError ''Cannot read properties of undefined (reading 'message')'')"
| "get_message JNull =
     Inl (TypeError ''Cannot read properties of null (reading 'message')'')"
| "get_message (JsError m c) = Inr (JStr m)"
| "get_message (JObject ps) = Inr (own_property ps ''message'')"
| "get_message v = Inr JUndefined"

text \<open>
  \<^verbatim>\<open>c.name\<close> for a value \<open>c\<close> found as the own property
  \<^verbatim>\<open>constructor\<close> of a plain object.
\<close>

fun get_name :: "js_value \<Rightarrow> js_value + js_value" where
  "get_name JUndefined =
     Inl (TypeError ''Cannot read properties of undefined (reading 'name')'')"
| "get_name JNull = Inl (TypeError ''Cannot read properties of null (reading 'name')'')"
| "get_name (JsError m c) = Inr (JStr c)"
| "get_name (JObject ps) = Inr (own_property ps ''name'')"
| "get_name v = Inr JUndefined"

text \<open>
  \<^verbatim>\<open>v.constructor.name\<close>: a TypeError on undefined and null; otherwise the name
  of the constructor, which a plain object inherits from \<^verbatim>\<open>Object.prototype\<close>
  unless it has an own property \<^verbatim>\<open>constructor\<close>.
\<close>

fun get_constructor_name :: "js_value \<Rightarrow> js_value + js_value" where
  "get_constructor_name JUndefined =
     Inl (TypeError ''Cannot read properties of undefined (reading 'constructor')'')"
| "get_constructor_name JNull =
     Inl (TypeError ''Cannot read properties of null (reading 'constructor')'')"
| "get_constructor_name (JBool b) = Inr (JStr ''Boolean'')"
| "get_constructor_name (JNum n) = Inr (JStr ''Number'')"
| "get_constructor_name JNaN = Inr (JStr ''Number'')"
| "get_constructor_name (JStr s) = Inr (JStr ''String'')"
| "get_constructor_name (JArray xs) = Inr (JStr ''Array'')"
| "get_constructor_name (JMap es) = Inr (JStr ''Map'')"
| "get_constructor_name (JsError m c) = Inr (JStr c)"
| "get_constructor_name (JObject ps) =
     (case map_of ps ''constructor'' of
        None \<Rightarrow> Inr (JStr ''Object'')
      | Some c \<Rightarrow> get_name c)"

text \<open>\<^verbatim>\<open>s.split("\n")[0]\<close> on a string: the part of \<open>s\<close> before its first line feed.\<close>

definition first_line :: "string \<Rightarrow> string" where
  "first_line s = takeWhile (\<lambda>c. c \<noteq> CHR 0x0A) s"

text \<open>
  \<^verbatim>\<open>m.split("\n")[0]\<close> on any value \<open>m\<close>: only a string has the method; on
  undefined and null the property read throws, on every other value the call does.
\<close>

fun split_first :: "js_value \<Rightarrow> js_value + js_value" where
  "split_first (JStr s) = Inr (JStr (first_line s))"
| "split_first JUndefined =
     Inl (TypeError ''Cannot read properties of undefined (reading 'split')'')"
| "split_first JNull = Inl (TypeError ''Cannot read properties of null (reading 'split')'')"
| "split_first v = Inl (TypeError ''commitError.message.split is not a function'')"

text \<open>\<^verbatim>\<open>commitError.message.split("\n")[0]\<close>\<close>

definition first_line_of_message :: "js_value \<Rightarrow> js_value + js_value" where
  "first_line_of_message v =
     (case get_message v of Inl e \<Rightarrow> Inl e | Inr m \<Rightarrow> split_first m)"

text \<open>
  The parameter pattern \<^verbatim>\<open>({ id, message })\<close> of the materializer, applied to the
  argument the library passes: a TypeError on undefined and null, otherwise the two
  properties.
\<close>

fun destructure_id_message :: "js_value \<Rightarrow> js_value + js_value \<times> js_value" where
  "destructure_id_message JUndefined =
     Inl (TypeError ''Cannot destructure property 'id' of 'undefined' as it is undefined.'')"
| "destructure_id_message JNull =
     Inl (TypeError ''Cannot destructure property 'id' of 'null' as it is null.'')"
| "destructure_id_message (JObject ps) = Inr (own_property ps ''id'', own_property ps ''message'')"
| "destructure_id_message (JsError m c) = Inr (JUndefined, JStr m)"
| "destructure_id_message v = Inr (JUndefined, JUndefined)"

text \<open>An \<^verbatim>\<open>Error\<close> instance.\<close>

fun is_Error :: "js_value \<Rightarrow> bool" where
  "is_Error (JsError m c) = True"
| "is_Error v = False"

section \<open>Effects: console output, library calls, timers, process exit\<close>

text \<open>
  The messages of the scripts start with (or contain) a pictograph. A message is kept as
  its pieces, in order: the pictographs by name, the text between them verbatim.
\<close>

datatype pictograph =
    Magnifier | Check | Cross | Chart | Clipboard | Stopwatch | Bulb | Cycle
  | Link | Package | Rocket | Flag | Books | Bullet

datatype piece = P pictograph | T string

text \<open>
  The call sites of the external library, one per call expression of the two scripts
  (\<^verbatim>\<open>State.SQLite.text\<close> is called at two places). \<open>TableInsert\<close> is the call
  \<^verbatim>\<open>tables.testTable.insert\<close> in the body of the materializer (lines 41 and 42):
  it is made when the library runs that function, not by \<^verbatim>\<open>main\<close> itself. The
  last three occur in the corrected script only.
\<close>

datatype call_site =
    SchemaStruct | EventsSynced | SQLiteTextId | SQLiteTextMessage | SQLiteTable
  | SQLiteMaterializers | SQLiteMakeState | MakeSchema | MakeAdapter | CreateStorePromise
  | StoreSubscribe | StoreCommit | StoreClose
  | TableInsert
  | TableWhere | QueryDb | TestEventFn

text \<open>
  The function literals the scripts hand to the library: the materializer of
  \<^verbatim>\<open>v1.TestEvent\<close>, the callback of \<^verbatim>\<open>store.subscribe\<close> in the reproduction
  script and \<^verbatim>\<open>onUpdate\<close> in the corrected one.
\<close>

datatype closure = Materializer | SubscribeCallback | OnUpdate

text \<open>
  The arguments of a library call, as the script writes them: literals, the result of an
  earlier library call (a value the script never looks into), a constant of the library,
  a function literal, or a value computed at run time.
\<close>

datatype arg =
    AStr string
  | ABool bool
  | AObj "(string \<times> arg) list"
  | AResult call_site
  | ALib string
  | AFun closure
  | AVal js_value

text \<open>
  An argument of \<^verbatim>\<open>console.log\<close> or \<^verbatim>\<open>console.error\<close>: a message written
  in the script, a value computed at run time, or a caught error.
\<close>

datatype log_arg = Msg "piece list" | Val js_value | Err js_value

text \<open>
  What a run does, as seen from outside. The first six are done by the body of
  \<^verbatim>\<open>main\<close> and the top level. The last three are done by a function literal when
  the library runs it: its console output, its library call, and the value it throws
  into the library.
\<close>

datatype action =
    ConsoleLog "log_arg list"
  | ConsoleError "log_arg list"
  | LibCall call_site "arg list"
  | SetTimeout nat
  | ClearTimeout
  | ProcessExit nat
  | CallbackLog closure "log_arg list"
  | CallbackCall closure call_site "arg list"
  | CallbackThrow closure js_value

text \<open>
  A piece of script either returns, raises, or stops at an \<^verbatim>\<open>await\<close> whose promise
  never settles. It is described by the actions it performs and how it ends.
\<close>

datatype outcome = Returned | Raised js_value | Pending

type_synonym comp = "action list \<times> outcome"

text \<open>\<^verbatim>\<open>console.log(msg, v, ...)\<close> and \<^verbatim>\<open>console.log(v)\<close>\<close>

definition log :: "piece list \<Rightarrow> js_value list \<Rightarrow> comp" where
  "log msg vs = ([ConsoleLog (Msg msg # map Val vs)], Returned)"

definition log_value :: "js_value \<Rightarrow> comp" where
  "log_value v = ([ConsoleLog [Val v]], Returned)"

definition raise :: "js_value \<Rightarrow> comp" where
  "raise e = ([], Raised e)"

text \<open>Statement sequencing: the second statement runs only when the first returns.\<close>

definition seq :: "comp \<Rightarrow> comp \<Rightarrow> comp" where
  "seq c d = (case snd c of Returned \<Rightarrow> (fst c @ fst d, snd d) | _ \<Rightarrow> c)"

definition block :: "comp list \<Rightarrow> comp" where
  "block cs = foldr seq cs ([], Returned)"

text \<open>\<^verbatim>\<open>try { c } catch (e) { h e }\<close>\<close>

definition try_catch :: "comp \<Rightarrow> (js_value \<Rightarrow> comp) \<Rightarrow> comp" where
  "try_catch c h =
     (case snd c of Raised e \<Rightarrow> (fst c @ fst (h e), snd (h e)) | _ \<Rightarrow> c)"

text \<open>An expression that may throw, and the statement that uses its value.\<close>

definition with_result :: "js_value + 'a \<Rightarrow> ('a \<Rightarrow> comp) \<Rightarrow> comp" where
  "with_result r f = (case r of Inl e \<Rightarrow> raise e | Inr x \<Rightarrow> f x)"

subsection \<open>Promises\<close>

text \<open>
  A promise settles at some point of the event loop's run, fulfilled or rejected, or
  never. The point is a position in the order in which the loop runs its callbacks, not
  a time: a timer's callback runs no earlier than its delay, and later when the loop is
  busy.
\<close>

datatype settlement = Fulfilled | Rejected js_value

datatype fate = Settles nat settlement | NeverSettles

text \<open>
  \<^verbatim>\<open>Promise.race\<close>: the result follows the promise that settles first; of two
  promises already settled, the earlier in the array.
\<close>

fun earlier :: "fate \<Rightarrow> fate \<Rightarrow> fate" where
  "earlier NeverSettles q = q"
| "earlier p NeverSettles = p"
| "earlier (Settles t r) (Settles u s) = (if t \<le> u then Settles t r else Settles u s)"

definition Promise_race :: "fate list \<Rightarrow> fate" where
  "Promise_race ps = foldr earlier ps NeverSettles"

definition await :: "fate \<Rightarrow> comp" where
  "await p =
     (case p of
        NeverSettles \<Rightarrow> ([], Pending)
      | Settles t Fulfilled \<Rightarrow> ([], Returned)
      | Settles t (Rejected e) \<Rightarrow> ([], Raised e))"

section \<open>The environment of a run\<close>

text \<open>
  The library runs the function literals it was handed: the materializer with an event,
  the callback of \<^verbatim>\<open>store.subscribe\<close> with an event, \<^verbatim>\<open>onUpdate\<close> with
  query results. It does so while one of its calls is running, or while the script waits
  at an \<^verbatim>\<open>await\<close>. A run of the materializer comes with what
  \<^verbatim>\<open>tables.testTable.insert\<close> does in it: it returns (\<open>None\<close>) or raises.
\<close>

datatype callback_run =
    Run_materializer js_value "js_value option"
  | Run_subscribe_callback js_value
  | Run_onUpdate js_value

datatype await_point = AwaitRace | AwaitClose

text \<open>
  Everything the scripts do not decide themselves: for each library call site of
  \<^verbatim>\<open>main\<close> whether the call raises and with what value, which function literals
  the library runs during the call and with what arguments, which it runs while the
  script waits for the race and for \<^verbatim>\<open>store.close()\<close>, the fate of the two promises the library returns, the point
  at which the timer's callback runs, the schema object \<^verbatim>\<open>makeSchema\<close> returns
  (its own properties), and the results of \<^verbatim>\<open>typeof events.testEvent\<close>,
  \<^verbatim>\<open>JSON.stringify(schema, null, 2)\<close> and \<^verbatim>\<open>process.version\<close>.

  An environment may name a function literal before the script has handed it over; such
  an environment describes no real run, and the statements below hold for it all the
  same.
\<close>

record env =
  raises :: "call_site \<Rightarrow> js_value option"
  callbacks :: "call_site \<Rightarrow> callback_run list"
  while_awaiting :: "await_point \<Rightarrow> callback_run list"
  createStore_promise :: fate
  close_promise :: fate
  timer_tick :: nat
  schema :: "(string \<times> js_value) list"
  typeof_testEvent :: string
  stringify_schema :: "js_value + js_value"
  node_version :: string

subsection \<open>The function literals\<close>

text \<open>
  Lines 41 and 42: \<^verbatim>\<open>({ id, message }) => tables.testTable.insert({ id, message })\<close>.
  The parameter is destructured, the object \<^verbatim>\<open>{ id, message }\<close> is built from the
  two values and passed to \<^verbatim>\<open>tables.testTable.insert\<close>; what that call raises
  leaves the function and reaches the library, which ran it.
\<close>

definition materializer :: "js_value \<Rightarrow> js_value option \<Rightarrow> action list" where
  "materializer event insert_outcome =
     (case destructure_id_message event of
        Inl e \<Rightarrow> [CallbackThrow Materializer e]
      | Inr (i, m) \<Rightarrow>
          CallbackCall Materializer TableInsert
            [AObj [(''id'', AVal i), (''message'', AVal m)]] #
          (case insert_outcome of
             None \<Rightarrow> []
           | Some e \<Rightarrow> [CallbackThrow Materializer e]))"

text \<open>
  Lines 146 to 148 of the reproduction script,
  \<^verbatim>\<open>(event) => { console.log("Event received:", event) }\<close>, and lines 134 to 136
  of the corrected one,
  \<^verbatim>\<open>(results) => { console.log("Query results updated:", results) }\<close>.
\<close>

fun run_callback :: "callback_run \<Rightarrow> action list" where
  "run_callback (Run_materializer event insert_outcome) = materializer event insert_outcome"
| "run_callback (Run_subscribe_callback event) =
     [CallbackLog SubscribeCallback [Msg [T ''Event received:''], Val event]]"
| "run_callback (Run_onUpdate results) =
     [CallbackLog OnUpdate [Msg [T ''Query results updated:''], Val results]]"

definition run_callbacks :: "callback_run list \<Rightarrow> action list" where
  "run_callbacks rs = concat (map run_callback rs)"

text \<open>
  A synchronous library call: it is made, the library runs the function literals it
  chooses to, and the call returns or raises. (A call made by a function literal runs
  none in turn.)
\<close>

definition call :: "env \<Rightarrow> call_site \<Rightarrow> arg list \<Rightarrow> comp" where
  "call env site args =
     (LibCall site args # run_callbacks (callbacks env site),
      case raises env site of None \<Rightarrow> Returned | Some e \<Rightarrow> Raised e)"

text \<open>
  A piece of script that ends with an \<^verbatim>\<open>await\<close>: what the library runs while the
  script waits there takes place before the script goes on, or before the rejection is
  caught.
\<close>

definition meanwhile :: "env \<Rightarrow> await_point \<Rightarrow> comp \<Rightarrow> comp" where
  "meanwhile env point c = (fst c @ run_callbacks (while_awaiting env point), snd c)"

text \<open>\<^verbatim>\<open>schema.eventsDefsMap\<close>\<close>

definition eventsDefsMap :: "env \<Rightarrow> js_value" where
  "eventsDefsMap env = own_property (schema env) ''eventsDefsMap''"

section \<open>The reproduction script, \<^verbatim>\<open>src/test-bug.js\<close>\<close>

subsection \<open>Steps 1 to 3: the definitions and the schema\<close>

definition events :: arg where
  "events = AObj [(''testEvent'', AResult EventsSynced)]"

definition tables :: arg where
  "tables = AObj [(''testTable'', AResult SQLiteTable)]"

definition main_step1 :: "env \<Rightarrow> comp" where
  "main_step1 env = block
     [log [T ''Step 1: Defining events...''] [],
      call env SchemaStruct
        [AObj [(''id'', ALib ''Schema.String''), (''message'', ALib ''Schema.String'')]],
      call env EventsSynced
        [AObj [(''name'', AStr ''v1.TestEvent''), (''schema'', AResult SchemaStruct)]],
      log [P Check, T '' Events defined:''] [JArray [JStr ''testEvent'']],
      log [P Check, T '' Event function type:''] [JStr (typeof_testEvent env)],
      log [] []]"

definition main_step2 :: "env \<Rightarrow> comp" where
  "main_step2 env = block
     [log [T ''Step 2: Defining state...''] [],
      call env SQLiteTextId [AObj [(''primaryKey'', ABool True)]],
      call env SQLiteTextMessage [],
      call env SQLiteTable
        [AObj [(''name'', AStr ''test''),
               (''columns'', AObj [(''id'', AResult SQLiteTextId),
                                   (''message'', AResult SQLiteTextMessage)])]],
      call env SQLiteMaterializers
        [events, AObj [(''v1.TestEvent'', AFun Materializer)]],
      call env SQLiteMakeState
        [AObj [(''tables'', tables), (''materializers'', AResult SQLiteMaterializers)]],
      log [P Check, T '' State defined with materializers''] [],
      log [] []]"

definition main_step3 :: "env \<Rightarrow> comp" where
  "main_step3 env = block
     [log [T ''Step 3: Creating schema with makeSchema()...''] [],
      call env MakeSchema [AObj [(''events'', events), (''state'', AResult SQLiteMakeState)]],
      log [P Check, T '' Schema created''] [],
      log [] []]"

subsection \<open>Steps 4 and 5: the inspection of the schema\<close>

text \<open>
  Lines 68 to 75, on the value \<open>v\<close> of \<^verbatim>\<open>schema.eventsDefsMap\<close>: each line
  evaluates \<^verbatim>\<open>Object.keys(schema.eventsDefsMap || {})\<close> again.
\<close>

definition inspect_eventsDefsMap :: "js_value \<Rightarrow> comp" where
  "inspect_eventsDefsMap v = block
     [log [P Magnifier, T '' EXPECTED: eventsDefsMap should contain event definitions''] [],
      log [P Chart, T '' ACTUAL RESULTS:''] [],
      with_result (Object_keys (js_or v (JObject [])))
        (\<lambda>ks. log [T ''  eventsDefsMap keys:''] [JArray (map JStr ks)]),
      with_result (Object_keys (js_or v (JObject [])))
        (\<lambda>ks. log [T ''  eventsDefsMap count:''] [JNum (int (length ks))]),
      log [] []]"

definition main_step4 :: "env \<Rightarrow> comp" where
  "main_step4 env = block
     [log [T ''Step 4: Inspecting schema results...''] [],
      with_result (Object_keys (JObject (schema env)))
        (\<lambda>ks. log [T ''Schema keys:''] [JArray (map JStr ks)]),
      log [] [],
      inspect_eventsDefsMap (eventsDefsMap env)]"

definition bug_confirmed :: comp where
  \<open>bug_confirmed = block
     [log [P Cross, T '' BUG CONFIRMED: eventsDefsMap is empty!''] [],
      log [] [],
      log [T ''This causes the following errors when creating a store:''] [],
      log [T ''  - store.subscribe("v1.TestEvent", callback) throws: "Cannot read properties of undefined (reading 'super')"''] [],
      log [T ''  - store.commit("v1.TestEvent", data) throws: "No mutation definition found"''] [],
      log [] [],
      log [P Clipboard, T '' Expected behavior (from official docs):''] [],
      log [T ''  - eventsDefsMap should contain: { "v1.TestEvent": [EventDefinition] }''] [],
      log [T ''  - store.subscribe() and store.commit() should work normally''] []]\<close>

definition schema_working :: comp where
  "schema_working = log [P Check, T '' Schema appears to be working correctly''] []"

text \<open>Lines 78 to 102, on the value \<open>v\<close> of \<^verbatim>\<open>schema.eventsDefsMap\<close>.\<close>

definition demonstrate_bug_impact :: "js_value \<Rightarrow> comp" where
  "demonstrate_bug_impact v = block
     [log [T ''Step 5: Demonstrating bug impact...''] [],
      with_result (Object_keys (js_or v (JObject [])))
        (\<lambda>ks. if length ks = 0 then bug_confirmed else schema_working),
      log [] []]"

definition main_step5 :: "env \<Rightarrow> comp" where
  "main_step5 env = demonstrate_bug_impact (eventsDefsMap env)"

subsection \<open>Step 6: the store, raced against a timer\<close>

definition timeoutMs :: nat where
  "timeoutMs = 5000"

text \<open>
  The promise of an \<^verbatim>\<open>async\<close> function whose body makes synchronous calls and then
  returns the value of one awaited promise: an error thrown by the calls rejects it at
  once, otherwise it shares the fate of the awaited promise.
\<close>

definition async_function :: "comp \<Rightarrow> fate \<Rightarrow> action list \<times> fate" where
  "async_function body awaited =
     (fst body,
      case snd body of
        Returned \<Rightarrow> awaited
      | Raised e \<Rightarrow> Settles 0 (Rejected e)
      | Pending \<Rightarrow> NeverSettles)"

text \<open>Lines 112 to 127; the corrected script has the same function at lines 95 to 110.\<close>

definition testWithTimeout :: "env \<Rightarrow> action list \<times> fate" where
  "testWithTimeout env = async_function
     (block
        [call env MakeAdapter [AObj [(''storage'', AObj [(''type'', AStr ''in-memory'')])]],
         call env CreateStorePromise
           [AObj [(''adapter'', AResult MakeAdapter), (''schema'', AResult MakeSchema),
                  (''storeId'', AStr ''test-bug-repro'')]]])
     (createStore_promise env)"

text \<open>
  The second promise of the race: its executor arms a timer of \<open>timeoutMs\<close> whose
  callback rejects the promise.
\<close>

definition timeout_promise :: "env \<Rightarrow> action list \<times> fate" where
  "timeout_promise env =
     ([SetTimeout timeoutMs],
      Settles (timer_tick env) (Rejected (JsError ''Store creation timed out'' ''Error'')))"

text \<open>
  \<^verbatim>\<open>await Promise.race([testWithTimeout(), new Promise(...)])\<close>: the array is built
  left to right, then the script waits for the race.
\<close>

definition race_store_creation :: "env \<Rightarrow> comp" where
  "race_store_creation env =
     seq (fst (testWithTimeout env) @ fst (timeout_promise env), Returned)
         (await (Promise_race [snd (testWithTimeout env), snd (timeout_promise env)]))"

text \<open>
  The catch block of lines 150 to 154. The arguments of a \<^verbatim>\<open>console.log\<close> are
  evaluated before it prints: when reading the property throws, nothing is printed and
  the error leaves the catch block.
\<close>

definition subscribe_failed :: "js_value \<Rightarrow> comp" where
  "subscribe_failed subscribeError = block
     [with_result (get_message subscribeError)
        (\<lambda>m. log [P Cross, T '' SUBSCRIBE FAILED:''] [m]),
      with_result (get_constructor_name subscribeError)
        (\<lambda>n. log [T ''   Error type:''] [n]),
      log [T ''   This confirms the eventsDefsMap bug impact''] []]"

text \<open>Lines 145 to 154.\<close>

definition subscribe_attempt :: "env \<Rightarrow> comp" where
  "subscribe_attempt env = try_catch
     (block
        [call env StoreSubscribe [AStr ''v1.TestEvent'', AFun SubscribeCallback],
         log [P Check, T '' Subscribe worked (unexpected - bug may be fixed!)''] []])
     subscribe_failed"

text \<open>The catch block of lines 166 to 170.\<close>

definition commit_failed :: "js_value \<Rightarrow> comp" where
  "commit_failed commitError = block
     [with_result (first_line_of_message commitError)
        (\<lambda>m. log [P Cross, T '' COMMIT FAILED:''] [m]),
      with_result (get_constructor_name commitError)
        (\<lambda>n. log [T ''   Error type:''] [n]),
      log [T ''   This confirms the eventsDefsMap bug impact''] []]"

text \<open>Lines 160 to 170.\<close>

definition commit_attempt :: "env \<Rightarrow> comp" where
  "commit_attempt env = try_catch
     (block
        [call env StoreCommit
           [AStr ''v1.TestEvent'',
            AObj [(''id'', AStr ''test-123''), (''message'', AStr ''Hello World'')]],
         log [P Check, T '' Commit worked (unexpected - bug may be fixed!)''] []])
     commit_failed"

text \<open>
  \<^verbatim>\<open>await store.close()\<close>: the call is made; when it returns, the script waits
  for the promise it returned.
\<close>

definition close_store :: "env \<Rightarrow> comp" where
  "close_store env =
     seq (call env StoreClose []) (meanwhile env AwaitClose (await (close_promise env)))"

text \<open>The body of the outer \<^verbatim>\<open>try\<close>, lines 130 to 181.\<close>

definition store_body :: "env \<Rightarrow> comp" where
  "store_body env = block
     [meanwhile env AwaitRace (race_store_creation env),
      log [P Check, T '' Store created successfully''] [],
      log [] [],
      log [T ''Test 1: Attempting store.subscribe()...''] [],
      subscribe_attempt env,
      log [] [],
      log [T ''Test 2: Attempting store.commit()...''] [],
      commit_attempt env,
      log [] [],
      log [P Bulb, T '' Both failures are directly caused by the empty eventsDefsMap''] [],
      log [] [],
      log [P Cycle, T '' Closing store...''] [],
      close_store env,
      log [P Check, T '' Store closed''] []]"

text \<open>The catch block of lines 182 to 185.\<close>

definition store_failed :: "js_value \<Rightarrow> comp" where
  "store_failed storeError = block
     [with_result (get_message storeError)
        (\<lambda>m. log [P Cross, T '' STORE CREATION FAILED:''] [m]),
      log [T ''   This might be another symptom of the same bug''] []]"

definition main_step6 :: "env \<Rightarrow> comp" where
  "main_step6 env = block
     [log [T ''Step 6: Creating store and testing subscribe/commit...''] [],
      log [] [],
      log [P Stopwatch,
           T (''  Setting '' @ string_of_nat timeoutMs @ ''ms timeout to prevent hanging...'')] [],
      try_catch (store_body env) store_failed]"

subsection \<open>The final diagnostics and \<^verbatim>\<open>main\<close>\<close>

definition final_diagnostics :: "env \<Rightarrow> comp" where
  "final_diagnostics env = block
     [log [] [],
      log [P Link,
           T '' Reference: https://docs.livestore.dev/reference/syncing/server-side-clients/''] [],
      log [P Package, T '' LiveStore version:''] [JStr ''0.3.1''],
      log [P Rocket, T '' Node.js version:''] [JStr (node_version env)],
      log [] [],
      log [T ''Full schema structure:''] [],
      with_result (stringify_schema env) log_value,
      log [] [],
      log [P Flag, T '' Test completed - exiting...''] []]"

definition main_banner :: comp where
  "main_banner = block
     [log [P Magnifier, T '' LiveStore Node.js Adapter Bug Reproduction''] [],
      log [T ''==============================================''] [],
      log [] []]"

definition main :: "env \<Rightarrow> comp" where
  "main env = block
     [main_banner,
      main_step1 env,
      main_step2 env,
      main_step3 env,
      main_step4 env,
      main_step5 env,
      main_step6 env,
      final_diagnostics env]"

subsection \<open>The top level: \<^verbatim>\<open>main().catch(...).finally(...)\<close>\<close>

definition catch_handler :: "js_value \<Rightarrow> action list" where
  "catch_handler error =
     [ConsoleError [Msg [P Cross, T '' Unhandled error:''], Err error], ProcessExit 1]"

definition finally_handler :: "action list" where
  "finally_handler = [ProcessExit 0]"

text \<open>
  The handlers the promise chain schedules. A rejection of \<^verbatim>\<open>main()\<close> runs the
  \<^verbatim>\<open>catch\<close> handler, whose promise is then fulfilled, so that the
  \<^verbatim>\<open>finally\<close> handler is scheduled after it; a fulfilment skips the
  \<^verbatim>\<open>catch\<close> handler; while \<^verbatim>\<open>main()\<close> is pending no handler runs.
\<close>

definition promise_chain :: "comp \<Rightarrow> action list" where
  "promise_chain c =
     (case snd c of
        Returned \<Rightarrow> fst c @ finally_handler
      | Raised e \<Rightarrow> fst c @ catch_handler e @ finally_handler
      | Pending \<Rightarrow> fst c)"

text \<open>
  \<^verbatim>\<open>process.exit(code)\<close> ends the process at once: nothing scheduled after it runs.
  \<open>performed\<close> are the actions that take place, \<open>exit_code\<close> the code of the first
  \<^verbatim>\<open>process.exit\<close> among them (\<open>None\<close>: the script never ends the process).
\<close>

fun performed :: "action list \<Rightarrow> action list" where
  "performed [] = []"
| "performed (ProcessExit c # as) = [ProcessExit c]"
| "performed (a # as) = a # performed as"

fun exit_code :: "action list \<Rightarrow> nat option" where
  "exit_code [] = None"
| "exit_code (ProcessExit c # as) = Some c"
| "exit_code (a # as) = exit_code as"

definition test_bug :: "env \<Rightarrow> action list" where
  "test_bug env = performed (promise_chain (main env))"

section \<open>The corrected script, \<^verbatim>\<open>src/unnamed/part_000\<close>\<close>

text \<open>
  Its steps 1 to 3 are those of the reproduction script, line for line, and its
  \<^verbatim>\<open>testWithTimeout\<close>, race and top level are the same code; the definitions above
  are used for them. What differs is the banner, the inspection (steps 4 and 5), the
  calls inside the store block, which has no \<^verbatim>\<open>store.close()\<close>, and the final
  diagnostics.
\<close>

text \<open>Lines 68 to 72, on the value \<open>v\<close> of \<^verbatim>\<open>schema.eventsDefsMap\<close>.\<close>

definition inspect_eventsDefsMap_corrected :: "js_value \<Rightarrow> comp" where
  "inspect_eventsDefsMap_corrected v = block
     [log [P Magnifier, T '' CORRECTED: Using proper Map inspection methods''] [],
      log [P Chart, T '' ACTUAL RESULTS:''] [],
      with_result (get_size v) (\<lambda>s. log [T ''  eventsDefsMap size:''] [s]),
      with_result (keys_method v) (\<lambda>ks. log [T ''  eventsDefsMap keys:''] [JArray ks]),
      log [] []]"

definition main_step4_corrected :: "env \<Rightarrow> comp" where
  "main_step4_corrected env = block
     [log [T ''Step 4: Inspecting schema results (CORRECTED)...''] [],
      with_result (Object_keys (JObject (schema env)))
        (\<lambda>ks. log [T ''Schema keys:''] [JArray (map JStr ks)]),
      log [] [],
      inspect_eventsDefsMap_corrected (eventsDefsMap env)]"

definition properly_populated :: comp where
  "properly_populated = block
     [log [P Check, T '' CORRECTED: eventsDefsMap is properly populated!''] [],
      log [T ''   The original bug report was due to incorrect Map inspection''] [],
      log [T ''   (Used Object.keys() on a Map instead of .size and Array.from(.keys()))''] []]"

definition still_empty :: comp where
  "still_empty =
     log [P Cross, T '' eventsDefsMap is still empty - this would be a real bug''] []"

text \<open>Lines 75 to 85, on the value \<open>v\<close> of \<^verbatim>\<open>schema.eventsDefsMap\<close>.\<close>

definition verify_populated :: "js_value \<Rightarrow> comp" where
  "verify_populated v = block
     [log [T ''Step 5: Verifying eventsDefsMap is properly populated...''] [],
      with_result (get_size v)
        (\<lambda>s. if greater_than_zero s then properly_populated else still_empty),
      log [] []]"

definition main_step5_corrected :: "env \<Rightarrow> comp" where
  "main_step5_corrected env = verify_populated (eventsDefsMap env)"

definition subscribe_failed_corrected :: "js_value \<Rightarrow> comp" where
  "subscribe_failed_corrected subscribeError = block
     [with_result (get_message subscribeError)
        (\<lambda>m. log [P Cross, T '' SUBSCRIBE FAILED:''] [m]),
      with_result (get_constructor_name subscribeError)
        (\<lambda>n. log [T ''   Error type:''] [n]),
      log [T ''   This would indicate a different issue''] []]"

definition subscribe_attempt_corrected :: "env \<Rightarrow> comp" where
  "subscribe_attempt_corrected env = try_catch
     (block
        [call env TableWhere [AObj []],
         call env QueryDb [AResult TableWhere],
         call env StoreSubscribe [AResult QueryDb, AObj [(''onUpdate'', AFun OnUpdate)]],
         log [P Check, T '' Subscribe worked with correct API!''] [],
         log [T ''   Used queryDb() to create query object''] [],
         log [T ''   Subscribed to query object, not event string''] []])
     subscribe_failed_corrected"

definition commit_failed_corrected :: "js_value \<Rightarrow> comp" where
  "commit_failed_corrected commitError = block
     [with_result (first_line_of_message commitError)
        (\<lambda>m. log [P Cross, T '' COMMIT FAILED:''] [m]),
      with_result (get_constructor_name commitError)
        (\<lambda>n. log [T ''   Error type:''] [n]),
      log [T ''   This would indicate a different issue''] []]"

definition commit_attempt_corrected :: "env \<Rightarrow> comp" where
  "commit_attempt_corrected env = try_catch
     (block
        [call env TestEventFn
           [AObj [(''id'', AStr ''test-123''), (''message'', AStr ''Hello World'')]],
         call env StoreCommit [AResult TestEventFn],
         log [P Check, T '' Commit worked with correct API!''] [],
         log [T ''   Used events.testEvent(data) instead of string''] []])
     commit_failed_corrected"

text \<open>The body of the outer \<^verbatim>\<open>try\<close>, lines 113 to 174.\<close>

definition store_body_corrected :: "env \<Rightarrow> comp" where
  "store_body_corrected env = block
     [meanwhile env AwaitRace (race_store_creation env),
      log [P Check, T '' Store created successfully''] [],
      log [] [],
      log [T ''Test 1: Attempting store.subscribe() with CORRECT API...''] [],
      subscribe_attempt_corrected env,
      log [] [],
      log [T ''Test 2: Attempting store.commit() with CORRECT API...''] [],
      commit_attempt_corrected env,
      log [] [],
      log [P Bulb, T '' Key fixes applied:''] [],
      log [T ''   1. Added queryDb import''] [],
      log [T ''   2. Created query object with queryDb(tables.testTable.where({}))''] [],
      log [T ''   3. Subscribe to query object, not event string''] [],
      log [T ''   4. Commit with events.testEvent(data), not string''] [],
      log [] [],
      log [P Check, T '' Store operations completed successfully''] []]"

definition store_failed_corrected :: "js_value \<Rightarrow> comp" where
  "store_failed_corrected storeError = block
     [with_result (get_message storeError)
        (\<lambda>m. log [P Cross, T '' STORE CREATION FAILED:''] [m]),
      log [T ''   This might indicate a different issue''] []]"

definition main_step6_corrected :: "env \<Rightarrow> comp" where
  "main_step6_corrected env = block
     [log [T ''Step 6: Creating store and testing CORRECT subscribe/commit...''] [],
      log [] [],
      log [P Stopwatch,
           T (''  Setting '' @ string_of_nat timeoutMs @ ''ms timeout to prevent hanging...'')] [],
      try_catch (store_body_corrected env) store_failed_corrected]"

definition final_diagnostics_corrected :: "env \<Rightarrow> comp" where
  "final_diagnostics_corrected env = block
     [log [] [],
      log [P Books, T '' Key Learnings:''] [],
      log [T ''   '', P Bullet,
           T '' Events are for committing: store.commit(events.eventName(data))''] [],
      log [T ''   '', P Bullet,
           T '' Queries are for subscribing: store.subscribe(queryDb(...), options)''] [],
      log [T ''   '', P Bullet,
           T '' eventsDefsMap is a Map, not an object - use .size and Array.from(.keys())''] [],
      log [] [],
      log [P Link,
           T '' Reference: https://docs.livestore.dev/reference/syncing/server-side-clients/''] [],
      log [P Package, T '' LiveStore version:''] [JStr ''0.3.1''],
      log [P Rocket, T '' Node.js version:''] [JStr (node_version env)],
      log [] [],
      log [P Flag, T '' Test completed with CORRECT API usage - exiting...''] []]"

definition main_banner_corrected :: comp where
  "main_banner_corrected = block
     [log [P Magnifier, T '' LiveStore Node.js Adapter - Fixed API Usage''] [],
      log [T ''==============================================''] [],
      log [] []]"

definition main_corrected :: "env \<Rightarrow> comp" where
  "main_corrected env = block
     [main_banner_corrected,
      main_step1 env,
      main_step2 env,
      main_step3 env,
      main_step4_corrected env,
      main_step5_corrected env,
      main_step6_corrected env,
      final_diagnostics_corrected env]"

definition test_bug_corrected :: "env \<Rightarrow> action list" where
  "test_bug_corrected env = performed (promise_chain (main_corrected env))"

section \<open>Projections of a run\<close>

text \<open>
  The library calls the body of \<^verbatim>\<open>main\<close> makes, in order, their call sites and
  their arguments.
\<close>

fun lib_calls :: "action list \<Rightarrow> (call_site \<times> arg list) list" where
  "lib_calls [] = []"
| "lib_calls (LibCall site args # as) = (site, args) # lib_calls as"
| "lib_calls (a # as) = lib_calls as"

definition call_sites :: "action list \<Rightarrow> call_site list" where
  "call_sites as = map fst (lib_calls as)"

definition call_args :: "action list \<Rightarrow> arg list" where
  "call_args as = concat (map snd (lib_calls as))"

text \<open>
  The library calls made by the function literals while the library runs them, and
  everything a run hands to the library, by the calls of \<^verbatim>\<open>main\<close> and by those.
\<close>

fun callback_calls :: "action list \<Rightarrow> (closure \<times> call_site \<times> arg list) list" where
  "callback_calls [] = []"
| "callback_calls (CallbackCall f site args # as) = (f, site, args) # callback_calls as"
| "callback_calls (a # as) = callback_calls as"

definition handed_over :: "action list \<Rightarrow> arg list" where
  "handed_over as = call_args as @ concat (map (\<lambda>(f, site, args). args) (callback_calls as))"

text \<open>
  A list of actions in which, for every call site \<^verbatim>\<open>main\<close> calls, what the function
  literals do when the library runs them during that call takes place.
\<close>

definition callbacks_run :: "env \<Rightarrow> action list \<Rightarrow> bool" where
  "callbacks_run env as \<longleftrightarrow>
     (\<forall>site \<in> set (call_sites as). set (run_callbacks (callbacks env site)) \<subseteq> set as)"

text \<open>
  The library calls in the body of \<^verbatim>\<open>main\<close> of \<^verbatim>\<open>src/test-bug.js\<close>
  (\<^verbatim>\<open>testWithTimeout\<close> included), in the order of the source text, each with the
  arguments written there. The call of the materializer, \<^verbatim>\<open>tables.testTable.insert\<close>,
  is not among them: it has no place in this order and is made as often as the library
  runs the materializer (\<open>callback_calls\<close>), with the object \<open>insert_payload\<close>.
\<close>

definition all_lib_calls :: "(call_site \<times> arg list) list" where
  "all_lib_calls =
     [(SchemaStruct,
         [AObj [(''id'', ALib ''Schema.String''), (''message'', ALib ''Schema.String'')]]),
      (EventsSynced,
         [AObj [(''name'', AStr ''v1.TestEvent''), (''schema'', AResult SchemaStruct)]]),
      (SQLiteTextId, [AObj [(''primaryKey'', ABool True)]]),
      (SQLiteTextMessage, []),
      (SQLiteTable,
         [AObj [(''name'', AStr ''test''),
                (''columns'', AObj [(''id'', AResult SQLiteTextId),
                                    (''message'', AResult SQLiteTextMessage)])]]),
      (SQLiteMaterializers,
         [AObj [(''testEvent'', AResult EventsSynced)],
          AObj [(''v1.TestEvent'', AFun Materializer)]]),
      (SQLiteMakeState,
         [AObj [(''tables'', AObj [(''testTable'', AResult SQLiteTable)]),
                (''materializers'', AResult SQLiteMaterializers)]]),
      (MakeSchema,
         [AObj [(''events'', AObj [(''testEvent'', AResult EventsSynced)]),
                (''state'', AResult SQLiteMakeState)]]),
      (MakeAdapter, [AObj [(''storage'', AObj [(''type'', AStr ''in-memory'')])]]),
      (CreateStorePromise,
         [AObj [(''adapter'', AResult MakeAdapter), (''schema'', AResult MakeSchema),
                (''storeId'', AStr ''test-bug-repro'')]]),
      (StoreSubscribe, [AStr ''v1.TestEvent'', AFun SubscribeCallback]),
      (StoreCommit,
         [AStr ''v1.TestEvent'',
          AObj [(''id'', AStr ''test-123''), (''message'', AStr ''Hello World'')]]),
      (StoreClose, [])]"

definition all_call_sites :: "call_site list" where
  "all_call_sites = map fst all_lib_calls"

text \<open>
  The call sites of steps 1 to 3: a raise at one of them escapes \<^verbatim>\<open>main\<close>.
\<close>

definition setup_sites :: "call_site list" where
  "setup_sites =
     [SchemaStruct, EventsSynced, SQLiteTextId, SQLiteTextMessage, SQLiteTable,
      SQLiteMaterializers, SQLiteMakeState, MakeSchema]"

text \<open>
  The local data as the specification lists it: the event definition named
  \<^verbatim>\<open>v1.TestEvent\<close> with its struct of two string fields, the table named
  \<^verbatim>\<open>test\<close> with a text primary-key column and a text column, the configuration
  objects of the adapter and of the store, and the commit payload.
\<close>

definition spec_local_data :: "arg list" where
  "spec_local_data =
     [AObj [(''id'', ALib ''Schema.String''), (''message'', ALib ''Schema.String'')],
      AObj [(''name'', AStr ''v1.TestEvent''), (''schema'', AResult SchemaStruct)],
      AObj [(''primaryKey'', ABool True)],
      AObj [(''name'', AStr ''test''),
            (''columns'', AObj [(''id'', AResult SQLiteTextId),
                                (''message'', AResult SQLiteTextMessage)])],
      AObj [(''storage'', AObj [(''type'', AStr ''in-memory'')])],
      AObj [(''adapter'', AResult MakeAdapter), (''schema'', AResult MakeSchema),
            (''storeId'', AStr ''test-bug-repro'')],
      AObj [(''id'', AStr ''test-123''), (''message'', AStr ''Hello World'')]]"

text \<open>What the body of \<^verbatim>\<open>main\<close> hands to the library beyond that list.\<close>

definition further_local_data :: "arg list" where
  "further_local_data =
     [AObj [(''testEvent'', AResult EventsSynced)],
      AObj [(''v1.TestEvent'', AFun Materializer)],
      AObj [(''tables'', AObj [(''testTable'', AResult SQLiteTable)]),
            (''materializers'', AResult SQLiteMaterializers)],
      AObj [(''events'', AObj [(''testEvent'', AResult EventsSynced)]),
            (''state'', AResult SQLiteMakeState)],
      AStr ''v1.TestEvent'',
      AFun SubscribeCallback]"

text \<open>
  The object \<^verbatim>\<open>{ id, message }\<close> the materializer builds from the two values it
  took from its argument.
\<close>

definition insert_payload :: "js_value \<Rightarrow> js_value \<Rightarrow> arg" where
  "insert_payload i m = AObj [(''id'', AVal i), (''message'', AVal m)]"

fun is_insert_payload :: "arg \<Rightarrow> bool" where
  "is_insert_payload (AObj [(k, AVal i), (l, AVal m)]) = (k = ''id'' \<and> l = ''message'')"
| "is_insert_payload a = False"

text \<open>The one library call a function literal makes.\<close>

fun materializer_insert :: "closure \<times> call_site \<times> arg list \<Rightarrow> bool" where
  "materializer_insert (f, site, [a]) =
     (f = Materializer \<and> site = TableInsert \<and> is_insert_payload a)"
| "materializer_insert c = False"

text \<open>
  The actions that take place before the top level ends the process: console output and
  library calls of \<^verbatim>\<open>main\<close>, arming a timer of \<open>timeoutMs\<close>, and what the
  function literals do: the two callbacks print, the materializer calls
  \<^verbatim>\<open>tables.testTable.insert\<close> and may throw.
\<close>

fun main_action :: "action \<Rightarrow> bool" where
  "main_action (ConsoleLog args) = True"
| "main_action (LibCall site args) = True"
| "main_action (SetTimeout n) = (n = timeoutMs)"
| "main_action (CallbackLog f args) = (f = SubscribeCallback \<or> f = OnUpdate)"
| "main_action (CallbackCall f site args) = materializer_insert (f, site, args)"
| "main_action (CallbackThrow f e) = (f = Materializer)"
| "main_action a = False"

text \<open>Console output, library calls and what the function literals do: no timer.\<close>

fun output_or_call :: "action \<Rightarrow> bool" where
  "output_or_call (ConsoleLog args) = True"
| "output_or_call (LibCall site args) = True"
| "output_or_call (CallbackLog f args) = True"
| "output_or_call (CallbackCall f site args) = True"
| "output_or_call (CallbackThrow f e) = True"
| "output_or_call a = False"


fun is_SetTimeout :: "action \<Rightarrow> bool" where
  "is_SetTimeout (SetTimeout n) = True"
| "is_SetTimeout a = False"

text \<open>\<^verbatim>\<open>typeof v === "object" && v !== null\<close>\<close>

fun is_object :: "js_value \<Rightarrow> bool" where
  "is_object (JArray xs) = True"
| "is_object (JObject ps) = True"
| "is_object (JMap es) = True"
| "is_object (JsError m c) = True"
| "is_object v = False"

text \<open>
  The success and failure narration: the messages that start with the check mark or the
  cross, without the values printed after them.
\<close>

fun narrates :: "action \<Rightarrow> bool" where
  "narrates (ConsoleLog (Msg (P Check # m) # vs)) = True"
| "narrates (ConsoleLog (Msg (P Cross # m) # vs)) = True"
| "narrates (ConsoleError (Msg (P Cross # m) # vs)) = True"
| "narrates a = False"

fun headline :: "action \<Rightarrow> piece list" where
  "headline (ConsoleLog (Msg m # vs)) = m"
| "headline (ConsoleError (Msg m # vs)) = m"
| "headline a = []"

definition narration :: "action list \<Rightarrow> piece list list" where
  "narration as = map headline (filter narrates as)"

text \<open>How a piece of script ends, without the error it raises.\<close>

datatype ending = Returns | Raises | Hangs

fun ending_of :: "outcome \<Rightarrow> ending" where
  "ending_of Returned = Returns"
| "ending_of (Raised e) = Raises"
| "ending_of Pending = Hangs"

text \<open>Two pieces of script that narrate the same and end the same way.\<close>

definition alike :: "comp \<Rightarrow> comp \<Rightarrow> bool" where
  "alike c d \<longleftrightarrow>
     narration (fst c) = narration (fst d) \<and> ending_of (snd c) = ending_of (snd d)"

text \<open>
  Two environments in which every call raises or returns alike: the synchronous library
  calls site by site, the awaited race and the awaited \<^verbatim>\<open>store.close()\<close>, and
  \<^verbatim>\<open>JSON.stringify\<close>.
\<close>

definition same_raise_or_return :: "env \<Rightarrow> env \<Rightarrow> bool" where
  "same_raise_or_return env env' \<longleftrightarrow>
     (\<forall>site. (raises env site = None) = (raises env' site = None)) \<and>
     ending_of (snd (race_store_creation env)) = ending_of (snd (race_store_creation env')) \<and>
     ending_of (snd (await (close_promise env))) = ending_of (snd (await (close_promise env'))) \<and>
     isl (stringify_schema env) = isl (stringify_schema env')"

text \<open>The condition of line 80: \<^verbatim>\<open>Object.keys(schema.eventsDefsMap || {}).length === 0\<close>\<close>

definition looks_empty :: "env \<Rightarrow> bool" where
  "looks_empty env \<longleftrightarrow>
     (case Object_keys (js_or (eventsDefsMap env) (JObject [])) of
        Inl e \<Rightarrow> False
      | Inr ks \<Rightarrow> length ks = 0)"

text \<open>The environment in which the call at \<open>site\<close> has the outcome \<open>x\<close>.\<close>

definition with_outcome :: "env \<Rightarrow> call_site \<Rightarrow> js_value option \<Rightarrow> env" where
  "with_outcome env site x = env\<lparr>raises := (raises env)(site := x)\<rparr>"

text \<open>
  The same, for the outcomes of a call that returns or throws an \<^verbatim>\<open>Error\<close>
  instance, given by its message and the name of its constructor.
\<close>

definition with_error :: "env \<Rightarrow> call_site \<Rightarrow> (string \<times> string) option \<Rightarrow> env" where
  "with_error env site x = with_outcome env site (map_option (\<lambda>(m, c). JsError m c) x)"

text \<open>
  The call sites inside the outer \<^verbatim>\<open>try\<close> of lines 129 to 185, and the
  environments in which whatever is thrown or rejected there is an \<^verbatim>\<open>Error\<close>
  instance.
\<close>

definition caught_sites :: "call_site list" where
  "caught_sites = [MakeAdapter, CreateStorePromise, StoreSubscribe, StoreCommit, StoreClose]"

fun error_or_none :: "js_value option \<Rightarrow> bool" where
  "error_or_none None = True"
| "error_or_none (Some v) = is_Error v"

fun rejects_with_error :: "fate \<Rightarrow> bool" where
  "rejects_with_error (Settles t (Rejected v)) = is_Error v"
| "rejects_with_error p = True"

definition throws_only_errors :: "env \<Rightarrow> bool" where
  "throws_only_errors env \<longleftrightarrow>
     list_all (\<lambda>site. error_or_none (raises env site)) caught_sites \<and>
     rejects_with_error (createStore_promise env) \<and>
     rejects_with_error (close_promise env)"

text \<open>
  A script \<open>f\<close> that depends on a parameter \<open>x\<close> only through its part \<open>s x\<close>:
  either all its runs perform the same actions before \<open>s x\<close>, the same actions after
  it and end alike, or its runs do not depend on \<open>x\<close> at all (they never get to
  \<open>s x\<close>).
\<close>

definition differs_only_at :: "('x \<Rightarrow> comp) \<Rightarrow> ('x \<Rightarrow> comp) \<Rightarrow> bool" where
  "differs_only_at s f \<longleftrightarrow>
     (\<exists>before after out. \<forall>x. f x = (before @ fst (s x) @ after, out)) \<or>
     (\<exists>c. \<forall>x. f x = c)"

section \<open>Concrete runs\<close>

definition no_raise :: "call_site \<Rightarrow> js_value option" where
  "no_raise site = None"

definition no_callbacks :: "call_site \<Rightarrow> callback_run list" where
  "no_callbacks site = []"

definition nothing_meanwhile :: "await_point \<Rightarrow> callback_run list" where
  "nothing_meanwhile point = []"

definition boom :: js_value where
  "boom = JsError ''boom'' ''Error''"

text \<open>The Map the library builds for the one event of the scripts.\<close>

definition populated_map :: js_value where
  "populated_map = JMap [(JStr ''v1.TestEvent'', JObject [(''name'', JStr ''v1.TestEvent'')])]"

text \<open>
  Every library call returns, the library runs no function literal, the store is created
  before the timer fires, and \<^verbatim>\<open>eventsDefsMap\<close> is the populated Map.
\<close>

definition happy_env :: env where
  "happy_env =
     \<lparr>raises = no_raise,
      callbacks = no_callbacks,
      while_awaiting = nothing_meanwhile,
      createStore_promise = Settles 1 Fulfilled,
      close_promise = Settles 3 Fulfilled,
      timer_tick = 2,
      schema = [(''eventsDefsMap'', populated_map)],
      typeof_testEvent = ''function'',
      stringify_schema = Inr (JStr ''{}''),
      node_version = ''v24.1.0''\<rparr>"

text \<open>Store creation never settles: the timer wins the race.\<close>

definition timeout_env :: env where
  "timeout_env = happy_env\<lparr>createStore_promise := NeverSettles\<rparr>"

text \<open>The promise of \<^verbatim>\<open>createStorePromise\<close> is rejected before the timer fires.\<close>

definition rejected_env :: env where
  "rejected_env = happy_env\<lparr>createStore_promise := Settles 1 (Rejected boom)\<rparr>"

text \<open>\<^verbatim>\<open>makeSchema\<close> raises.\<close>

definition schema_raises_env :: env where
  "schema_raises_env = happy_env\<lparr>raises := no_raise(MakeSchema := Some boom)\<rparr>"

text \<open>\<^verbatim>\<open>store.subscribe\<close> and \<^verbatim>\<open>store.commit\<close> both raise.\<close>

definition attempts_raise_env :: env where
  "attempts_raise_env =
     happy_env\<lparr>raises := no_raise(StoreSubscribe := Some boom, StoreCommit := Some boom)\<rparr>"

text \<open>The promise of \<^verbatim>\<open>store.close()\<close> never settles.\<close>

definition close_hangs_env :: env where
  "close_hangs_env = happy_env\<lparr>close_promise := NeverSettles\<rparr>"

text \<open>
  \<^verbatim>\<open>eventsDefsMap\<close> is a plain object with one own property, respectively without
  any; every library call returns in both runs.
\<close>

definition plain_object_env :: env where
  "plain_object_env =
     happy_env\<lparr>schema := [(''eventsDefsMap'', JObject [(''v1.TestEvent'', JNull)])]\<rparr>"

definition empty_object_env :: env where
  "empty_object_env = happy_env\<lparr>schema := [(''eventsDefsMap'', JObject [])]\<rparr>"

text \<open>
  \<^verbatim>\<open>store.commit\<close> throws a string, as \<^verbatim>\<open>throw "..."\<close> does: a value
  without a \<^verbatim>\<open>message\<close>.
\<close>

definition commit_throws_string_env :: env where
  "commit_throws_string_env =
     happy_env\<lparr>raises := no_raise(StoreCommit := Some (JStr ''No mutation definition found''))\<rparr>"

text \<open>The promise of \<^verbatim>\<open>store.close()\<close> is rejected.\<close>

definition close_rejected_env :: env where
  "close_rejected_env = happy_env\<lparr>close_promise := Settles 3 (Rejected boom)\<rparr>"

text \<open>
  The library runs the materializer on the committed event during
  \<^verbatim>\<open>store.commit\<close>, and once more, with the callback of
  \<^verbatim>\<open>store.subscribe\<close>, while the script waits for \<^verbatim>\<open>store.close()\<close>.
\<close>

definition test_event :: js_value where
  "test_event = JObject [(''id'', JStr ''test-123''), (''message'', JStr ''Hello World'')]"

definition materializing_env :: env where
  "materializing_env =
     happy_env\<lparr>callbacks := no_callbacks(StoreCommit := [Run_materializer test_event None]),
               while_awaiting :=
                 nothing_meanwhile
                   (AwaitClose := [Run_materializer test_event None,
                                   Run_subscribe_callback test_event])\<rparr>"

section \<open>Laws of sequencing\<close>

lemma seq_Returned [simp]: "seq (t, Returned) d = (t @ fst d, snd d)"
  by (simp add: seq_def)

lemma seq_Raised [simp]: "seq (t, Raised e) d = (t, Raised e)"
  by (simp add: seq_def)

lemma seq_Pending [simp]: "seq (t, Pending) d = (t, Pending)"
  by (simp add: seq_def)

lemma fst_seq: "fst (seq c d) = (if snd c = Returned then fst c @ fst d else fst c)"
  by (cases c; cases "snd c") auto

lemma snd_seq: "snd (seq c d) = (if snd c = Returned then snd d else snd c)"
  by (cases c; cases "snd c") auto

lemma block_Nil [simp]: "block [] = ([], Returned)"
  by (simp add: block_def)

lemma block_Cons [simp]: "block (c # cs) = seq c (block cs)"
  by (simp add: block_def)

lemma try_catch_Returned [simp]: "try_catch (t, Returned) h = (t, Returned)"
  by (simp add: try_catch_def)

lemma try_catch_Pending [simp]: "try_catch (t, Pending) h = (t, Pending)"
  by (simp add: try_catch_def)

lemma try_catch_Raised [simp]: "try_catch (t, Raised e) h = (t @ fst (h e), snd (h e))"
  by (simp add: try_catch_def)

lemma fst_try_catch:
  "fst (try_catch c h) = (case snd c of Raised e \<Rightarrow> fst c @ fst (h e) | _ \<Rightarrow> fst c)"
  by (cases c; cases "snd c") auto

lemma snd_try_catch:
  "snd (try_catch c h) = (case snd c of Raised e \<Rightarrow> snd (h e) | out \<Rightarrow> out)"
  by (cases c; cases "snd c") auto

section \<open>The inspection of \<^verbatim>\<open>eventsDefsMap\<close>\<close>

lemma Object_keys_guarded: "\<exists>ks. Object_keys (js_or v (JObject [])) = Inr ks"
  by (cases v) (auto simp: js_or_def)

lemma inspect_eventsDefsMap_returns: "snd (inspect_eventsDefsMap v) = Returned"
proof -
  obtain ks where "Object_keys (js_or v (JObject [])) = Inr ks"
    using Object_keys_guarded by blast
  then show ?thesis
    by (simp add: inspect_eventsDefsMap_def with_result_def log_def)
qed

lemma demonstrate_bug_impact_returns: "snd (demonstrate_bug_impact v) = Returned"
proof -
  obtain ks where "Object_keys (js_or v (JObject [])) = Inr ks"
    using Object_keys_guarded by blast
  then show ?thesis
    by (simp add: demonstrate_bug_impact_def with_result_def log_def bug_confirmed_def
        schema_working_def)
qed

lemma main_step4_returns: "snd (main_step4 env) = Returned"
  by (simp add: main_step4_def with_result_def log_def snd_seq inspect_eventsDefsMap_returns)

lemma main_step5_returns: "snd (main_step5 env) = Returned"
  by (simp add: main_step5_def demonstrate_bug_impact_returns)

lemma size_after_keys:
  "keys_method v = Inr ks \<Longrightarrow>
     (\<exists>n. get_size v = Inr (JNum n)) \<or> get_size v = Inr JUndefined"
  by (cases v) simp_all

lemma inspect_corrected_returns_iff:
  "snd (inspect_eventsDefsMap_corrected v) = Returned \<longleftrightarrow>
     (\<exists>es. v = JMap es) \<or> (\<exists>xs. v = JArray xs)"
  by (cases v) (simp_all add: inspect_eventsDefsMap_corrected_def with_result_def log_def
      raise_def)

text \<open>
  C1. The two inspections are not equivalent: on every Map with at least one entry the
  reproduction script takes the branch that prints
  \<^verbatim>\<open>BUG CONFIRMED: eventsDefsMap is empty!\<close> (and not the one that prints
  \<^verbatim>\<open>Schema appears to be working correctly\<close>), while the corrected script takes the
  branch that prints \<^verbatim>\<open>eventsDefsMap is properly populated!\<close> (and not the one that
  prints \<^verbatim>\<open>still empty\<close>). Both scripts get to their step 5 on such a value.
\<close>

theorem inspections_disagree_on_nonempty_Map:
  "eventsDefsMap env = JMap es \<Longrightarrow> es \<noteq> [] \<Longrightarrow>
     snd (main_step4 env) = Returned \<and>
     snd (main_step4_corrected env) = Returned \<and>
     main_step5 env =
       block [log [T ''Step 5: Demonstrating bug impact...''] [], bug_confirmed, log [] []] \<and>
     main_step5_corrected env =
       block [log [T ''Step 5: Verifying eventsDefsMap is properly populated...''] [],
              properly_populated, log [] []] \<and>
     ConsoleLog [Msg [P Cross, T '' BUG CONFIRMED: eventsDefsMap is empty!'']]
       \<in> set (fst (main_step5 env)) \<and>
     ConsoleLog [Msg [P Check, T '' Schema appears to be working correctly'']]
       \<notin> set (fst (main_step5 env)) \<and>
     ConsoleLog [Msg [P Check, T '' CORRECTED: eventsDefsMap is properly populated!'']]
       \<in> set (fst (main_step5_corrected env)) \<and>
     ConsoleLog [Msg [P Cross, T '' eventsDefsMap is still empty - this would be a real bug'']]
       \<notin> set (fst (main_step5_corrected env))"
  by (simp add: main_step4_returns main_step4_corrected_def
      inspect_eventsDefsMap_corrected_def main_step5_def main_step5_corrected_def
      demonstrate_bug_impact_def verify_populated_def with_result_def js_or_def
      bug_confirmed_def properly_populated_def log_def)

theorem inspections_disagree_on_nonempty_Map_witness:
  "eventsDefsMap happy_env = populated_map \<and>
   ConsoleLog [Msg [P Cross, T '' BUG CONFIRMED: eventsDefsMap is empty!'']]
     \<in> set (fst (main_step5 happy_env)) \<and>
   ConsoleLog [Msg [P Check, T '' CORRECTED: eventsDefsMap is properly populated!'']]
     \<in> set (fst (main_step5_corrected happy_env))"
proof -
  have m: "eventsDefsMap happy_env =
      JMap [(JStr ''v1.TestEvent'', JObject [(''name'', JStr ''v1.TestEvent'')])]"
    by (simp add: eventsDefsMap_def happy_env_def populated_map_def own_property_def)
  have n: "[(JStr ''v1.TestEvent'', JObject [(''name'', JStr ''v1.TestEvent'')])] \<noteq> []"
    by simp
  have p: "eventsDefsMap happy_env = populated_map"
    using m by (simp add: populated_map_def)
  show ?thesis
    using inspections_disagree_on_nonempty_Map [OF m n] p by blast
qed

text \<open>
  C9. Whatever the value of \<^verbatim>\<open>schema.eventsDefsMap\<close>, steps 4 and 5 of the
  reproduction script return: every \<^verbatim>\<open>Object.keys\<close> is applied to
  \<^verbatim>\<open>schema.eventsDefsMap || {}\<close>. The inspection of the corrected script reads
  \<^verbatim>\<open>.size\<close> and calls \<^verbatim>\<open>.keys()\<close> on the value itself: it raises a TypeError
  on undefined and on null, and when it returns the value is a non-null object.
\<close>

theorem guarded_inspection_never_throws:
  "snd (inspect_eventsDefsMap v) = Returned \<and>
   snd (demonstrate_bug_impact v) = Returned \<and>
   snd (main_step4 env) = Returned \<and>
   snd (main_step5 env) = Returned \<and>
   snd (inspect_eventsDefsMap_corrected JUndefined) =
     Raised (TypeError ''Cannot read properties of undefined (reading 'size')'') \<and>
   snd (inspect_eventsDefsMap_corrected JNull) =
     Raised (TypeError ''Cannot read properties of null (reading 'size')'') \<and>
   snd (verify_populated JUndefined) =
     Raised (TypeError ''Cannot read properties of undefined (reading 'size')'') \<and>
   snd (verify_populated JNull) =
     Raised (TypeError ''Cannot read properties of null (reading 'size')'') \<and>
   (snd (inspect_eventsDefsMap_corrected v) = Returned \<longrightarrow> is_object v) \<and>
   (snd (verify_populated v) = Returned \<longrightarrow> v \<noteq> JUndefined \<and> v \<noteq> JNull)"
proof -
  have "snd (inspect_eventsDefsMap_corrected v) = Returned \<longrightarrow> is_object v"
    by (auto simp: inspect_corrected_returns_iff)
  moreover have "snd (verify_populated v) = Returned \<longrightarrow> v \<noteq> JUndefined \<and> v \<noteq> JNull"
    by (auto simp: verify_populated_def with_result_def log_def raise_def)
  ultimately show ?thesis
    by (simp add: inspect_eventsDefsMap_returns demonstrate_bug_impact_returns
        main_step4_returns main_step5_returns inspect_eventsDefsMap_corrected_def
        verify_populated_def with_result_def log_def raise_def)
qed

theorem guarded_inspection_never_throws_witness:
  "snd (inspect_eventsDefsMap_corrected populated_map) = Returned \<and>
   is_object populated_map \<and>
   snd (inspect_eventsDefsMap JUndefined) = Returned"
proof -
  have r: "snd (inspect_eventsDefsMap_corrected populated_map) = Returned"
    by (simp add: populated_map_def inspect_eventsDefsMap_corrected_def with_result_def
        log_def)
  show ?thesis
    using r guarded_inspection_never_throws [of populated_map happy_env]
      guarded_inspection_never_throws [of JUndefined happy_env]
    by blast
qed

section \<open>What the body of \<^verbatim>\<open>main\<close> can do\<close>

lemma all_seq:
  "list_all Q (fst c) \<Longrightarrow> list_all Q (fst d) \<Longrightarrow> list_all Q (fst (seq c d))"
  by (simp add: fst_seq)

lemma all_block:
  "list_all (\<lambda>c. list_all Q (fst c)) cs \<Longrightarrow> list_all Q (fst (block cs))"
  by (induction cs) (simp_all add: all_seq)

lemma all_try_catch:
  "list_all Q (fst c) \<Longrightarrow> (\<And>e. list_all Q (fst (h e))) \<Longrightarrow> list_all Q (fst (try_catch c h))"
  by (simp add: fst_try_catch split: outcome.splits)

lemma all_with_result:
  "(\<And>x. list_all Q (fst (f x))) \<Longrightarrow> list_all Q (fst (with_result r f))"
  by (simp add: with_result_def raise_def split: sum.splits)

lemma main_action_log [simp]: "list_all main_action (fst (log msg vs))"
  by (simp add: log_def)

lemma main_action_log_value [simp]: "list_all main_action (fst (log_value v))"
  by (simp add: log_value_def)

lemma main_action_materializer: "list_all main_action (materializer event outcome)"
  by (simp add: materializer_def split: sum.splits prod.splits option.splits)

lemma main_action_run_callbacks [simp]: "list_all main_action (run_callbacks rs)"
proof (induction rs)
  case Nil
  then show ?case by (simp add: run_callbacks_def)
next
  case (Cons r rs)
  then show ?case
    by (cases r) (simp_all add: run_callbacks_def main_action_materializer)
qed

lemma main_action_call [simp]: "list_all main_action (fst (call env site args))"
  by (simp add: call_def)

lemma main_action_meanwhile:
  "list_all main_action (fst c) \<Longrightarrow> list_all main_action (fst (meanwhile env point c))"
  by (simp add: meanwhile_def)

lemma main_action_await [simp]: "list_all main_action (fst (await p))"
  by (simp add: await_def split: fate.splits settlement.splits)

lemma main_action_steps_1_to_3:
  "list_all main_action (fst main_banner)"
  "list_all main_action (fst main_banner_corrected)"
  "list_all main_action (fst (main_step1 env))"
  "list_all main_action (fst (main_step2 env))"
  "list_all main_action (fst (main_step3 env))"
  by (simp_all add: main_banner_def main_banner_corrected_def main_step1_def main_step2_def
      main_step3_def all_block del: block_Cons)

lemma main_action_race: "list_all main_action (fst (race_store_creation env))"
  by (simp add: race_store_creation_def testWithTimeout_def async_function_def
      timeout_promise_def all_seq all_block del: block_Cons)

lemma main_action_steps_4_5:
  "list_all main_action (fst (main_step4 env))"
  "list_all main_action (fst (main_step5 env))"
  "list_all main_action (fst (main_step4_corrected env))"
  "list_all main_action (fst (main_step5_corrected env))"
  by (simp_all add: main_step4_def main_step5_def inspect_eventsDefsMap_def
      demonstrate_bug_impact_def bug_confirmed_def schema_working_def
      main_step4_corrected_def main_step5_corrected_def inspect_eventsDefsMap_corrected_def
      verify_populated_def properly_populated_def still_empty_def
      all_block all_with_result del: block_Cons)

lemma main_action_step6:
  "list_all main_action (fst (main_step6 env))"
  "list_all main_action (fst (main_step6_corrected env))"
  by (simp_all add: main_step6_def store_body_def store_failed_def subscribe_attempt_def
      commit_attempt_def close_store_def main_step6_corrected_def store_body_corrected_def
      store_failed_corrected_def subscribe_attempt_corrected_def commit_attempt_corrected_def
      subscribe_failed_def commit_failed_def subscribe_failed_corrected_def
      commit_failed_corrected_def main_action_race main_action_meanwhile
      all_block all_try_catch all_seq all_with_result del: block_Cons)

lemma main_action_final:
  "list_all main_action (fst (final_diagnostics env))"
  "list_all main_action (fst (final_diagnostics_corrected env))"
  by (simp_all add: final_diagnostics_def final_diagnostics_corrected_def all_block
      all_with_result del: block_Cons)

lemma main_action_main: "list_all main_action (fst (main env))"
  by (simp add: main_def all_block main_action_steps_1_to_3 main_action_steps_4_5
      main_action_step6 main_action_final del: block_Cons)

lemma main_action_main_corrected: "list_all main_action (fst (main_corrected env))"
  by (simp add: main_corrected_def all_block main_action_steps_1_to_3 main_action_steps_4_5
      main_action_step6 main_action_final del: block_Cons)

section \<open>The top level\<close>

lemma performed_append:
  "list_all main_action as \<Longrightarrow> performed (as @ bs) = as @ performed bs"
  by (induction as rule: performed.induct) simp_all

lemma exit_code_append:
  "list_all main_action as \<Longrightarrow> exit_code (as @ bs) = exit_code bs"
  by (induction as rule: exit_code.induct) simp_all

lemma exit_code_performed: "exit_code (performed as) = exit_code as"
  by (induction as rule: performed.induct) simp_all

lemma main_action_no_exit: "list_all main_action as \<Longrightarrow> ProcessExit c \<notin> set as"
  by (induction as) auto
 
lemma main_action_no_clear: "list_all main_action as \<Longrightarrow> ClearTimeout \<notin> set as"
  by (induction as) auto

lemma performed_promise_chain:
  "list_all main_action (fst c) \<Longrightarrow>
     performed (promise_chain c) =
       fst c @ (case snd c of
                  Returned \<Rightarrow> [ProcessExit 0]
                | Raised e \<Rightarrow>
                    [ConsoleError [Msg [P Cross, T '' Unhandled error:''], Err e], ProcessExit 1]
                | Pending \<Rightarrow> [])"
  using performed_append [of "fst c" "[]"]
  by (simp add: promise_chain_def performed_append catch_handler_def finally_handler_def
      split: outcome.splits)

lemma test_bug_performed:
  "test_bug env =
     fst (main env) @
       (case snd (main env) of
          Returned \<Rightarrow> [ProcessExit 0]
        | Raised e \<Rightarrow>
            [ConsoleError [Msg [P Cross, T '' Unhandled error:''], Err e], ProcessExit 1]
        | Pending \<Rightarrow> [])"
  by (simp add: test_bug_def performed_promise_chain main_action_main)

lemma test_bug_corrected_performed:
  "test_bug_corrected env =
     fst (main_corrected env) @
       (case snd (main_corrected env) of
          Returned \<Rightarrow> [ProcessExit 0]
        | Raised e \<Rightarrow>
            [ConsoleError [Msg [P Cross, T '' Unhandled error:''], Err e], ProcessExit 1]
        | Pending \<Rightarrow> [])"
  by (simp add: test_bug_corrected_def performed_promise_chain main_action_main_corrected)

lemma exit_code_run:
  "list_all main_action (fst c) \<Longrightarrow>
     exit_code (performed (promise_chain c)) =
       (case snd c of Returned \<Rightarrow> Some 0 | Raised e \<Rightarrow> Some 1 | Pending \<Rightarrow> None)"
  using exit_code_append [of "fst c" "[]"]
  by (simp add: performed_promise_chain exit_code_append split: outcome.splits)

lemma chain_summary:
  assumes "list_all main_action (fst c)"
  shows
    "(\<forall>e. snd c = Raised e \<longrightarrow>
        performed (promise_chain c) =
          fst c @ [ConsoleError [Msg [P Cross, T '' Unhandled error:''], Err e], ProcessExit 1] \<and>
        exit_code (performed (promise_chain c)) = Some 1 \<and>
        ProcessExit 0 \<notin> set (performed (promise_chain c))) \<and>
     (snd c = Returned \<longrightarrow>
        performed (promise_chain c) = fst c @ [ProcessExit 0] \<and>
        exit_code (performed (promise_chain c)) = Some 0) \<and>
     (snd c = Pending \<longrightarrow>
        performed (promise_chain c) = fst c \<and>
        exit_code (performed (promise_chain c)) = None) \<and>
     exit_code (performed (promise_chain c)) \<in> {None, Some 0, Some 1}"
proof -
  have n: "ProcessExit 0 \<notin> set (fst c)"
    using assms by (rule main_action_no_exit)
  show ?thesis
    apply (simp only: exit_code_run [OF assms])
    apply (simp add: performed_promise_chain [OF assms] n split: outcome.splits)
    done
qed

text \<open>
  C3. When \<^verbatim>\<open>main\<close> raises an error \<open>e\<close>, the script logs \<open>e\<close> with
  \<^verbatim>\<open>console.error\<close> and exits with code 1, and the \<^verbatim>\<open>process.exit(0)\<close> of the
  \<^verbatim>\<open>finally\<close> handler does not take place; when \<^verbatim>\<open>main\<close> returns, the script
  exits with code 0; while \<^verbatim>\<open>main\<close> waits for a promise that never settles, the
  script does not end the process. No run has another exit code. The same holds for the
  corrected script.
\<close>

theorem exit_code_1_on_escaped_error_else_0:
  "(\<forall>e. snd (main env) = Raised e \<longrightarrow>
      test_bug env =
        fst (main env) @
          [ConsoleError [Msg [P Cross, T '' Unhandled error:''], Err e], ProcessExit 1] \<and>
      exit_code (test_bug env) = Some 1 \<and>
      ProcessExit 0 \<notin> set (test_bug env)) \<and>
   (snd (main env) = Returned \<longrightarrow>
      test_bug env = fst (main env) @ [ProcessExit 0] \<and>
      exit_code (test_bug env) = Some 0) \<and>
   (snd (main env) = Pending \<longrightarrow>
      test_bug env = fst (main env) \<and> exit_code (test_bug env) = None) \<and>
   exit_code (test_bug env) \<in> {None, Some 0, Some 1} \<and>
   (\<forall>e. snd (main_corrected env) = Raised e \<longrightarrow>
      test_bug_corrected env =
        fst (main_corrected env) @
          [ConsoleError [Msg [P Cross, T '' Unhandled error:''], Err e], ProcessExit 1] \<and>
      exit_code (test_bug_corrected env) = Some 1 \<and>
      ProcessExit 0 \<notin> set (test_bug_corrected env)) \<and>
   (snd (main_corrected env) = Returned \<longrightarrow>
      test_bug_corrected env = fst (main_corrected env) @ [ProcessExit 0] \<and>
      exit_code (test_bug_corrected env) = Some 0) \<and>
   (snd (main_corrected env) = Pending \<longrightarrow>
      test_bug_corrected env = fst (main_corrected env) \<and>
      exit_code (test_bug_corrected env) = None) \<and>
   exit_code (test_bug_corrected env) \<in> {None, Some 0, Some 1}"
  unfolding test_bug_def test_bug_corrected_def
  using chain_summary [OF main_action_main, of env]
    chain_summary [OF main_action_main_corrected, of env]
  by blast

section \<open>How the steps end\<close>

lemma snd_log [simp]: "snd (log msg vs) = Returned"
  by (simp add: log_def)

lemma snd_log_value [simp]: "snd (log_value v) = Returned"
  by (simp add: log_value_def)

lemma snd_call:
  "snd (call env site args) = (case raises env site of None \<Rightarrow> Returned | Some e \<Rightarrow> Raised e)"
  by (simp add: call_def)

lemma snd_meanwhile [simp]: "snd (meanwhile env point c) = snd c"
  by (simp add: meanwhile_def)

lemma returned_iff_None [simp]:
  "((case r of None \<Rightarrow> Returned | Some e \<Rightarrow> Raised e) = Returned) = (r = None)"
  by (cases r) simp_all

lemma snd_banner: "snd main_banner = Returned" "snd main_banner_corrected = Returned"
  by (simp_all add: main_banner_def main_banner_corrected_def snd_seq)

lemma snd_main_step1:
  "snd (main_step1 env) =
     (case raises env SchemaStruct of
        Some e \<Rightarrow> Raised e
      | None \<Rightarrow> (case raises env EventsSynced of Some e \<Rightarrow> Raised e | None \<Rightarrow> Returned))"
  by (simp add: main_step1_def snd_seq snd_call split: option.splits)

lemma snd_main_step2:
  "snd (main_step2 env) =
     (case raises env SQLiteTextId of
        Some e \<Rightarrow> Raised e
      | None \<Rightarrow>
     (case raises env SQLiteTextMessage of
        Some e \<Rightarrow> Raised e
      | None \<Rightarrow>
     (case raises env SQLiteTable of
        Some e \<Rightarrow> Raised e
      | None \<Rightarrow>
     (case raises env SQLiteMaterializers of
        Some e \<Rightarrow> Raised e
      | None \<Rightarrow>
     (case raises env SQLiteMakeState of Some e \<Rightarrow> Raised e | None \<Rightarrow> Returned)))))"
  by (simp add: main_step2_def snd_seq snd_call split: option.splits)

lemma snd_main_step3:
  "snd (main_step3 env) =
     (case raises env MakeSchema of Some e \<Rightarrow> Raised e | None \<Rightarrow> Returned)"
  by (simp add: main_step3_def snd_seq snd_call split: option.splits)

text \<open>The catch blocks: they end by returning, or by raising what a property read throws.\<close>

lemma snd_with_result_log:
  "snd (with_result r (\<lambda>x. log msg [x])) = (case r of Inl e \<Rightarrow> Raised e | Inr x \<Rightarrow> Returned)"
  by (simp add: with_result_def raise_def log_def split: sum.splits)

lemma snd_subscribe_failed:
  "snd (subscribe_failed v) =
     (case get_message v of
        Inl e \<Rightarrow> Raised e
      | Inr m \<Rightarrow> (case get_constructor_name v of Inl e \<Rightarrow> Raised e | Inr n \<Rightarrow> Returned))"
  "snd (subscribe_failed_corrected v) =
     (case get_message v of
        Inl e \<Rightarrow> Raised e
      | Inr m \<Rightarrow> (case get_constructor_name v of Inl e \<Rightarrow> Raised e | Inr n \<Rightarrow> Returned))"
  by (simp_all add: subscribe_failed_def subscribe_failed_corrected_def snd_seq
      snd_with_result_log split: sum.splits)

lemma snd_commit_failed:
  "snd (commit_failed v) =
     (case first_line_of_message v of
        Inl e \<Rightarrow> Raised e
      | Inr m \<Rightarrow> (case get_constructor_name v of Inl e \<Rightarrow> Raised e | Inr n \<Rightarrow> Returned))"
  "snd (commit_failed_corrected v) =
     (case first_line_of_message v of
        Inl e \<Rightarrow> Raised e
      | Inr m \<Rightarrow> (case get_constructor_name v of Inl e \<Rightarrow> Raised e | Inr n \<Rightarrow> Returned))"
  by (simp_all add: commit_failed_def commit_failed_corrected_def snd_seq
      snd_with_result_log split: sum.splits)

lemma snd_store_failed:
  "snd (store_failed v) = (case get_message v of Inl e \<Rightarrow> Raised e | Inr m \<Rightarrow> Returned)"
  "snd (store_failed_corrected v) =
     (case get_message v of Inl e \<Rightarrow> Raised e | Inr m \<Rightarrow> Returned)"
  by (simp_all add: store_failed_def store_failed_corrected_def snd_seq snd_with_result_log
      split: sum.splits)

lemma read_Error:
  "get_message (JsError m c) = Inr (JStr m)"
  "get_constructor_name (JsError m c) = Inr (JStr c)"
  "first_line_of_message (JsError m c) = Inr (JStr (first_line m))"
  by (simp_all add: first_line_of_message_def)

lemma is_Error_iff: "is_Error v \<longleftrightarrow> (\<exists>m c. v = JsError m c)"
  by (cases v) simp_all

lemma is_Error_TypeError [simp]: "is_Error (TypeError msg)"
  by (simp add: TypeError_def)

lemma handlers_return_on_Error:
  assumes "is_Error v"
  shows "snd (subscribe_failed v) = Returned"
    and "snd (commit_failed v) = Returned"
    and "snd (store_failed v) = Returned"
    and "snd (subscribe_failed_corrected v) = Returned"
    and "snd (commit_failed_corrected v) = Returned"
    and "snd (store_failed_corrected v) = Returned"
  using assms
  by (auto simp: is_Error_iff snd_subscribe_failed snd_commit_failed snd_store_failed
      read_Error)

lemma handlers_never_pending:
  "snd (subscribe_failed v) \<noteq> Pending"
  "snd (commit_failed v) \<noteq> Pending"
  "snd (store_failed v) \<noteq> Pending"
  "snd (subscribe_failed_corrected v) \<noteq> Pending"
  "snd (commit_failed_corrected v) \<noteq> Pending"
  "snd (store_failed_corrected v) \<noteq> Pending"
  by (simp_all add: snd_subscribe_failed snd_commit_failed snd_store_failed split: sum.splits)

lemma handlers_raise_Errors:
  "snd (subscribe_failed v) = Raised e \<Longrightarrow> is_Error e"
  "snd (commit_failed v) = Raised e \<Longrightarrow> is_Error e"
  "snd (store_failed v) = Raised e \<Longrightarrow> is_Error e"
proof -
  have m: "get_message v = Inl e \<Longrightarrow> is_Error e" for v e
    by (cases v) auto
  have n: "get_name v = Inl e \<Longrightarrow> is_Error e" for v e
    by (cases v) auto
  have c: "get_constructor_name v = Inl e \<Longrightarrow> is_Error e" for v e
    by (cases v) (auto split: option.splits dest: n)
  have s: "split_first v = Inl e \<Longrightarrow> is_Error e" for v e
    by (cases v) auto
  have f: "first_line_of_message v = Inl e \<Longrightarrow> is_Error e" for v e
    by (auto simp: first_line_of_message_def split: sum.splits dest: m s)
  show "snd (subscribe_failed v) = Raised e \<Longrightarrow> is_Error e"
    by (auto simp: snd_subscribe_failed split: sum.splits dest: m c)
  show "snd (commit_failed v) = Raised e \<Longrightarrow> is_Error e"
    by (auto simp: snd_commit_failed split: sum.splits dest: f c)
  show "snd (store_failed v) = Raised e \<Longrightarrow> is_Error e"
    by (auto simp: snd_store_failed split: sum.splits dest: m)
qed

lemma snd_subscribe_attempt:
  "snd (subscribe_attempt env) =
     (case raises env StoreSubscribe of None \<Rightarrow> Returned | Some v \<Rightarrow> snd (subscribe_failed v))"
  by (simp add: subscribe_attempt_def snd_try_catch snd_seq snd_call
      split: option.splits outcome.splits)

lemma snd_commit_attempt:
  "snd (commit_attempt env) =
     (case raises env StoreCommit of None \<Rightarrow> Returned | Some v \<Rightarrow> snd (commit_failed v))"
  by (simp add: commit_attempt_def snd_try_catch snd_seq snd_call
      split: option.splits outcome.splits)

lemma attempts_never_pending:
  "snd (subscribe_attempt env) \<noteq> Pending"
  "snd (commit_attempt env) \<noteq> Pending"
  by (simp_all add: snd_subscribe_attempt snd_commit_attempt handlers_never_pending
      split: option.splits)

lemma snd_store_body:
  "snd (store_body env) =
     (if snd (race_store_creation env) \<noteq> Returned then snd (race_store_creation env)
      else if snd (subscribe_attempt env) \<noteq> Returned then snd (subscribe_attempt env)
      else if snd (commit_attempt env) \<noteq> Returned then snd (commit_attempt env)
      else snd (close_store env))"
  by (simp add: store_body_def snd_seq)

lemma snd_store_body_corrected:
  "snd (race_store_creation env) \<noteq> Returned \<Longrightarrow>
     snd (store_body_corrected env) = snd (race_store_creation env)"
  by (simp add: store_body_corrected_def snd_seq)

lemma snd_main_step6:
  "snd (main_step6 env) =
     (case snd (store_body env) of Raised v \<Rightarrow> snd (store_failed v) | out \<Rightarrow> out)"
  by (simp add: main_step6_def snd_seq snd_try_catch split: outcome.splits)

lemma snd_main_step6_corrected:
  "snd (main_step6_corrected env) =
     (case snd (store_body_corrected env) of
        Raised v \<Rightarrow> snd (store_failed_corrected v)
      | out \<Rightarrow> out)"
  by (simp add: main_step6_corrected_def snd_seq snd_try_catch split: outcome.splits)

lemma snd_final_diagnostics:
  "snd (final_diagnostics env) =
     (case stringify_schema env of Inl e \<Rightarrow> Raised e | Inr v \<Rightarrow> Returned)"
  by (simp add: final_diagnostics_def snd_seq with_result_def raise_def split: sum.splits)

lemma snd_final_diagnostics_corrected: "snd (final_diagnostics_corrected env) = Returned"
  by (simp add: final_diagnostics_corrected_def snd_seq)

text \<open>The race: the timer always settles, so the script never waits for ever at line 130.\<close>

lemma snd_testWithTimeout:
  "snd (testWithTimeout env) =
     (case raises env MakeAdapter of
        Some e \<Rightarrow> Settles 0 (Rejected e)
      | None \<Rightarrow>
     (case raises env CreateStorePromise of
        Some e \<Rightarrow> Settles 0 (Rejected e)
      | None \<Rightarrow> createStore_promise env))"
  by (simp add: testWithTimeout_def async_function_def snd_seq snd_call split: option.splits)

lemma snd_race_store_creation:
  "snd (race_store_creation env) =
     snd (await (earlier (snd (testWithTimeout env))
       (Settles (timer_tick env) (Rejected (JsError ''Store creation timed out'' ''Error'')))))"
proof -
  have "earlier p NeverSettles = p" for p
    by (cases p) simp_all
  then show ?thesis
    by (simp add: race_store_creation_def Promise_race_def timeout_promise_def)
qed

lemma race_never_pending: "snd (race_store_creation env) \<noteq> Pending"
  by (cases "snd (testWithTimeout env)")
    (auto simp: snd_race_store_creation await_def split: settlement.splits)

lemma snd_close_store:
  "snd (close_store env) =
     (case raises env StoreClose of
        Some e \<Rightarrow> Raised e
      | None \<Rightarrow> snd (await (close_promise env)))"
  by (simp add: close_store_def snd_seq snd_call split: option.splits)

lemmas snd_steps =
  snd_banner snd_main_step1 snd_main_step2 snd_main_step3 main_step4_returns
  main_step5_returns snd_main_step6 snd_store_body snd_race_store_creation
  snd_testWithTimeout snd_close_store snd_final_diagnostics snd_subscribe_attempt
  snd_commit_attempt snd_store_failed

section \<open>The concrete runs\<close>

lemma happy_env_fields:
  "raises happy_env site = None"
  "callbacks happy_env site = []"
  "while_awaiting happy_env point = []"
  "createStore_promise happy_env = Settles 1 Fulfilled"
  "close_promise happy_env = Settles 3 Fulfilled"
  "timer_tick happy_env = 2"
  "schema happy_env = [(''eventsDefsMap'', populated_map)]"
  "stringify_schema happy_env = Inr (JStr ''{}'')"
  by (simp_all add: happy_env_def no_raise_def no_callbacks_def nothing_meanwhile_def)

lemma snd_main_happy_env: "snd (main happy_env) = Returned"
  by (simp add: main_def snd_seq snd_steps happy_env_fields await_def)

lemma snd_main_schema_raises_env: "snd (main schema_raises_env) = Raised boom"
  by (simp add: main_def snd_seq snd_main_step1 snd_main_step2 snd_main_step3 snd_banner
      schema_raises_env_def happy_env_fields no_raise_def)

lemma snd_main_close_hangs_env: "snd (main close_hangs_env) = Pending"
  by (simp add: main_def snd_seq snd_steps close_hangs_env_def happy_env_fields await_def)

theorem exit_code_1_on_escaped_error_else_0_witness:
  "snd (main schema_raises_env) = Raised boom \<and>
   exit_code (test_bug schema_raises_env) = Some 1 \<and>
   ProcessExit 0 \<notin> set (test_bug schema_raises_env) \<and>
   snd (main happy_env) = Returned \<and>
   exit_code (test_bug happy_env) = Some 0 \<and>
   snd (main close_hangs_env) = Pending \<and>
   exit_code (test_bug close_hangs_env) = None"
proof -
  note raised = exit_code_1_on_escaped_error_else_0
    [of schema_raises_env, THEN conjunct1, rule_format, OF snd_main_schema_raises_env,
     THEN conjunct2]
  note returned = exit_code_1_on_escaped_error_else_0
    [of happy_env, THEN conjunct2, THEN conjunct1, rule_format, OF snd_main_happy_env,
     THEN conjunct2]
  note pending = exit_code_1_on_escaped_error_else_0
    [of close_hangs_env, THEN conjunct2, THEN conjunct2, THEN conjunct1, rule_format,
     OF snd_main_close_hangs_env, THEN conjunct2]
  show ?thesis
    using snd_main_schema_raises_env snd_main_happy_env snd_main_close_hangs_env
      raised returned pending
    by (intro conjI) blast+
qed

section \<open>The library calls of a run\<close>

lemma lib_calls_append [simp]: "lib_calls (as @ bs) = lib_calls as @ lib_calls bs"
  by (induction as rule: lib_calls.induct) simp_all

lemma calls_log [simp]: "lib_calls (fst (log msg vs)) = []"
  by (simp add: log_def)

lemma calls_log_value [simp]: "lib_calls (fst (log_value v)) = []"
  by (simp add: log_value_def)

lemma calls_materializer: "lib_calls (materializer event outcome) = []"
  by (simp add: materializer_def split: sum.splits prod.splits option.splits)

lemma calls_run_callbacks [simp]: "lib_calls (run_callbacks rs) = []"
proof (induction rs)
  case Nil
  then show ?case by (simp add: run_callbacks_def)
next
  case (Cons r rs)
  then show ?case
    by (cases r) (simp_all add: run_callbacks_def calls_materializer)
qed

lemma calls_call [simp]: "lib_calls (fst (call env site args)) = [(site, args)]"
  by (simp add: call_def)

lemma calls_meanwhile [simp]: "lib_calls (fst (meanwhile env point c)) = lib_calls (fst c)"
  by (simp add: meanwhile_def)

lemma calls_await [simp]: "lib_calls (fst (await p)) = []"
  by (simp add: await_def split: fate.splits settlement.splits)

lemma calls_seq:
  "lib_calls (fst (seq c d)) =
     (if snd c = Returned then lib_calls (fst c) @ lib_calls (fst d) else lib_calls (fst c))"
  by (simp add: fst_seq)

lemma calls_try_catch:
  "lib_calls (fst (try_catch c h)) =
     (case snd c of
        Raised e \<Rightarrow> lib_calls (fst c) @ lib_calls (fst (h e))
      | _ \<Rightarrow> lib_calls (fst c))"
  by (simp add: fst_try_catch split: outcome.splits)

lemma calls_with_result:
  "lib_calls (fst (with_result r f)) = (case r of Inl e \<Rightarrow> [] | Inr x \<Rightarrow> lib_calls (fst (f x)))"
  by (simp add: with_result_def raise_def split: sum.splits)

lemma calls_silent:
  "lib_calls (fst main_banner) = []"
  "lib_calls (fst (main_step4 env)) = []"
  "lib_calls (fst (main_step5 env)) = []"
  "lib_calls (fst (store_failed e)) = []"
  "lib_calls (fst (final_diagnostics env)) = []"
  "lib_calls (fst (subscribe_failed e)) = []"
  "lib_calls (fst (commit_failed e)) = []"
  by (simp_all add: main_banner_def main_step4_def main_step5_def store_failed_def
      final_diagnostics_def inspect_eventsDefsMap_def demonstrate_bug_impact_def
      bug_confirmed_def schema_working_def subscribe_failed_def commit_failed_def
      calls_seq calls_with_result split: sum.splits)

lemma calls_main_step1:
  "lib_calls (fst (main_step1 env)) =
     (if raises env SchemaStruct = None then take 2 all_lib_calls else take 1 all_lib_calls)"
  by (simp add: main_step1_def calls_seq snd_call all_lib_calls_def)

lemma calls_main_step2:
  "lib_calls (fst (main_step2 env)) =
     (if raises env SQLiteTextId \<noteq> None then take 1 (drop 2 all_lib_calls)
      else if raises env SQLiteTextMessage \<noteq> None then take 2 (drop 2 all_lib_calls)
      else if raises env SQLiteTable \<noteq> None then take 3 (drop 2 all_lib_calls)
      else if raises env SQLiteMaterializers \<noteq> None then take 4 (drop 2 all_lib_calls)
      else take 5 (drop 2 all_lib_calls))"
  by (simp add: main_step2_def calls_seq snd_call all_lib_calls_def events_def tables_def)

lemma calls_main_step3:
  "lib_calls (fst (main_step3 env)) = take 1 (drop 7 all_lib_calls)"
  by (simp add: main_step3_def calls_seq snd_call all_lib_calls_def events_def)

lemma calls_race_store_creation:
  "lib_calls (fst (race_store_creation env)) =
     (if raises env MakeAdapter = None then take 2 (drop 8 all_lib_calls)
      else take 1 (drop 8 all_lib_calls))"
  by (simp add: race_store_creation_def testWithTimeout_def async_function_def
      timeout_promise_def calls_seq snd_call all_lib_calls_def)

lemma calls_subscribe_attempt:
  "lib_calls (fst (subscribe_attempt env)) = take 1 (drop 10 all_lib_calls)"
  by (simp add: subscribe_attempt_def calls_try_catch calls_seq snd_seq snd_call
      calls_silent all_lib_calls_def split: option.splits)

lemma calls_commit_attempt:
  "lib_calls (fst (commit_attempt env)) = take 1 (drop 11 all_lib_calls)"
  by (simp add: commit_attempt_def calls_try_catch calls_seq snd_seq snd_call
      calls_silent all_lib_calls_def split: option.splits)

lemma calls_close_store:
  "lib_calls (fst (close_store env)) = take 1 (drop 12 all_lib_calls)"
  by (simp add: close_store_def calls_seq all_lib_calls_def)

lemma calls_store_body:
  "lib_calls (fst (store_body env)) =
     lib_calls (fst (race_store_creation env)) @
       (if snd (race_store_creation env) \<noteq> Returned then []
        else if snd (subscribe_attempt env) \<noteq> Returned then take 1 (drop 10 all_lib_calls)
        else if snd (commit_attempt env) \<noteq> Returned then take 2 (drop 10 all_lib_calls)
        else drop 10 all_lib_calls)"
  by (simp add: store_body_def calls_seq snd_seq
      calls_subscribe_attempt calls_commit_attempt calls_close_store all_lib_calls_def)

lemma calls_main_step6: "lib_calls (fst (main_step6 env)) = lib_calls (fst (store_body env))"
  by (simp add: main_step6_def calls_seq calls_try_catch calls_silent split: outcome.splits)

lemma seq_unit_left [simp]: "seq ([], Returned) d = d"
  by simp

lemma seq_unit_right [simp]: "seq c ([], Returned) = c"
  by (cases c; cases "snd c") auto

lemma seq_assoc: "seq (seq a b) c = seq a (seq b c)"
  by (cases a; cases "snd a"; cases b; cases "snd b") auto

lemma block_append: "block (cs @ ds) = seq (block cs) (block ds)"
  by (induction cs) (simp_all add: seq_assoc)

lemma seq_returns_iff: "snd (seq c d) = Returned \<longleftrightarrow> snd c = Returned \<and> snd d = Returned"
  by (simp add: snd_seq)

lemma steps_return_iff:
  "snd (main_step1 env) = Returned \<longleftrightarrow>
     raises env SchemaStruct = None \<and> raises env EventsSynced = None"
  "snd (main_step2 env) = Returned \<longleftrightarrow>
     raises env SQLiteTextId = None \<and> raises env SQLiteTextMessage = None \<and>
     raises env SQLiteTable = None \<and> raises env SQLiteMaterializers = None \<and>
     raises env SQLiteMakeState = None"
  "snd (main_step3 env) = Returned \<longleftrightarrow> raises env MakeSchema = None"
  by (simp_all add: main_step1_def main_step2_def main_step3_def seq_returns_iff snd_call)

lemma main_split:
  "main env =
     seq (block [main_banner, main_step1 env, main_step2 env, main_step3 env,
            main_step4 env, main_step5 env])
         (seq (main_step6 env) (final_diagnostics env))"
  unfolding main_def
  using block_append [of "[main_banner, main_step1 env, main_step2 env, main_step3 env,
      main_step4 env, main_step5 env]" "[main_step6 env, final_diagnostics env]"]
  by simp

lemma snd_steps_1_to_5:
  "snd (block [main_banner, main_step1 env, main_step2 env, main_step3 env,
       main_step4 env, main_step5 env]) = Returned \<longleftrightarrow>
     (\<forall>site \<in> set setup_sites. raises env site = None)"
  by (simp add: seq_returns_iff steps_return_iff snd_banner main_step4_returns
      main_step5_returns setup_sites_def)

lemma subseq_calls_seq:
  "subseq (lib_calls (fst c)) xs \<Longrightarrow> subseq (lib_calls (fst d)) ys \<Longrightarrow>
     subseq (lib_calls (fst (seq c d))) (xs @ ys)"
  by (simp add: calls_seq list_emb_append_mono subseq_rev_drop_many)

lemma subseq_calls_block:
  "list_all2 (\<lambda>c xs. subseq (lib_calls (fst c)) xs) cs xss \<Longrightarrow>
     subseq (lib_calls (fst (block cs))) (concat xss)"
  by (induction cs xss rule: list_all2_induct) (simp_all add: subseq_calls_seq)

lemma subseq_calls_steps:
  "subseq (lib_calls (fst (main_step1 env))) (take 2 all_lib_calls)"
  "subseq (lib_calls (fst (main_step2 env))) (take 5 (drop 2 all_lib_calls))"
  by (simp_all add: calls_main_step1 calls_main_step2 all_lib_calls_def)

lemma subseq_calls_step3:
  "subseq (lib_calls (fst (main_step3 env))) (take 1 (drop 7 all_lib_calls))"
  unfolding calls_main_step3 by simp

lemma subseq_calls_step6: "subseq (lib_calls (fst (main_step6 env))) (drop 8 all_lib_calls)"
  apply (simp add: calls_main_step6 calls_store_body calls_race_store_creation)
  apply (simp add: all_lib_calls_def)
  done

lemma subseq_calls_main: "subseq (lib_calls (fst (main env))) all_lib_calls"
proof -
  have "subseq (lib_calls (fst (main env)))
      (concat [[], take 2 all_lib_calls, take 5 (drop 2 all_lib_calls),
         take 1 (drop 7 all_lib_calls), [], [], drop 8 all_lib_calls, []])"
    unfolding main_def
    by (rule subseq_calls_block)
      (simp add: subseq_calls_steps subseq_calls_step3 [unfolded One_nat_def]
        subseq_calls_step6 calls_silent del: block_Cons)
  moreover have "concat [[], take 2 all_lib_calls, take 5 (drop 2 all_lib_calls),
      take 1 (drop 7 all_lib_calls), [], [], drop 8 all_lib_calls, []] = all_lib_calls"
    by (simp add: all_lib_calls_def)
  ultimately show ?thesis
    by (simp only:)
qed

lemma subseq_set: "subseq xs ys \<Longrightarrow> set xs \<subseteq> set ys"
  by (induction rule: list_emb.induct) auto

lemma subseq_distinct: "subseq xs ys \<Longrightarrow> distinct ys \<Longrightarrow> distinct xs"
proof (induction rule: list_emb.induct)
  case (list_emb_Cons2 x y xs ys)
  then show ?case
    using subseq_set [of xs ys] by auto
qed auto

lemma distinct_count_le_1: "distinct xs \<Longrightarrow> count_list xs x \<le> 1"
  by (induction xs) auto

lemma distinct_all_call_sites: "distinct all_call_sites"
  by (simp add: all_call_sites_def all_lib_calls_def)

lemma lib_calls_test_bug: "lib_calls (test_bug env) = lib_calls (fst (main env))"
  by (simp add: test_bug_performed split: outcome.splits)

lemma subseq_call_sites_test_bug: "subseq (call_sites (test_bug env)) all_call_sites"
  unfolding call_sites_def all_call_sites_def lib_calls_test_bug
  by (rule subseq_map) (rule subseq_calls_main)


section \<open>Which calls a run makes\<close>

lemma race_returned_creation_sites:
  assumes "snd (race_store_creation env) = Returned"
  shows "raises env MakeAdapter = None \<and> raises env CreateStorePromise = None"
  using assms
  by (auto simp: snd_race_store_creation snd_testWithTimeout await_def
      split: option.splits)

lemma steps_1_to_5_cases:
  "lib_calls (fst (block [main_banner, main_step1 env, main_step2 env, main_step3 env,
       main_step4 env, main_step5 env])) =
     lib_calls (fst (main_step1 env)) @
       (if snd (main_step1 env) = Returned
        then lib_calls (fst (main_step2 env)) @
          (if snd (main_step2 env) = Returned then lib_calls (fst (main_step3 env)) else [])
        else [])"
  by (simp add: calls_seq snd_seq snd_banner calls_silent)

lemma calls_steps_1_to_5_ok:
  assumes "\<forall>site \<in> set setup_sites. raises env site = None"
  shows "lib_calls (fst (block [main_banner, main_step1 env, main_step2 env, main_step3 env,
       main_step4 env, main_step5 env])) = take 8 all_lib_calls"
proof -
  have r: "raises env SchemaStruct = None" "raises env EventsSynced = None"
    "raises env SQLiteTextId = None" "raises env SQLiteTextMessage = None"
    "raises env SQLiteTable = None" "raises env SQLiteMaterializers = None"
    "raises env SQLiteMakeState = None" "raises env MakeSchema = None"
    using assms by (simp_all add: setup_sites_def)
  show ?thesis
    unfolding steps_1_to_5_cases
    apply (simp add: steps_return_iff calls_main_step1 calls_main_step2 calls_main_step3 r)
    apply (simp add: all_lib_calls_def)
    done
qed

lemma subseq_calls_steps_1_to_5:
  "subseq (lib_calls (fst (block [main_banner, main_step1 env, main_step2 env,
       main_step3 env, main_step4 env, main_step5 env]))) (take 8 all_lib_calls)"
proof -
  have "subseq (lib_calls (fst (block [main_banner, main_step1 env, main_step2 env,
       main_step3 env, main_step4 env, main_step5 env])))
      (concat [[], take 2 all_lib_calls, take 5 (drop 2 all_lib_calls),
         take 1 (drop 7 all_lib_calls), [], []])"
    by (rule subseq_calls_block)
      (simp add: subseq_calls_steps subseq_calls_step3 [unfolded One_nat_def]
        calls_silent del: block_Cons)
  moreover have "concat [[], take 2 all_lib_calls, take 5 (drop 2 all_lib_calls),
      take 1 (drop 7 all_lib_calls), [], []] = take 8 all_lib_calls"
    by (simp add: all_lib_calls_def)
  ultimately show ?thesis
    by (simp only:)
qed

lemma calls_main_cases:
  "lib_calls (fst (main env)) =
     (if \<forall>site \<in> set setup_sites. raises env site = None
      then take 8 all_lib_calls @ lib_calls (fst (store_body env))
      else lib_calls (fst (block [main_banner, main_step1 env, main_step2 env,
             main_step3 env, main_step4 env, main_step5 env])))"
proof (cases "\<forall>site \<in> set setup_sites. raises env site = None")
  case True
  then have "snd (block [main_banner, main_step1 env, main_step2 env, main_step3 env,
       main_step4 env, main_step5 env]) = Returned"
    by (simp only: snd_steps_1_to_5)
  then have "lib_calls (fst (main env)) =
      lib_calls (fst (block [main_banner, main_step1 env, main_step2 env, main_step3 env,
        main_step4 env, main_step5 env])) @ lib_calls (fst (store_body env))"
    unfolding main_split
    by (simp add: calls_seq calls_main_step6 calls_silent del: block_Cons)
  then show ?thesis
    by (simp only: calls_steps_1_to_5_ok [OF True] if_P [OF True])
next
  case False
  then have "snd (block [main_banner, main_step1 env, main_step2 env, main_step3 env,
       main_step4 env, main_step5 env]) \<noteq> Returned"
    by (simp only: snd_steps_1_to_5 not_False_eq_True)
  then have "lib_calls (fst (main env)) =
      lib_calls (fst (block [main_banner, main_step1 env, main_step2 env, main_step3 env,
        main_step4 env, main_step5 env]))"
    unfolding main_split
    by (simp add: calls_seq del: block_Cons)
  then show ?thesis
    by (simp only: if_not_P [OF False])
qed

lemma calls_store_body_returned:
  assumes "snd (race_store_creation env) = Returned"
    and "snd (subscribe_attempt env) = Returned"
    and "snd (commit_attempt env) = Returned"
  shows "lib_calls (fst (store_body env)) = drop 8 all_lib_calls"
  using race_returned_creation_sites [OF assms(1)] assms
  apply (simp add: calls_store_body calls_race_store_creation)
  apply (simp add: all_lib_calls_def)
  done

lemma calls_store_body_attempt_raised:
  assumes "snd (race_store_creation env) = Returned"
    and "\<not> (snd (subscribe_attempt env) = Returned \<and> snd (commit_attempt env) = Returned)"
  shows "lib_calls (fst (store_body env)) =
     (if snd (subscribe_attempt env) \<noteq> Returned then take 3 (drop 8 all_lib_calls)
      else take 4 (drop 8 all_lib_calls))"
  using race_returned_creation_sites [OF assms(1)] assms
  apply (simp add: calls_store_body calls_race_store_creation)
  apply (auto simp add: all_lib_calls_def)
  done

lemma calls_store_body_not_returned:
  assumes "snd (race_store_creation env) \<noteq> Returned"
  shows "lib_calls (fst (store_body env)) =
     (if raises env MakeAdapter = None then take 2 (drop 8 all_lib_calls)
      else take 1 (drop 8 all_lib_calls))"
  using assms by (simp add: calls_store_body calls_race_store_creation)

lemma call_sites_test_bug: "call_sites (test_bug env) = map fst (lib_calls (fst (main env)))"
  by (simp add: call_sites_def lib_calls_test_bug)

lemma calls_main_full:
  assumes "\<forall>site \<in> set setup_sites. raises env site = None"
    and "snd (race_store_creation env) = Returned"
    and "snd (subscribe_attempt env) = Returned"
    and "snd (commit_attempt env) = Returned"
  shows "lib_calls (fst (main env)) = all_lib_calls"
  by (simp only: calls_main_cases if_P [OF assms(1)]
      calls_store_body_returned [OF assms(2,3,4)] append_take_drop_id)

lemma length_calls_main_not_full:
  assumes "\<not> ((\<forall>site \<in> set setup_sites. raises env site = None) \<and>
      snd (race_store_creation env) = Returned \<and>
      snd (subscribe_attempt env) = Returned \<and> snd (commit_attempt env) = Returned)"
  shows "length (lib_calls (fst (main env))) \<le> 12"
proof (cases "\<forall>site \<in> set setup_sites. raises env site = None")
  case True
  have "length (lib_calls (fst (store_body env))) \<le> 4"
  proof (cases "snd (race_store_creation env) = Returned")
    case race: True
    then have "\<not> (snd (subscribe_attempt env) = Returned \<and>
        snd (commit_attempt env) = Returned)"
      using assms True by blast
    then show ?thesis
      by (simp add: calls_store_body_attempt_raised [OF race] all_lib_calls_def)
  next
    case False
    then show ?thesis
      by (simp add: calls_store_body_not_returned all_lib_calls_def)
  qed
  moreover have "lib_calls (fst (main env)) =
      take 8 all_lib_calls @ lib_calls (fst (store_body env))"
    by (simp only: calls_main_cases if_P [OF True])
  ultimately show ?thesis
    by (simp add: all_lib_calls_def)
next
  case False
  have "length (lib_calls (fst (block [main_banner, main_step1 env, main_step2 env,
       main_step3 env, main_step4 env, main_step5 env]))) \<le> length (take 8 all_lib_calls)"
    using subseq_calls_steps_1_to_5 by (rule list_emb_length)
  moreover have "lib_calls (fst (main env)) =
      lib_calls (fst (block [main_banner, main_step1 env, main_step2 env,
        main_step3 env, main_step4 env, main_step5 env]))"
    by (simp only: calls_main_cases if_not_P [OF False])
  ultimately show ?thesis
    by (simp add: all_lib_calls_def del: block_Cons)
qed

lemma attempts_skipped:
  assumes "\<forall>site \<in> set setup_sites. raises env site = None"
    and "snd (race_store_creation env) \<noteq> Returned"
  shows "call_sites (test_bug env) =
     (if raises env MakeAdapter = None then take 10 all_call_sites else take 9 all_call_sites)"
  unfolding call_sites_test_bug
  apply (simp only: calls_main_cases if_P [OF assms(1)] calls_store_body_not_returned [OF assms(2)])
  apply (simp add: all_call_sites_def all_lib_calls_def)
  done

lemma fst_main_returned:
  assumes "snd (main env) = Returned"
  shows "fst (main env) =
     fst (block [main_banner, main_step1 env, main_step2 env, main_step3 env,
            main_step4 env, main_step5 env]) @
     fst (main_step6 env) @ fst (final_diagnostics env)"
  using assms unfolding main_split
  by (simp add: fst_seq snd_seq del: block_Cons split: if_splits)

lemma main_step6_when_creation_fails:
  "snd (race_store_creation env) = Raised v \<Longrightarrow> snd (main_step6 env) = snd (store_failed v)"
  by (simp add: snd_main_step6 snd_store_body)

lemma setup_ok_happy_env: "\<forall>site \<in> set setup_sites. raises happy_env site = None"
  by (simp add: happy_env_fields)

lemma race_happy_env: "snd (race_store_creation happy_env) = Returned"
  by (simp add: snd_race_store_creation snd_testWithTimeout happy_env_fields await_def)

lemma timeout_env_fields:
  "raises timeout_env site = None"
  "createStore_promise timeout_env = NeverSettles"
  "stringify_schema timeout_env = Inr (JStr ''{}'')"
  by (simp_all add: timeout_env_def happy_env_fields)

lemma setup_ok_timeout_env: "\<forall>site \<in> set setup_sites. raises timeout_env site = None"
  by (simp add: timeout_env_fields)

lemma race_timeout_env:
  "snd (race_store_creation timeout_env) =
     Raised (JsError ''Store creation timed out'' ''Error'')"
  by (simp add: snd_race_store_creation snd_testWithTimeout timeout_env_fields await_def)

lemma snd_main_timeout_env: "snd (main timeout_env) = Returned"
  by (simp add: main_def snd_seq snd_steps timeout_env_fields await_def)

text \<open>
  C6, as the specification states it, fails: in the run in which store creation never
  settles the timer wins the race, and \<^verbatim>\<open>store.subscribe\<close>,
  \<^verbatim>\<open>store.commit\<close> and \<^verbatim>\<open>store.close\<close> are not called at all, although
  \<^verbatim>\<open>main\<close> returns. The steps of that run are not the full list.
\<close>

theorem attempts_skipped_when_creation_times_out:
  "call_sites (test_bug timeout_env) =
     [SchemaStruct, EventsSynced, SQLiteTextId, SQLiteTextMessage, SQLiteTable,
      SQLiteMaterializers, SQLiteMakeState, MakeSchema, MakeAdapter, CreateStorePromise] \<and>
   call_sites (test_bug timeout_env) \<noteq> all_call_sites \<and>
   StoreSubscribe \<notin> set (call_sites (test_bug timeout_env)) \<and>
   StoreCommit \<notin> set (call_sites (test_bug timeout_env)) \<and>
   StoreClose \<notin> set (call_sites (test_bug timeout_env)) \<and>
   snd (main timeout_env) = Returned"
proof -
  have "snd (race_store_creation timeout_env) \<noteq> Returned"
    by (simp add: race_timeout_env)
  then have "call_sites (test_bug timeout_env) = take 10 all_call_sites"
    using attempts_skipped [OF setup_ok_timeout_env] by (simp add: timeout_env_fields)
  then show ?thesis
    by (simp add: all_call_sites_def all_lib_calls_def snd_main_timeout_env)
qed

lemma callback_calls_append [simp]:
  "callback_calls (as @ bs) = callback_calls as @ callback_calls bs"
  by (induction as rule: callback_calls.induct) simp_all

lemma callback_calls_main_action:
  "list_all main_action as \<Longrightarrow> list_all materializer_insert (callback_calls as)"
  by (induction as rule: callback_calls.induct) simp_all

lemma callback_calls_test_bug: "callback_calls (test_bug env) = callback_calls (fst (main env))"
  by (simp add: test_bug_performed split: outcome.splits)

lemma setup_error_ends_main:
  assumes "n < length setup_sites"
    and "\<forall>i<n. raises env (setup_sites ! i) = None"
    and "raises env (setup_sites ! n) = Some v"
  shows "snd (main env) = Raised v \<and> lib_calls (fst (main env)) = take (Suc n) all_lib_calls"
proof -
  have bad: "\<not> (\<forall>site \<in> set setup_sites. raises env site = None)"
    using assms(1,3) nth_mem by fastforce
  have calls: "lib_calls (fst (main env)) =
      lib_calls (fst (main_step1 env)) @
       (if snd (main_step1 env) = Returned
        then lib_calls (fst (main_step2 env)) @
          (if snd (main_step2 env) = Returned then lib_calls (fst (main_step3 env)) else [])
        else [])"
    by (simp only: calls_main_cases if_not_P [OF bad] steps_1_to_5_cases)
  have "snd (block [main_banner, main_step1 env, main_step2 env, main_step3 env,
       main_step4 env, main_step5 env]) \<noteq> Returned"
    using bad by (simp only: snd_steps_1_to_5 not_False_eq_True)
  then have "snd (main env) = snd (block [main_banner, main_step1 env, main_step2 env,
       main_step3 env, main_step4 env, main_step5 env])"
    unfolding main_split by (simp add: snd_seq del: block_Cons)
  moreover have "snd (block [main_banner, main_step1 env, main_step2 env,
       main_step3 env, main_step4 env, main_step5 env]) =
      (if snd (main_step1 env) \<noteq> Returned then snd (main_step1 env)
       else if snd (main_step2 env) \<noteq> Returned then snd (main_step2 env)
       else snd (main_step3 env))"
    by (simp add: snd_seq snd_banner main_step4_returns main_step5_returns)
  ultimately have out: "snd (main env) =
      (if snd (main_step1 env) \<noteq> Returned then snd (main_step1 env)
       else if snd (main_step2 env) \<noteq> Returned then snd (main_step2 env)
       else snd (main_step3 env))"
    by (simp only:)
  consider "n = 0" | "n = 1" | "n = 2" | "n = 3" | "n = 4" | "n = 5" | "n = 6" | "n = 7"
    using assms(1) by (simp add: setup_sites_def) arith
  then show ?thesis
  proof cases
    case 1
    then have "raises env SchemaStruct = Some v"
      using assms(3) by (simp add: setup_sites_def)
    then show ?thesis
      unfolding out calls 1
      by (simp add: snd_main_step1 steps_return_iff calls_main_step1 all_lib_calls_def)
  next
    case 2
    then have "raises env SchemaStruct = None \<and> raises env EventsSynced = Some v"
      using assms(2,3) by (simp add: setup_sites_def)
    then show ?thesis
      unfolding out calls 2
      by (simp add: snd_main_step1 steps_return_iff calls_main_step1 all_lib_calls_def)
  next
    case 3
    then have "raises env SchemaStruct = None \<and> raises env EventsSynced = None \<and>
        raises env SQLiteTextId = Some v"
      using assms(2,3) by (simp add: setup_sites_def eval_nat_numeral All_less_Suc)
    then show ?thesis
      unfolding out calls 3
      by (simp add: snd_main_step1 snd_main_step2 steps_return_iff calls_main_step1
          calls_main_step2 all_lib_calls_def)
  next
    case 4
    then have "raises env SchemaStruct = None \<and> raises env EventsSynced = None \<and>
        raises env SQLiteTextId = None \<and> raises env SQLiteTextMessage = Some v"
      using assms(2,3) by (simp add: setup_sites_def eval_nat_numeral All_less_Suc)
    then show ?thesis
      unfolding out calls 4
      by (simp add: snd_main_step1 snd_main_step2 steps_return_iff calls_main_step1
          calls_main_step2 all_lib_calls_def)
  next
    case 5
    then have "raises env SchemaStruct = None \<and> raises env EventsSynced = None \<and>
        raises env SQLiteTextId = None \<and> raises env SQLiteTextMessage = None \<and>
        raises env SQLiteTable = Some v"
      using assms(2,3) by (simp add: setup_sites_def eval_nat_numeral All_less_Suc)
    then show ?thesis
      unfolding out calls 5
      by (simp add: snd_main_step1 snd_main_step2 steps_return_iff calls_main_step1
          calls_main_step2 all_lib_calls_def)
  next
    case 6
    then have "raises env SchemaStruct = None \<and> raises env EventsSynced = None \<and>
        raises env SQLiteTextId = None \<and> raises env SQLiteTextMessage = None \<and>
        raises env SQLiteTable = None \<and> raises env SQLiteMaterializers = Some v"
      using assms(2,3) by (simp add: setup_sites_def eval_nat_numeral All_less_Suc)
    then show ?thesis
      unfolding out calls 6
      by (simp add: snd_main_step1 snd_main_step2 steps_return_iff calls_main_step1
          calls_main_step2 all_lib_calls_def)
  next
    case 7
    then have "raises env SchemaStruct = None \<and> raises env EventsSynced = None \<and>
        raises env SQLiteTextId = None \<and> raises env SQLiteTextMessage = None \<and>
        raises env SQLiteTable = None \<and> raises env SQLiteMaterializers = None \<and>
        raises env SQLiteMakeState = Some v"
      using assms(2,3) by (simp add: setup_sites_def eval_nat_numeral All_less_Suc)
    then show ?thesis
      unfolding out calls 7
      by (simp add: snd_main_step1 snd_main_step2 steps_return_iff calls_main_step1
          calls_main_step2 all_lib_calls_def)
  next
    case 8
    then have "raises env SchemaStruct = None \<and> raises env EventsSynced = None \<and>
        raises env SQLiteTextId = None \<and> raises env SQLiteTextMessage = None \<and>
        raises env SQLiteTable = None \<and> raises env SQLiteMaterializers = None \<and>
        raises env SQLiteMakeState = None \<and> raises env MakeSchema = Some v"
      using assms(2,3) by (simp add: setup_sites_def eval_nat_numeral All_less_Suc)
    then show ?thesis
      unfolding out calls 8
      by (simp add: snd_main_step1 snd_main_step2 snd_main_step3 steps_return_iff
          calls_main_step1 calls_main_step2 calls_main_step3 all_lib_calls_def)
  qed
qed

lemma calls_attempt_raised:
  assumes "\<forall>site \<in> set setup_sites. raises env site = None"
    and "snd (race_store_creation env) = Returned"
    and "\<not> (snd (subscribe_attempt env) = Returned \<and> snd (commit_attempt env) = Returned)"
  shows "call_sites (test_bug env) =
     (if snd (subscribe_attempt env) \<noteq> Returned then take 11 all_call_sites
      else take 12 all_call_sites)"
  unfolding call_sites_test_bug
  apply (simp only: calls_main_cases if_P [OF assms(1)]
      calls_store_body_attempt_raised [OF assms(2,3)])
  apply (simp add: all_call_sites_def all_lib_calls_def)
  done

lemma snd_main_iff:
  "snd (main env) = Returned \<longleftrightarrow>
     (\<forall>site \<in> set setup_sites. raises env site = None) \<and>
     snd (main_step6 env) = Returned \<and> (\<exists>j. stringify_schema env = Inr j)"
  unfolding main_split
  by (cases "stringify_schema env")
    (simp_all add: seq_returns_iff snd_steps_1_to_5 snd_final_diagnostics del: block_Cons)

lemma snd_store_body_iff:
  "snd (store_body env) = Returned \<longleftrightarrow>
     snd (race_store_creation env) = Returned \<and> snd (subscribe_attempt env) = Returned \<and>
     snd (commit_attempt env) = Returned \<and> snd (close_store env) = Returned"
  by (simp add: snd_store_body)

lemma snd_main_step6_iff:
  "snd (main_step6 env) = Returned \<longleftrightarrow>
     snd (store_body env) = Returned \<or>
     (\<exists>v m. snd (store_body env) = Raised v \<and> get_message v = Inr m)"
  by (cases "snd (store_body env)")
    (auto simp: snd_main_step6 snd_store_failed split: sum.splits)

lemma commit_throws_string_env_fields:
  "raises commit_throws_string_env StoreCommit = Some (JStr ''No mutation definition found'')"
  "raises commit_throws_string_env StoreSubscribe = None"
  "raises commit_throws_string_env StoreClose = None"
  "\<forall>site \<in> set setup_sites. raises commit_throws_string_env site = None"
  "raises commit_throws_string_env MakeAdapter = None"
  "raises commit_throws_string_env CreateStorePromise = None"
  "createStore_promise commit_throws_string_env = Settles 1 Fulfilled"
  "close_promise commit_throws_string_env = Settles 3 Fulfilled"
  "timer_tick commit_throws_string_env = 2"
  "stringify_schema commit_throws_string_env = Inr (JStr ''{}'')"
  by (simp_all add: commit_throws_string_env_def happy_env_fields no_raise_def
      setup_sites_def)

lemma commit_throws_string_env_steps:
  "snd (race_store_creation commit_throws_string_env) = Returned"
  "snd (subscribe_attempt commit_throws_string_env) = Returned"
  "snd (commit_attempt commit_throws_string_env) =
     Raised (TypeError ''Cannot read properties of undefined (reading 'split')'')"
  by (simp_all add: snd_race_store_creation snd_testWithTimeout snd_subscribe_attempt
      snd_commit_attempt snd_commit_failed first_line_of_message_def
      commit_throws_string_env_fields await_def)

lemma schema_raises_env_fields:
  "7 < length setup_sites"
  "\<forall>i<7. raises schema_raises_env (setup_sites ! i) = None"
  "raises schema_raises_env (setup_sites ! 7) = Some boom"
  by (simp_all add: schema_raises_env_def setup_sites_def no_raise_def eval_nat_numeral
      All_less_Suc)

text \<open>
  C6, amended. The library calls made by the body of \<^verbatim>\<open>main\<close> follow the one
  order of the source text in every run: they are a subsequence of the thirteen call
  sites written there, so none is reordered or repeated. Not every run makes all of
  them. All thirteen are made exactly when every call of steps 1 to 3 returns, store
  creation wins the race and succeeds, and the subscribe and the commit attempt both
  return (the call returns, or its catch block completes). A call of steps 1 to 3 that
  raises ends \<^verbatim>\<open>main\<close> there: \<^verbatim>\<open>main\<close> raises the value and no later call is
  made. When the calls of steps 1 to 3 return and store creation fails or times out, the
  calls stop after \<^verbatim>\<open>makeAdapter\<close> or \<^verbatim>\<open>createStorePromise\<close>; when store
  creation succeeds and the catch block of an attempt itself throws, they stop after
  that attempt. \<^verbatim>\<open>main\<close> returns exactly when the calls of steps 1 to 3 return,
  step 6 returns and \<^verbatim>\<open>JSON.stringify\<close> returns; step 6 returns exactly when the
  body of the outer \<^verbatim>\<open>try\<close> returns (the race, both attempts and the awaited close
  return) or raises a value whose message the outer catch can read. When
  \<^verbatim>\<open>main\<close> returns, the final diagnostics are the last it does before the exit.
  The call \<^verbatim>\<open>tables.testTable.insert\<close> of the materializer is none of the
  thirteen and is never made by \<^verbatim>\<open>main\<close> itself; it is the only library call
  a function literal makes.
\<close>

theorem calls_follow_source_order:
  "subseq (call_sites (test_bug env)) all_call_sites \<and>
   (call_sites (test_bug env) = all_call_sites \<longleftrightarrow>
      (\<forall>site \<in> set setup_sites. raises env site = None) \<and>
      snd (race_store_creation env) = Returned \<and>
      snd (subscribe_attempt env) = Returned \<and>
      snd (commit_attempt env) = Returned) \<and>
   (\<forall>n v. n < length setup_sites \<and>
      (\<forall>i<n. raises env (setup_sites ! i) = None) \<and>
      raises env (setup_sites ! n) = Some v \<longrightarrow>
        snd (main env) = Raised v \<and>
        call_sites (test_bug env) = take (Suc n) all_call_sites) \<and>
   ((\<forall>site \<in> set setup_sites. raises env site = None) \<and>
    snd (race_store_creation env) \<noteq> Returned \<longrightarrow>
      call_sites (test_bug env) =
        (if raises env MakeAdapter = None then take 10 all_call_sites
         else take 9 all_call_sites)) \<and>
   ((\<forall>site \<in> set setup_sites. raises env site = None) \<and>
    snd (race_store_creation env) = Returned \<and>
    \<not> (snd (subscribe_attempt env) = Returned \<and> snd (commit_attempt env) = Returned) \<longrightarrow>
      call_sites (test_bug env) =
        (if snd (subscribe_attempt env) \<noteq> Returned then take 11 all_call_sites
         else take 12 all_call_sites)) \<and>
   (snd (main env) = Returned \<longleftrightarrow>
      (\<forall>site \<in> set setup_sites. raises env site = None) \<and>
      snd (main_step6 env) = Returned \<and> (\<exists>j. stringify_schema env = Inr j)) \<and>
   (snd (main_step6 env) = Returned \<longleftrightarrow>
      snd (store_body env) = Returned \<or>
      (\<exists>v m. snd (store_body env) = Raised v \<and> get_message v = Inr m)) \<and>
   (snd (store_body env) = Returned \<longleftrightarrow>
      snd (race_store_creation env) = Returned \<and> snd (subscribe_attempt env) = Returned \<and>
      snd (commit_attempt env) = Returned \<and> snd (close_store env) = Returned) \<and>
   (snd (main env) = Returned \<longrightarrow>
      test_bug env =
        fst (block [main_banner, main_step1 env, main_step2 env, main_step3 env,
               main_step4 env, main_step5 env]) @
        fst (main_step6 env) @ fst (final_diagnostics env) @ [ProcessExit 0]) \<and>
   TableInsert \<notin> set (call_sites (test_bug env)) \<and>
   list_all materializer_insert (callback_calls (test_bug env))"
proof -
  have full: "call_sites (test_bug env) = all_call_sites \<longleftrightarrow>
      (\<forall>site \<in> set setup_sites. raises env site = None) \<and>
      snd (race_store_creation env) = Returned \<and>
      snd (subscribe_attempt env) = Returned \<and>
      snd (commit_attempt env) = Returned"
  proof
    assume eq: "call_sites (test_bug env) = all_call_sites"
    show "(\<forall>site \<in> set setup_sites. raises env site = None) \<and>
        snd (race_store_creation env) = Returned \<and>
        snd (subscribe_attempt env) = Returned \<and>
        snd (commit_attempt env) = Returned"
    proof (rule ccontr)
      assume "\<not> ((\<forall>site \<in> set setup_sites. raises env site = None) \<and>
          snd (race_store_creation env) = Returned \<and>
          snd (subscribe_attempt env) = Returned \<and>
          snd (commit_attempt env) = Returned)"
      then have "length (lib_calls (fst (main env))) \<le> 12"
        by (rule length_calls_main_not_full)
      then have "length (call_sites (test_bug env)) \<le> 12"
        by (simp add: call_sites_test_bug)
      then show False
        unfolding eq by (simp add: all_call_sites_def all_lib_calls_def)
    qed
  next
    assume "(\<forall>site \<in> set setup_sites. raises env site = None) \<and>
        snd (race_store_creation env) = Returned \<and>
        snd (subscribe_attempt env) = Returned \<and>
        snd (commit_attempt env) = Returned"
    then have "lib_calls (fst (main env)) = all_lib_calls"
      using calls_main_full by blast
    then show "call_sites (test_bug env) = all_call_sites"
      by (simp add: call_sites_test_bug all_call_sites_def)
  qed
  have stops: "snd (main env) = Raised v \<and>
      call_sites (test_bug env) = take (Suc n) all_call_sites"
    if "n < length setup_sites \<and> (\<forall>i<n. raises env (setup_sites ! i) = None) \<and>
      raises env (setup_sites ! n) = Some v" for n v
  proof -
    have "snd (main env) = Raised v \<and>
        lib_calls (fst (main env)) = take (Suc n) all_lib_calls"
      using that setup_error_ends_main [of n env v] by blast
    then show ?thesis
      by (simp add: call_sites_test_bug all_call_sites_def take_map)
  qed
  have last: "snd (main env) = Returned \<longrightarrow>
      test_bug env =
        fst (block [main_banner, main_step1 env, main_step2 env, main_step3 env,
               main_step4 env, main_step5 env]) @
        fst (main_step6 env) @ fst (final_diagnostics env) @ [ProcessExit 0]"
  proof
    assume r: "snd (main env) = Returned"
    show "test_bug env =
        fst (block [main_banner, main_step1 env, main_step2 env, main_step3 env,
               main_step4 env, main_step5 env]) @
        fst (main_step6 env) @ fst (final_diagnostics env) @ [ProcessExit 0]"
      unfolding test_bug_performed fst_main_returned [OF r] by (simp add: r del: block_Cons)
  qed
  have "set (call_sites (test_bug env)) \<subseteq> set all_call_sites"
    using subseq_call_sites_test_bug by (rule subseq_set)
  then have insert: "TableInsert \<notin> set (call_sites (test_bug env))"
    by (auto simp: all_call_sites_def all_lib_calls_def)
  have cb: "list_all materializer_insert (callback_calls (test_bug env))"
    unfolding callback_calls_test_bug
    using main_action_main by (rule callback_calls_main_action)
  show ?thesis
    apply (intro conjI allI)
    apply (rule subseq_call_sites_test_bug)
    apply (rule full)
    apply (rule impI, erule stops)
    apply (rule impI, erule conjE, erule (1) attempts_skipped)
    apply (rule impI, elim conjE, erule (2) calls_attempt_raised)
    apply (rule snd_main_iff)
    apply (rule snd_main_step6_iff)
    apply (rule snd_store_body_iff)
    apply (rule last)
    apply (rule insert)
    apply (rule cb)
    done
qed

theorem calls_follow_source_order_witness:
  "call_sites (test_bug happy_env) = all_call_sites \<and>
   snd (main schema_raises_env) = Raised boom \<and>
   call_sites (test_bug schema_raises_env) = take 8 all_call_sites \<and>
   snd (race_store_creation timeout_env) \<noteq> Returned \<and>
   call_sites (test_bug timeout_env) = take 10 all_call_sites \<and>
   snd (commit_attempt commit_throws_string_env) \<noteq> Returned \<and>
   call_sites (test_bug commit_throws_string_env) = take 12 all_call_sites \<and>
   snd (main happy_env) = Returned \<and>
   test_bug happy_env =
     fst (block [main_banner, main_step1 happy_env, main_step2 happy_env,
            main_step3 happy_env, main_step4 happy_env, main_step5 happy_env]) @
     fst (main_step6 happy_env) @ fst (final_diagnostics happy_env) @ [ProcessExit 0]"
proof -
  have n: "snd (race_store_creation timeout_env) \<noteq> Returned"
    by (simp add: race_timeout_env)
  have a: "snd (subscribe_attempt happy_env) = Returned"
    "snd (commit_attempt happy_env) = Returned"
    by (simp_all add: snd_subscribe_attempt snd_commit_attempt happy_env_fields)
  have c: "snd (commit_attempt commit_throws_string_env) \<noteq> Returned"
    by (simp add: commit_throws_string_env_steps)
  have c': "\<not> (snd (subscribe_attempt commit_throws_string_env) = Returned \<and>
      snd (commit_attempt commit_throws_string_env) = Returned)"
    using c by simp
  note full = calls_follow_source_order
    [of happy_env, THEN conjunct2, THEN conjunct1, THEN iffD2,
     OF conjI [OF setup_ok_happy_env conjI [OF race_happy_env conjI [OF a]]]]
  note stops = calls_follow_source_order
    [of schema_raises_env, THEN conjunct2, THEN conjunct2, THEN conjunct1, rule_format,
     OF conjI [OF schema_raises_env_fields(1) conjI [OF schema_raises_env_fields(2,3)]]]
  note skipped = calls_follow_source_order
    [of timeout_env, THEN conjunct2, THEN conjunct2, THEN conjunct2, THEN conjunct1,
     rule_format, OF conjI [OF setup_ok_timeout_env n]]
  note thrown = calls_follow_source_order
    [of commit_throws_string_env, THEN conjunct2, THEN conjunct2, THEN conjunct2,
     THEN conjunct2, THEN conjunct1, rule_format,
     OF conjI [OF commit_throws_string_env_fields(4)
       conjI [OF commit_throws_string_env_steps(1) c']]]
  note last = calls_follow_source_order
    [of happy_env, THEN conjunct2, THEN conjunct2, THEN conjunct2, THEN conjunct2,
     THEN conjunct2, THEN conjunct2, THEN conjunct2, THEN conjunct2, THEN conjunct1,
     rule_format, OF snd_main_happy_env]
  show ?thesis
    using full stops skipped thrown last n c snd_main_happy_env
    by (simp add: timeout_env_fields commit_throws_string_env_steps del: block_Cons)
qed

section \<open>The shape of step 6\<close>

lemma fst_main_step6:
  "fst (main_step6 env) =
     fst (block
       [log [T ''Step 6: Creating store and testing subscribe/commit...''] [],
        log [] [],
        log [P Stopwatch,
             T (''  Setting '' @ string_of_nat timeoutMs @ ''ms timeout to prevent hanging...'')] []]) @
     fst (store_body env) @
     (case snd (store_body env) of Raised e \<Rightarrow> fst (store_failed e) | _ \<Rightarrow> [])"
  by (simp add: main_step6_def fst_seq fst_try_catch log_def split: outcome.splits)

lemma fst_main_setup_ok:
  assumes "\<forall>site \<in> set setup_sites. raises env site = None"
  shows "fst (main env) =
     fst (block [main_banner, main_step1 env, main_step2 env, main_step3 env,
            main_step4 env, main_step5 env]) @
     fst (main_step6 env) @
     (if snd (main_step6 env) = Returned then fst (final_diagnostics env) else [])"
proof -
  have "snd (block [main_banner, main_step1 env, main_step2 env, main_step3 env,
       main_step4 env, main_step5 env]) = Returned"
    using assms by (simp only: snd_steps_1_to_5)
  then show ?thesis
    unfolding main_split by (simp add: fst_seq del: block_Cons)
qed

lemma calls_step6_header:
  "lib_calls (fst (block [log m1 v1, log m2 v2, log m3 v3])) = []"
  by (simp add: calls_seq)

lemma fst_store_failed:
  "get_message v = Inr m \<Longrightarrow>
     fst (store_failed v) =
       [ConsoleLog [Msg [P Cross, T '' STORE CREATION FAILED:''], Val m],
        ConsoleLog [Msg [T ''   This might be another symptom of the same bug'']]]"
  "get_message v = Inr m \<Longrightarrow>
     fst (store_failed_corrected v) =
       [ConsoleLog [Msg [P Cross, T '' STORE CREATION FAILED:''], Val m],
        ConsoleLog [Msg [T ''   This might indicate a different issue'']]]"
  "get_message v = Inl e \<Longrightarrow> store_failed v = ([], Raised e)"
  "get_message v = Inl e \<Longrightarrow> store_failed_corrected v = ([], Raised e)"
  by (simp_all add: store_failed_def store_failed_corrected_def with_result_def log_def
      raise_def)

section \<open>The race\<close>

lemma earlier_creation_first:
  "t < u \<Longrightarrow> earlier (Settles t r) (Settles u s) = Settles t r"
  by simp

lemma earlier_timer_first:
  "u < t \<Longrightarrow> earlier (Settles t r) (Settles u s) = Settles u s"
  by simp

lemma fst_race_store_creation:
  "fst (race_store_creation env) = fst (testWithTimeout env) @ [SetTimeout timeoutMs]"
  by (simp add: race_store_creation_def timeout_promise_def await_def
      split: fate.splits settlement.splits)

lemma fst_main_step6_corrected:
  "fst (main_step6_corrected env) =
     fst (block
       [log [T ''Step 6: Creating store and testing CORRECT subscribe/commit...''] [],
        log [] [],
        log [P Stopwatch,
             T (''  Setting '' @ string_of_nat timeoutMs @ ''ms timeout to prevent hanging...'')] []]) @
     fst (store_body_corrected env) @
     (case snd (store_body_corrected env) of
        Raised e \<Rightarrow> fst (store_failed_corrected e)
      | _ \<Rightarrow> [])"
  by (simp add: main_step6_corrected_def fst_seq fst_try_catch log_def split: outcome.splits)

lemma store_body_in_step6:
  "set (fst (store_body env)) \<subseteq> set (fst (main_step6 env))"
  "set (fst (store_body_corrected env)) \<subseteq> set (fst (main_step6_corrected env))"
  unfolding fst_main_step6 fst_main_step6_corrected by auto

lemma created_in_seq:
  "snd c = Returned \<Longrightarrow>
     ConsoleLog [Msg msg] \<in> set (fst (seq (meanwhile env point c) (seq (log msg []) d)))"
  by (simp add: fst_seq log_def)

lemma created_line_printed:
  assumes "snd (race_store_creation env) = Returned"
  shows "ConsoleLog [Msg [P Check, T '' Store created successfully'']]
           \<in> set (fst (main_step6 env))"
    and "ConsoleLog [Msg [P Check, T '' Store created successfully'']]
           \<in> set (fst (main_step6_corrected env))"
proof -
  have "ConsoleLog [Msg [P Check, T '' Store created successfully'']]
      \<in> set (fst (store_body env))"
    unfolding store_body_def block_Cons using assms by (rule created_in_seq)
  then show "ConsoleLog [Msg [P Check, T '' Store created successfully'']]
      \<in> set (fst (main_step6 env))"
    using store_body_in_step6(1) by blast
  have "ConsoleLog [Msg [P Check, T '' Store created successfully'']]
      \<in> set (fst (store_body_corrected env))"
    unfolding store_body_corrected_def block_Cons using assms by (rule created_in_seq)
  then show "ConsoleLog [Msg [P Check, T '' Store created successfully'']]
      \<in> set (fst (main_step6_corrected env))"
    using store_body_in_step6(2) by blast
qed

lemma failed_line_printed:
  assumes "snd (race_store_creation env) = Raised v" and "get_message v = Inr m"
  shows "ConsoleLog [Msg [P Cross, T '' STORE CREATION FAILED:''], Val m]
           \<in> set (fst (main_step6 env))"
    and "ConsoleLog [Msg [P Cross, T '' STORE CREATION FAILED:''], Val m]
           \<in> set (fst (main_step6_corrected env))"
proof -
  have b: "snd (store_body env) = Raised v" "snd (store_body_corrected env) = Raised v"
    using assms(1) by (simp_all add: snd_store_body snd_store_body_corrected)
  show "ConsoleLog [Msg [P Cross, T '' STORE CREATION FAILED:''], Val m]
           \<in> set (fst (main_step6 env))"
    unfolding fst_main_step6 b by (simp add: fst_store_failed(1) [OF assms(2)])
  show "ConsoleLog [Msg [P Cross, T '' STORE CREATION FAILED:''], Val m]
           \<in> set (fst (main_step6_corrected env))"
    unfolding fst_main_step6_corrected b by (simp add: fst_store_failed(2) [OF assms(2)])
qed

section \<open>The one timer\<close>

lemma timers_seq:
  "length (filter Q (fst (seq c d))) \<le> length (filter Q (fst c)) + length (filter Q (fst d))"
  by (simp add: fst_seq)

lemma timers_block:
  "list_all2 (\<lambda>c n. length (filter Q (fst c)) \<le> n) cs ns \<Longrightarrow>
     length (filter Q (fst (block cs))) \<le> sum_list ns"
proof (induction cs ns rule: list_all2_induct)
  case Nil
  then show ?case by simp
next
  case (Cons c cs n ns)
  then show ?case
    using timers_seq [of Q c "block cs"] by simp
qed

lemma no_timer:
  "list_all output_or_call as \<Longrightarrow> filter is_SetTimeout as = []"
proof (induction as)
  case Nil
  then show ?case by simp
next
  case (Cons a as)
  then show ?case by (cases a) simp_all
qed

lemma no_timer_run_callbacks [simp]: "list_all output_or_call (run_callbacks rs)"
proof (induction rs)
  case Nil
  then show ?case by (simp add: run_callbacks_def)
next
  case (Cons r rs)
  then show ?case
    by (cases r)
      (simp_all add: run_callbacks_def materializer_def
        split: sum.splits prod.splits option.splits)
qed

lemma no_timer_leaves [simp]:
  "list_all output_or_call (fst (log msg vs))"
  "list_all output_or_call (fst (log_value v))"
  "list_all output_or_call (fst (call env site args))"
  "list_all output_or_call (fst (await p))"
  by (simp_all add: log_def log_value_def call_def await_def
      split: fate.splits settlement.splits)

lemma timers_meanwhile [simp]:
  "filter is_SetTimeout (fst (meanwhile env point c)) = filter is_SetTimeout (fst c)"
  using no_timer [OF no_timer_run_callbacks] by (simp add: meanwhile_def)

lemma no_timer_steps:
  "list_all output_or_call (fst main_banner)"
  "list_all output_or_call (fst main_banner_corrected)"
  "list_all output_or_call (fst (main_step1 env))"
  "list_all output_or_call (fst (main_step2 env))"
  "list_all output_or_call (fst (main_step3 env))"
  "list_all output_or_call (fst (main_step4 env))"
  "list_all output_or_call (fst (main_step5 env))"
  "list_all output_or_call (fst (main_step4_corrected env))"
  "list_all output_or_call (fst (main_step5_corrected env))"
  "list_all output_or_call (fst (final_diagnostics env))"
  "list_all output_or_call (fst (final_diagnostics_corrected env))"
  by (simp_all add: main_banner_def main_banner_corrected_def main_step1_def main_step2_def
      main_step3_def main_step4_def main_step5_def inspect_eventsDefsMap_def
      demonstrate_bug_impact_def bug_confirmed_def schema_working_def
      main_step4_corrected_def main_step5_corrected_def inspect_eventsDefsMap_corrected_def
      verify_populated_def properly_populated_def still_empty_def final_diagnostics_def
      final_diagnostics_corrected_def all_block all_with_result del: block_Cons)

lemma no_timer_attempts:
  "list_all output_or_call (fst (subscribe_attempt env))"
  "list_all output_or_call (fst (commit_attempt env))"
  "list_all output_or_call (fst (close_store env))"
  "list_all output_or_call (fst (store_failed e))"
  "list_all output_or_call (fst (subscribe_attempt_corrected env))"
  "list_all output_or_call (fst (commit_attempt_corrected env))"
  "list_all output_or_call (fst (store_failed_corrected e))"
  by (simp_all add: subscribe_attempt_def commit_attempt_def close_store_def
      store_failed_def subscribe_attempt_corrected_def commit_attempt_corrected_def
      store_failed_corrected_def subscribe_failed_def commit_failed_def
      subscribe_failed_corrected_def commit_failed_corrected_def meanwhile_def
      all_block all_try_catch all_seq all_with_result del: block_Cons)

lemma timers_race: "length (filter is_SetTimeout (fst (race_store_creation env))) \<le> 1"
proof -
  have "list_all output_or_call (fst (testWithTimeout env))"
    by (simp add: testWithTimeout_def async_function_def all_block del: block_Cons)
  then have "filter is_SetTimeout (fst (testWithTimeout env)) = []"
    by (rule no_timer)
  then show ?thesis
    by (simp add: fst_race_store_creation)
qed

lemma timers_try_catch:
  "(\<And>e. list_all output_or_call (fst (h e))) \<Longrightarrow>
     length (filter is_SetTimeout (fst (try_catch c h))) = length (filter is_SetTimeout (fst c))"
proof -
  assume "\<And>e. list_all output_or_call (fst (h e))"
  then have "filter is_SetTimeout (fst (h e)) = []" for e
    by (rule no_timer)
  then show ?thesis
    by (simp add: fst_try_catch split: outcome.splits)
qed

lemma timers_store_body:
  "length (filter is_SetTimeout (fst (store_body env))) \<le> 1"
  "length (filter is_SetTimeout (fst (store_body_corrected env))) \<le> 1"
proof -
  have "length (filter is_SetTimeout (fst (store_body env))) \<le>
      sum_list [1, 0, 0, 0, 0, 0, 0, 0, 0, 0, 0, 0, 0, 0]"
    unfolding store_body_def
    by (rule timers_block) (simp add: timers_race [unfolded One_nat_def] no_timer no_timer_attempts)
  then show "length (filter is_SetTimeout (fst (store_body env))) \<le> 1"
    by simp
  have "length (filter is_SetTimeout (fst (store_body_corrected env))) \<le>
      sum_list [1, 0, 0, 0, 0, 0, 0, 0, 0, 0, 0, 0, 0, 0, 0, 0]"
    unfolding store_body_corrected_def
    by (rule timers_block) (simp add: timers_race [unfolded One_nat_def] no_timer no_timer_attempts)
  then show "length (filter is_SetTimeout (fst (store_body_corrected env))) \<le> 1"
    by simp
qed

lemma timers_step6:
  "length (filter is_SetTimeout (fst (main_step6 env))) \<le> 1"
  "length (filter is_SetTimeout (fst (main_step6_corrected env))) \<le> 1"
proof -
  have "length (filter is_SetTimeout (fst (main_step6 env))) \<le> sum_list [0, 0, 0, 1]"
    unfolding main_step6_def
    by (rule timers_block)
      (simp add: no_timer timers_try_catch no_timer_attempts
        timers_store_body [unfolded One_nat_def])
  then show "length (filter is_SetTimeout (fst (main_step6 env))) \<le> 1"
    by simp
  have "length (filter is_SetTimeout (fst (main_step6_corrected env))) \<le>
      sum_list [0, 0, 0, 1]"
    unfolding main_step6_corrected_def
    by (rule timers_block)
      (simp add: no_timer timers_try_catch no_timer_attempts
        timers_store_body [unfolded One_nat_def])
  then show "length (filter is_SetTimeout (fst (main_step6_corrected env))) \<le> 1"
    by simp
qed

lemma timers_main:
  "length (filter is_SetTimeout (fst (main env))) \<le> 1"
  "length (filter is_SetTimeout (fst (main_corrected env))) \<le> 1"
proof -
  have "length (filter is_SetTimeout (fst (main env))) \<le> sum_list [0, 0, 0, 0, 0, 0, 1, 0]"
    unfolding main_def
    by (rule timers_block) (simp add: no_timer no_timer_steps timers_step6 [unfolded One_nat_def])
  then show "length (filter is_SetTimeout (fst (main env))) \<le> 1"
    by simp
  have "length (filter is_SetTimeout (fst (main_corrected env))) \<le>
      sum_list [0, 0, 0, 0, 0, 0, 1, 0]"
    unfolding main_corrected_def
    by (rule timers_block) (simp add: no_timer no_timer_steps timers_step6 [unfolded One_nat_def])
  then show "length (filter is_SetTimeout (fst (main_corrected env))) \<le> 1"
    by simp
qed

lemma timers_run:
  "length (filter is_SetTimeout (test_bug env)) \<le> 1"
  "length (filter is_SetTimeout (test_bug_corrected env)) \<le> 1"
  using timers_main [of env]
  by (simp_all add: test_bug_performed test_bug_corrected_performed split: outcome.splits)

lemma no_clear_run:
  "ClearTimeout \<notin> set (test_bug env)"
  "ClearTimeout \<notin> set (test_bug_corrected env)"
  using main_action_no_clear [OF main_action_main, of env]
    main_action_no_clear [OF main_action_main_corrected, of env]
  by (simp_all add: test_bug_performed test_bug_corrected_performed split: outcome.splits)

lemma race_creation_first:
  assumes "snd (testWithTimeout env) = Settles t r" and "t < timer_tick env"
  shows "snd (race_store_creation env) =
     (case r of Fulfilled \<Rightarrow> Returned | Rejected e \<Rightarrow> Raised e)"
  using assms by (simp add: snd_race_store_creation await_def split: settlement.splits)

lemma race_timer_first:
  assumes "snd (testWithTimeout env) = NeverSettles \<or>
      (\<exists>t r. snd (testWithTimeout env) = Settles t r \<and> timer_tick env < t)"
  shows "snd (race_store_creation env) =
     Raised (JsError ''Store creation timed out'' ''Error'')"
  using assms by (auto simp: snd_race_store_creation await_def)

lemma rejected_env_fields:
  "raises rejected_env site = None"
  "createStore_promise rejected_env = Settles 1 (Rejected boom)"
  "timer_tick rejected_env = 2"
  by (simp_all add: rejected_env_def happy_env_fields)

lemma testWithTimeout_concrete:
  "snd (testWithTimeout happy_env) = Settles 1 Fulfilled"
  "snd (testWithTimeout rejected_env) = Settles 1 (Rejected boom)"
  "snd (testWithTimeout timeout_env) = NeverSettles"
  by (simp_all add: snd_testWithTimeout happy_env_fields rejected_env_fields
      timeout_env_fields)

text \<open>
  C2. Store creation is raced against one timer of 5000 milliseconds: the script makes
  the calls of \<^verbatim>\<open>testWithTimeout\<close>, arms that timer, whose promise rejects with
  \<^verbatim>\<open>Store creation timed out\<close>, and awaits the race. The promise that settles first
  decides: when store creation is fulfilled first the \<^verbatim>\<open>await\<close> returns and the
  script prints \<^verbatim>\<open>Store created successfully\<close>; when it is rejected first the
  \<^verbatim>\<open>await\<close> raises the value it was rejected with, which the outer catch narrates
  by its message (for an Error instance, the message of the error); when the timer fires
  first (store creation settles later, or never) the \<^verbatim>\<open>await\<close> raises the timeout
  error, narrated the same way. The \<^verbatim>\<open>await\<close> never hangs. No run arms a second
  timer or clears the timer, in either script.
\<close>

theorem store_creation_raced_against_timer:
  "timeoutMs = 5000 \<and>
   fst (race_store_creation env) = fst (testWithTimeout env) @ [SetTimeout 5000] \<and>
   snd (timeout_promise env) =
     Settles (timer_tick env) (Rejected (JsError ''Store creation timed out'' ''Error'')) \<and>
   (\<forall>t. snd (testWithTimeout env) = Settles t Fulfilled \<and> t < timer_tick env \<longrightarrow>
      snd (race_store_creation env) = Returned \<and>
      ConsoleLog [Msg [P Check, T '' Store created successfully'']]
        \<in> set (fst (main_step6 env)) \<and>
      ConsoleLog [Msg [P Check, T '' Store created successfully'']]
        \<in> set (fst (main_step6_corrected env))) \<and>
   (\<forall>t e. snd (testWithTimeout env) = Settles t (Rejected e) \<and> t < timer_tick env \<longrightarrow>
      snd (race_store_creation env) = Raised e \<and>
      (\<forall>m. get_message e = Inr m \<longrightarrow>
         ConsoleLog [Msg [P Cross, T '' STORE CREATION FAILED:''], Val m]
           \<in> set (fst (main_step6 env)) \<and>
         ConsoleLog [Msg [P Cross, T '' STORE CREATION FAILED:''], Val m]
           \<in> set (fst (main_step6_corrected env)))) \<and>
   (\<forall>t m c. snd (testWithTimeout env) = Settles t (Rejected (JsError m c)) \<and>
      t < timer_tick env \<longrightarrow>
      snd (race_store_creation env) = Raised (JsError m c) \<and>
      ConsoleLog [Msg [P Cross, T '' STORE CREATION FAILED:''], Val (JStr m)]
        \<in> set (fst (main_step6 env)) \<and>
      ConsoleLog [Msg [P Cross, T '' STORE CREATION FAILED:''], Val (JStr m)]
        \<in> set (fst (main_step6_corrected env))) \<and>
   (snd (testWithTimeout env) = NeverSettles \<or>
    (\<exists>t r. snd (testWithTimeout env) = Settles t r \<and> timer_tick env < t) \<longrightarrow>
      snd (race_store_creation env) =
        Raised (JsError ''Store creation timed out'' ''Error'') \<and>
      ConsoleLog [Msg [P Cross, T '' STORE CREATION FAILED:''],
                  Val (JStr ''Store creation timed out'')]
        \<in> set (fst (main_step6 env)) \<and>
      ConsoleLog [Msg [P Cross, T '' STORE CREATION FAILED:''],
                  Val (JStr ''Store creation timed out'')]
        \<in> set (fst (main_step6_corrected env))) \<and>
   snd (race_store_creation env) \<noteq> Pending \<and>
   ClearTimeout \<notin> set (test_bug env) \<and>
   ClearTimeout \<notin> set (test_bug_corrected env) \<and>
   length (filter is_SetTimeout (test_bug env)) \<le> 1 \<and>
   length (filter is_SetTimeout (test_bug_corrected env)) \<le> 1"
proof -
  have fulfilled: "snd (race_store_creation env) = Returned \<and>
      ConsoleLog [Msg [P Check, T '' Store created successfully'']]
        \<in> set (fst (main_step6 env)) \<and>
      ConsoleLog [Msg [P Check, T '' Store created successfully'']]
        \<in> set (fst (main_step6_corrected env))"
    if "snd (testWithTimeout env) = Settles t Fulfilled \<and> t < timer_tick env" for t
  proof -
    have "snd (race_store_creation env) = Returned"
      using that race_creation_first [of env t Fulfilled] by simp
    then show ?thesis
      using created_line_printed by blast
  qed
  have rejected: "snd (race_store_creation env) = Raised e \<and>
      (\<forall>m. get_message e = Inr m \<longrightarrow>
         ConsoleLog [Msg [P Cross, T '' STORE CREATION FAILED:''], Val m]
           \<in> set (fst (main_step6 env)) \<and>
         ConsoleLog [Msg [P Cross, T '' STORE CREATION FAILED:''], Val m]
           \<in> set (fst (main_step6_corrected env)))"
    if "snd (testWithTimeout env) = Settles t (Rejected e) \<and> t < timer_tick env" for t e
  proof -
    have "snd (race_store_creation env) = Raised e"
      using that race_creation_first [of env t "Rejected e"] by simp
    then show ?thesis
      using failed_line_printed by blast
  qed
  have rejected_Error: "snd (race_store_creation env) = Raised (JsError m c) \<and>
      ConsoleLog [Msg [P Cross, T '' STORE CREATION FAILED:''], Val (JStr m)]
        \<in> set (fst (main_step6 env)) \<and>
      ConsoleLog [Msg [P Cross, T '' STORE CREATION FAILED:''], Val (JStr m)]
        \<in> set (fst (main_step6_corrected env))"
    if "snd (testWithTimeout env) = Settles t (Rejected (JsError m c)) \<and> t < timer_tick env"
    for t m c
    using rejected [OF that] by (simp add: read_Error)
  have timer: "snd (race_store_creation env) =
        Raised (JsError ''Store creation timed out'' ''Error'') \<and>
      ConsoleLog [Msg [P Cross, T '' STORE CREATION FAILED:''],
                  Val (JStr ''Store creation timed out'')]
        \<in> set (fst (main_step6 env)) \<and>
      ConsoleLog [Msg [P Cross, T '' STORE CREATION FAILED:''],
                  Val (JStr ''Store creation timed out'')]
        \<in> set (fst (main_step6_corrected env))"
    if "snd (testWithTimeout env) = NeverSettles \<or>
      (\<exists>t r. snd (testWithTimeout env) = Settles t r \<and> timer_tick env < t)"
  proof -
    have r: "snd (race_store_creation env) =
        Raised (JsError ''Store creation timed out'' ''Error'')"
      using that by (rule race_timer_first)
    show ?thesis
      using r failed_line_printed [OF r read_Error(1)] by simp
  qed
  have basics: "timeoutMs = 5000"
    "fst (race_store_creation env) = fst (testWithTimeout env) @ [SetTimeout 5000]"
    "snd (timeout_promise env) =
       Settles (timer_tick env) (Rejected (JsError ''Store creation timed out'' ''Error''))"
    by (simp_all add: timeoutMs_def fst_race_store_creation timeout_promise_def)
  show ?thesis
    using basics fulfilled rejected rejected_Error timer race_never_pending [of env]
      no_clear_run [of env] timers_run [of env]
    by blast
qed

theorem store_creation_raced_against_timer_witness:
  "snd (testWithTimeout happy_env) = Settles 1 Fulfilled \<and>
   1 < timer_tick happy_env \<and>
   snd (race_store_creation happy_env) = Returned \<and>
   snd (testWithTimeout rejected_env) = Settles 1 (Rejected boom) \<and>
   1 < timer_tick rejected_env \<and>
   snd (race_store_creation rejected_env) = Raised boom \<and>
   snd (testWithTimeout timeout_env) = NeverSettles \<and>
   snd (race_store_creation timeout_env) =
     Raised (JsError ''Store creation timed out'' ''Error'')"
proof -
  have h: "snd (testWithTimeout happy_env) = Settles 1 Fulfilled \<and> 1 < timer_tick happy_env"
    by (simp add: testWithTimeout_concrete happy_env_fields)
  have r: "snd (testWithTimeout rejected_env) = Settles 1 (Rejected boom) \<and>
      1 < timer_tick rejected_env"
    by (simp add: testWithTimeout_concrete rejected_env_fields)
  have t: "snd (testWithTimeout timeout_env) = NeverSettles \<or>
      (\<exists>t r. snd (testWithTimeout timeout_env) = Settles t r \<and> timer_tick timeout_env < t)"
    by (simp add: testWithTimeout_concrete)
  note fulfilled = store_creation_raced_against_timer
    [of happy_env, THEN conjunct2, THEN conjunct2, THEN conjunct2, THEN conjunct1,
     rule_format, OF h, THEN conjunct1]
  note rejected = store_creation_raced_against_timer
    [of rejected_env, THEN conjunct2, THEN conjunct2, THEN conjunct2, THEN conjunct2,
     THEN conjunct1, rule_format, OF r, THEN conjunct1]
  note timer = store_creation_raced_against_timer
    [of timeout_env, THEN conjunct2, THEN conjunct2, THEN conjunct2, THEN conjunct2,
     THEN conjunct2, THEN conjunct2, THEN conjunct1, rule_format, OF t, THEN conjunct1]
  show ?thesis
    using h r fulfilled rejected timer testWithTimeout_concrete(3)
    by (simp only: simp_thms)
qed

section \<open>The data handed to the library\<close>

lemma call_args_subseq:
  "subseq cs ds \<Longrightarrow> set (concat (map snd cs)) \<subseteq> set (concat (map snd ds))"
  using subseq_set [of cs ds] by auto

lemma all_call_args:
  "set (concat (map snd all_lib_calls)) = set spec_local_data \<union> set further_local_data"
proof (rule equalityI)
  show "set (concat (map snd all_lib_calls)) \<subseteq> set spec_local_data \<union> set further_local_data"
    by (simp add: all_lib_calls_def spec_local_data_def further_local_data_def)
  show "set spec_local_data \<union> set further_local_data \<subseteq> set (concat (map snd all_lib_calls))"
    by (simp add: all_lib_calls_def spec_local_data_def further_local_data_def)
qed

lemma call_args_test_bug:
  "call_args (test_bug env) = concat (map snd (lib_calls (fst (main env))))"
  by (simp add: call_args_def lib_calls_test_bug)

lemma is_insert_payload_iff: "is_insert_payload a \<longleftrightarrow> (\<exists>i m. a = insert_payload i m)"
  by (induction a rule: is_insert_payload.induct) (auto simp: insert_payload_def)

lemma callback_args_payload:
  "list_all materializer_insert cs \<Longrightarrow>
     list_all is_insert_payload (concat (map (\<lambda>(f, site, args). args) cs))"
proof (induction cs)
  case Nil
  then show ?case by simp
next
  case (Cons c cs)
  obtain f site args where c: "c = (f, site, args)"
    by (cases c) auto
  have "materializer_insert (f, site, args)"
    using Cons.prems c by simp
  then have "list_all is_insert_payload args"
  proof (cases args)
    case Nil
    then show ?thesis
      using \<open>materializer_insert (f, site, args)\<close> by simp
  next
    case (Cons a as)
    then show ?thesis
      using \<open>materializer_insert (f, site, args)\<close> by (cases as) simp_all
  qed
  then show ?case
    using Cons c by simp
qed

lemma callback_call_member:
  "CallbackCall f site args \<in> set as \<Longrightarrow> (f, site, args) \<in> set (callback_calls as)"
  by (induction as rule: callback_calls.induct) auto

text \<open>What the function literals do takes place in every run that calls the site.\<close>

lemma call_sites_append [simp]: "call_sites (as @ bs) = call_sites as @ call_sites bs"
  by (simp add: call_sites_def)

lemma callbacks_run_append:
  "callbacks_run env as \<Longrightarrow> callbacks_run env bs \<Longrightarrow> callbacks_run env (as @ bs)"
  by (auto simp: callbacks_run_def)

lemma callbacks_run_silent: "lib_calls as = [] \<Longrightarrow> callbacks_run env as"
  by (simp add: callbacks_run_def call_sites_def)

lemma callbacks_run_seq:
  "callbacks_run env (fst c) \<Longrightarrow> callbacks_run env (fst d) \<Longrightarrow>
     callbacks_run env (fst (seq c d))"
  by (simp add: fst_seq callbacks_run_append)

lemma callbacks_run_block:
  "list_all (\<lambda>c. callbacks_run env (fst c)) cs \<Longrightarrow> callbacks_run env (fst (block cs))"
  by (induction cs) (simp_all add: callbacks_run_seq callbacks_run_silent)

lemma callbacks_run_try_catch:
  "callbacks_run env (fst c) \<Longrightarrow> (\<And>e. lib_calls (fst (h e)) = []) \<Longrightarrow>
     callbacks_run env (fst (try_catch c h))"
  by (simp add: fst_try_catch callbacks_run_append callbacks_run_silent split: outcome.splits)

lemma callbacks_run_meanwhile:
  "callbacks_run env (fst c) \<Longrightarrow> callbacks_run env (fst (meanwhile env' point c))"
  by (simp add: meanwhile_def callbacks_run_append callbacks_run_silent)

lemma callbacks_run_leaves [simp]:
  "callbacks_run env (fst (log msg vs))"
  "callbacks_run env (fst (await p))"
  by (simp_all add: callbacks_run_silent)

lemma callbacks_run_call [simp]: "callbacks_run env (fst (call env site args))"
  by (auto simp: callbacks_run_def call_sites_def call_def)

lemma callbacks_run_steps:
  "callbacks_run env (fst (main_step1 env))"
  "callbacks_run env (fst (main_step2 env))"
  "callbacks_run env (fst (main_step3 env))"
  by (simp_all add: main_step1_def main_step2_def main_step3_def callbacks_run_block
      del: block_Cons)

lemma callbacks_run_race: "callbacks_run env (fst (race_store_creation env))"
proof -
  have "callbacks_run env (fst (testWithTimeout env))"
    by (simp add: testWithTimeout_def async_function_def callbacks_run_block del: block_Cons)
  then show ?thesis
    unfolding fst_race_store_creation
    by (rule callbacks_run_append) (simp add: callbacks_run_silent)
qed

lemma callbacks_run_step6: "callbacks_run env (fst (main_step6 env))"
proof -
  have "callbacks_run env (fst (store_body env))"
    unfolding store_body_def
    by (rule callbacks_run_block)
      (simp add: callbacks_run_meanwhile callbacks_run_race subscribe_attempt_def
        commit_attempt_def close_store_def callbacks_run_try_catch callbacks_run_block
        callbacks_run_seq calls_silent del: block_Cons)
  then show ?thesis
    unfolding main_step6_def
    by (intro callbacks_run_block)
      (simp add: callbacks_run_try_catch calls_silent del: block_Cons)
qed

lemma callbacks_run_main: "callbacks_run env (fst (main env))"
  unfolding main_def
  by (rule callbacks_run_block)
    (simp add: callbacks_run_steps callbacks_run_step6 callbacks_run_silent calls_silent
      del: block_Cons)

lemma materializer_inserts:
  "destructure_id_message event = Inr (i, m) \<Longrightarrow>
     CallbackCall Materializer TableInsert [insert_payload i m] \<in> set (materializer event outcome)"
  by (simp add: materializer_def insert_payload_def)

lemma run_callbacks_member:
  "r \<in> set rs \<Longrightarrow> set (run_callback r) \<subseteq> set (run_callbacks rs)"
  by (auto simp: run_callbacks_def)

lemma payload_handed_over:
  assumes "site \<in> set (call_sites (test_bug env))"
    and "Run_materializer event outcome \<in> set (callbacks env site)"
    and "destructure_id_message event = Inr (i, m)"
  shows "(Materializer, TableInsert, [insert_payload i m]) \<in> set (callback_calls (test_bug env))"
    and "insert_payload i m \<in> set (handed_over (test_bug env))"
proof -
  have "site \<in> set (call_sites (fst (main env)))"
    using assms(1) unfolding call_sites_test_bug by (simp add: call_sites_def)
  then have "set (run_callbacks (callbacks env site)) \<subseteq> set (fst (main env))"
    using callbacks_run_main [of env] by (simp add: callbacks_run_def)
  moreover have "CallbackCall Materializer TableInsert [insert_payload i m]
      \<in> set (run_callbacks (callbacks env site))"
    using run_callbacks_member [OF assms(2)] materializer_inserts [OF assms(3), of outcome]
    by auto
  ultimately have "CallbackCall Materializer TableInsert [insert_payload i m]
      \<in> set (fst (main env))"
    by blast
  then have "(Materializer, TableInsert, [insert_payload i m])
      \<in> set (callback_calls (fst (main env)))"
    by (rule callback_call_member)
  then show c: "(Materializer, TableInsert, [insert_payload i m])
      \<in> set (callback_calls (test_bug env))"
    by (simp only: callback_calls_test_bug)
  then show "insert_payload i m \<in> set (handed_over (test_bug env))"
    unfolding handed_over_def by force
qed


lemma attempts_happy_env:
  "snd (subscribe_attempt happy_env) = Returned"
  "snd (commit_attempt happy_env) = Returned"
  by (simp_all add: snd_subscribe_attempt snd_commit_attempt happy_env_fields)

lemma materializing_env_fields:
  "raises materializing_env site = None"
  "callbacks materializing_env StoreCommit = [Run_materializer test_event None]"
  "createStore_promise materializing_env = Settles 1 Fulfilled"
  "timer_tick materializing_env = 2"
  by (simp_all add: materializing_env_def happy_env_fields no_callbacks_def)

lemma materializing_env_steps:
  "\<forall>site \<in> set setup_sites. raises materializing_env site = None"
  "snd (race_store_creation materializing_env) = Returned"
  "snd (subscribe_attempt materializing_env) = Returned"
  "snd (commit_attempt materializing_env) = Returned"
  by (simp_all add: snd_race_store_creation snd_testWithTimeout snd_subscribe_attempt
      snd_commit_attempt materializing_env_fields await_def)

text \<open>
  C7, as the specification states it, fails: the script also builds the materializer
  map, an object whose key \<^verbatim>\<open>v1.TestEvent\<close> holds a function literal, and the
  callback it passes to \<^verbatim>\<open>store.subscribe\<close>; both are handed to the library in the
  run in which every call returns, and neither is in the list of the claim.
\<close>

theorem materializer_map_is_constructed_too:
  "AObj [(''v1.TestEvent'', AFun Materializer)] \<in> set (call_args (test_bug happy_env)) \<and>
   AObj [(''v1.TestEvent'', AFun Materializer)] \<notin> set spec_local_data \<and>
   AFun SubscribeCallback \<in> set (call_args (test_bug happy_env)) \<and>
   AFun SubscribeCallback \<notin> set spec_local_data"
proof -
  have "lib_calls (fst (main happy_env)) = all_lib_calls"
    using setup_ok_happy_env race_happy_env attempts_happy_env by (rule calls_main_full)
  then show ?thesis
    by (simp add: call_args_test_bug all_lib_calls_def spec_local_data_def)
qed

text \<open>
  C7, amended. What the script constructs and hands to the library is, in every run, drawn
  from the data the specification lists (the struct of two string fields, the event
  definition named \<^verbatim>\<open>v1.TestEvent\<close>, the primary-key option, the table named
  \<^verbatim>\<open>test\<close>, the adapter and store configurations, the commit payload) together with:
  the object holding the event definition, the materializer map with its function, the
  aggregates \<^verbatim>\<open>{tables, materializers}\<close> and \<^verbatim>\<open>{events, state}\<close>, the event name
  passed to subscribe and commit, the subscribe callback, and the object
  \<^verbatim>\<open>{ id, message }\<close> that the materializer builds from the argument it is given and
  passes to \<^verbatim>\<open>tables.testTable.insert\<close> whenever the library runs it during a
  call that \<^verbatim>\<open>main\<close> makes (unless the argument is undefined or null). Each
  call site of \<^verbatim>\<open>main\<close> receives the arguments written at it, and the run in which
  steps 1 to 3 return, store creation succeeds and both attempts return hands over all
  of them. That insert is the only library call a function literal makes. Apart from
  console output, these calls and what the function literals do, \<^verbatim>\<open>main\<close> only arms
  a timer of \<open>timeoutMs\<close>, and no run arms more than one.
\<close>

theorem local_data_handed_to_library:
  "set (call_args (test_bug env)) \<subseteq> set spec_local_data \<union> set further_local_data \<and>
   subseq (lib_calls (test_bug env)) all_lib_calls \<and>
   ((\<forall>site \<in> set setup_sites. raises env site = None) \<and>
    snd (race_store_creation env) = Returned \<and>
    snd (subscribe_attempt env) = Returned \<and>
    snd (commit_attempt env) = Returned \<longrightarrow>
      set (call_args (test_bug env)) = set spec_local_data \<union> set further_local_data) \<and>
   list_all materializer_insert (callback_calls (test_bug env)) \<and>
   (\<forall>site event outcome i m.
      site \<in> set (call_sites (test_bug env)) \<and>
      Run_materializer event outcome \<in> set (callbacks env site) \<and>
      destructure_id_message event = Inr (i, m) \<longrightarrow>
        (Materializer, TableInsert, [insert_payload i m])
          \<in> set (callback_calls (test_bug env))) \<and>
   list_all
     (\<lambda>a. a \<in> set spec_local_data \<or> a \<in> set further_local_data \<or> is_insert_payload a)
     (handed_over (test_bug env)) \<and>
   (\<forall>a. is_insert_payload a \<longleftrightarrow> (\<exists>i m. a = insert_payload i m)) \<and>
   list_all main_action (fst (main env)) \<and>
   length (filter is_SetTimeout (test_bug env)) \<le> 1"
proof -
  have "set (call_args (test_bug env)) \<subseteq> set (concat (map snd all_lib_calls))"
    unfolding call_args_test_bug using subseq_calls_main by (rule call_args_subseq)
  then have sub: "set (call_args (test_bug env)) \<subseteq>
      set spec_local_data \<union> set further_local_data"
    by (simp only: all_call_args)
  have full: "(\<forall>site \<in> set setup_sites. raises env site = None) \<and>
      snd (race_store_creation env) = Returned \<and>
      snd (subscribe_attempt env) = Returned \<and>
      snd (commit_attempt env) = Returned \<longrightarrow>
      set (call_args (test_bug env)) = set spec_local_data \<union> set further_local_data"
  proof
    assume "(\<forall>site \<in> set setup_sites. raises env site = None) \<and>
        snd (race_store_creation env) = Returned \<and>
        snd (subscribe_attempt env) = Returned \<and>
        snd (commit_attempt env) = Returned"
    then have "lib_calls (fst (main env)) = all_lib_calls"
      using calls_main_full by blast
    then show "set (call_args (test_bug env)) =
        set spec_local_data \<union> set further_local_data"
      by (simp only: call_args_test_bug all_call_args)
  qed
  have cb: "list_all materializer_insert (callback_calls (test_bug env))"
    unfolding callback_calls_test_bug
    using main_action_main by (rule callback_calls_main_action)
  have "list_all is_insert_payload
      (concat (map (\<lambda>(f, site, args). args) (callback_calls (test_bug env))))"
    using cb by (rule callback_args_payload)
  then have all: "list_all
      (\<lambda>a. a \<in> set spec_local_data \<or> a \<in> set further_local_data \<or> is_insert_payload a)
      (handed_over (test_bug env))"
    using sub unfolding handed_over_def by (auto simp: list_all_iff)
  have run: "(Materializer, TableInsert, [insert_payload i m])
      \<in> set (callback_calls (test_bug env))"
    if "site \<in> set (call_sites (test_bug env)) \<and>
      Run_materializer event outcome \<in> set (callbacks env site) \<and>
      destructure_id_message event = Inr (i, m)" for site event outcome i m
    using that payload_handed_over(1) by blast
  have order: "subseq (lib_calls (test_bug env)) all_lib_calls"
    unfolding lib_calls_test_bug by (rule subseq_calls_main)
  show ?thesis
    apply (intro conjI allI)
    apply (rule sub)
    apply (rule order)
    apply (rule full)
    apply (rule cb)
    apply (rule impI, erule run)
    apply (rule all)
    apply (rule is_insert_payload_iff)
    apply (rule main_action_main)
    apply (rule timers_run(1))
    done
qed

theorem local_data_handed_to_library_witness:
  "set (call_args (test_bug materializing_env)) =
     set spec_local_data \<union> set further_local_data \<and>
   StoreCommit \<in> set (call_sites (test_bug materializing_env)) \<and>
   Run_materializer test_event None \<in> set (callbacks materializing_env StoreCommit) \<and>
   (Materializer, TableInsert, [insert_payload (JStr ''test-123'') (JStr ''Hello World'')])
     \<in> set (callback_calls (test_bug materializing_env))"
proof -
  have "lib_calls (fst (main materializing_env)) = all_lib_calls"
    using materializing_env_steps by (rule calls_main_full)
  then have c: "StoreCommit \<in> set (call_sites (test_bug materializing_env))"
    by (simp add: call_sites_test_bug all_lib_calls_def)
  have r: "Run_materializer test_event None \<in> set (callbacks materializing_env StoreCommit)"
    by (simp add: materializing_env_fields)
  have d: "destructure_id_message test_event = Inr (JStr ''test-123'', JStr ''Hello World'')"
    by (simp add: test_event_def own_property_def)
  note full = local_data_handed_to_library
    [of materializing_env, THEN conjunct2, THEN conjunct2, THEN conjunct1, rule_format,
     OF conjI [OF materializing_env_steps(1) conjI [OF materializing_env_steps(2)
       conjI [OF materializing_env_steps(3,4)]]]]
  note run = local_data_handed_to_library
    [of materializing_env, THEN conjunct2, THEN conjunct2, THEN conjunct2, THEN conjunct2,
     THEN conjunct1, rule_format, OF conjI [OF c conjI [OF r d]]]
  show ?thesis
    using full run c r by (simp only: simp_thms)
qed

section \<open>Scripts that differ in one part only\<close>

lemma differs_base: "(\<And>x. snd (s x) = Returned) \<Longrightarrow> differs_only_at s s"
proof -
  assume r: "\<And>x. snd (s x) = Returned"
  have "\<forall>x. s x = ([] @ fst (s x) @ [], Returned)"
    using r by (simp add: prod_eq_iff)
  then show ?thesis
    unfolding differs_only_at_def by blast
qed

lemma differs_seq_left:
  assumes "differs_only_at s f"
  shows "differs_only_at s (\<lambda>x. seq c (f x))"
proof (cases "snd c = Returned")
  case True
  from assms show ?thesis
    unfolding differs_only_at_def
  proof (elim disjE exE)
    fix before after out
    assume "\<forall>x. f x = (before @ fst (s x) @ after, out)"
    then have "\<forall>x. seq c (f x) = ((fst c @ before) @ fst (s x) @ after, out)"
      using True by (simp add: seq_def)
    then show "(\<exists>before after out. \<forall>x. seq c (f x) = (before @ fst (s x) @ after, out)) \<or>
        (\<exists>d. \<forall>x. seq c (f x) = d)"
      by blast
  next
    fix d
    assume "\<forall>x. f x = d"
    then have "\<forall>x. seq c (f x) = seq c d"
      by simp
    then show "(\<exists>before after out. \<forall>x. seq c (f x) = (before @ fst (s x) @ after, out)) \<or>
        (\<exists>d. \<forall>x. seq c (f x) = d)"
      by blast
  qed
next
  case False
  then have "\<forall>x. seq c (f x) = c"
    by (simp add: seq_def split: outcome.splits)
  then show ?thesis
    unfolding differs_only_at_def by blast
qed

lemma differs_seq_right:
  assumes "differs_only_at s f"
  shows "differs_only_at s (\<lambda>x. seq (f x) d)"
  using assms unfolding differs_only_at_def
proof (elim disjE exE)
  fix before after out
  assume f: "\<forall>x. f x = (before @ fst (s x) @ after, out)"
  show "(\<exists>before after out. \<forall>x. seq (f x) d = (before @ fst (s x) @ after, out)) \<or>
      (\<exists>c. \<forall>x. seq (f x) d = c)"
  proof (cases "out = Returned")
    case True
    then have "\<forall>x. seq (f x) d = (before @ fst (s x) @ (after @ fst d), snd d)"
      using f by simp
    then show ?thesis
      by blast
  next
    case False
    then have "\<forall>x. seq (f x) d = (before @ fst (s x) @ after, out)"
      using f by (simp add: seq_def split: outcome.splits)
    then show ?thesis
      by blast
  qed
next
  fix c
  assume "\<forall>x. f x = c"
  then have "\<forall>x. seq (f x) d = seq c d"
    by simp
  then show "(\<exists>before after out. \<forall>x. seq (f x) d = (before @ fst (s x) @ after, out)) \<or>
      (\<exists>c. \<forall>x. seq (f x) d = c)"
    by blast
qed

lemma differs_try_catch:
  assumes "differs_only_at s f"
  shows "differs_only_at s (\<lambda>x. try_catch (f x) h)"
  using assms unfolding differs_only_at_def
proof (elim disjE exE)
  fix before after out
  assume f: "\<forall>x. f x = (before @ fst (s x) @ after, out)"
  show "(\<exists>before after out. \<forall>x. try_catch (f x) h = (before @ fst (s x) @ after, out)) \<or>
      (\<exists>c. \<forall>x. try_catch (f x) h = c)"
  proof (cases out)
    case Returned
    then have "\<forall>x. try_catch (f x) h = (before @ fst (s x) @ after, Returned)"
      using f by simp
    then show ?thesis
      by blast
  next
    case (Raised e)
    then have "\<forall>x. try_catch (f x) h = (before @ fst (s x) @ (after @ fst (h e)), snd (h e))"
      using f by simp
    then show ?thesis
      by blast
  next
    case Pending
    then have "\<forall>x. try_catch (f x) h = (before @ fst (s x) @ after, Pending)"
      using f by simp
    then show ?thesis
      by blast
  qed
next
  fix c
  assume "\<forall>x. f x = c"
  then have "\<forall>x. try_catch (f x) h = try_catch c h"
    by simp
  then show "(\<exists>before after out. \<forall>x. try_catch (f x) h = (before @ fst (s x) @ after, out)) \<or>
      (\<exists>c. \<forall>x. try_catch (f x) h = c)"
    by blast
qed

section \<open>The local catches\<close>

lemma with_outcome_fields:
  "callbacks (with_outcome env site x) = callbacks env"
  "while_awaiting (with_outcome env site x) = while_awaiting env"
  "createStore_promise (with_outcome env site x) = createStore_promise env"
  "close_promise (with_outcome env site x) = close_promise env"
  "timer_tick (with_outcome env site x) = timer_tick env"
  "schema (with_outcome env site x) = schema env"
  "typeof_testEvent (with_outcome env site x) = typeof_testEvent env"
  "stringify_schema (with_outcome env site x) = stringify_schema env"
  "node_version (with_outcome env site x) = node_version env"
  "site' \<noteq> site \<Longrightarrow> raises (with_outcome env site x) site' = raises env site'"
  "raises (with_outcome env site x) site = x"
  by (simp_all add: with_outcome_def)

lemma call_with_outcome:
  "site' \<noteq> site \<Longrightarrow> call (with_outcome env site x) site' args = call env site' args"
  by (simp add: call_def with_outcome_fields)

lemma meanwhile_with_outcome:
  "meanwhile (with_outcome env site x) point c = meanwhile env point c"
  by (simp add: meanwhile_def with_outcome_fields)

lemma unaffected_by_attempts:
  assumes "site = StoreSubscribe \<or> site = StoreCommit"
  shows "main_step1 (with_outcome env site x) = main_step1 env"
    and "main_step2 (with_outcome env site x) = main_step2 env"
    and "main_step3 (with_outcome env site x) = main_step3 env"
    and "main_step4 (with_outcome env site x) = main_step4 env"
    and "main_step5 (with_outcome env site x) = main_step5 env"
    and "race_store_creation (with_outcome env site x) = race_store_creation env"
    and "meanwhile (with_outcome env site x) point c = meanwhile env point c"
    and "close_store (with_outcome env site x) = close_store env"
    and "final_diagnostics (with_outcome env site x) = final_diagnostics env"
  using assms
  by (auto simp: main_step1_def main_step2_def main_step3_def main_step4_def main_step5_def
      race_store_creation_def testWithTimeout_def timeout_promise_def close_store_def
      final_diagnostics_def eventsDefsMap_def call_with_outcome meanwhile_with_outcome
      with_outcome_fields)

lemma attempts_unaffected:
  "commit_attempt (with_outcome env StoreSubscribe x) = commit_attempt env"
  "subscribe_attempt (with_outcome env StoreCommit x) = subscribe_attempt env"
  by (simp_all add: commit_attempt_def subscribe_attempt_def call_with_outcome)

lemma main_step6_shape:
  "main_step6 env =
     seq (block
            [log [T ''Step 6: Creating store and testing subscribe/commit...''] [],
             log [] [],
             log [P Stopwatch,
                  T (''  Setting '' @ string_of_nat timeoutMs @
                     ''ms timeout to prevent hanging...'')] []])
         (try_catch (store_body env) store_failed)"
  unfolding main_step6_def
  using block_append
    [of "[log [T ''Step 6: Creating store and testing subscribe/commit...''] [],
          log [] [],
          log [P Stopwatch,
               T (''  Setting '' @ string_of_nat timeoutMs @
                  ''ms timeout to prevent hanging...'')] []]"
        "[try_catch (store_body env) store_failed]"]
  by simp

lemma store_body_at_subscribe:
  "store_body env =
     seq (block
            [meanwhile env AwaitRace (race_store_creation env),
             log [P Check, T '' Store created successfully''] [],
             log [] [],
             log [T ''Test 1: Attempting store.subscribe()...''] []])
       (seq (subscribe_attempt env)
          (block
            [log [] [],
             log [T ''Test 2: Attempting store.commit()...''] [],
             commit_attempt env,
             log [] [],
             log [P Bulb,
                  T '' Both failures are directly caused by the empty eventsDefsMap''] [],
             log [] [],
             log [P Cycle, T '' Closing store...''] [],
             close_store env,
             log [P Check, T '' Store closed''] []]))"
  unfolding store_body_def
  using block_append
    [of "[meanwhile env AwaitRace (race_store_creation env),
          log [P Check, T '' Store created successfully''] [],
          log [] [],
          log [T ''Test 1: Attempting store.subscribe()...''] []]"
        "[subscribe_attempt env,
          log [] [],
          log [T ''Test 2: Attempting store.commit()...''] [],
          commit_attempt env,
          log [] [],
          log [P Bulb,
               T '' Both failures are directly caused by the empty eventsDefsMap''] [],
          log [] [],
          log [P Cycle, T '' Closing store...''] [],
          close_store env,
          log [P Check, T '' Store closed''] []]"]
  by simp

lemma store_body_at_commit:
  "store_body env =
     seq (block
            [meanwhile env AwaitRace (race_store_creation env),
             log [P Check, T '' Store created successfully''] [],
             log [] [],
             log [T ''Test 1: Attempting store.subscribe()...''] [],
             subscribe_attempt env,
             log [] [],
             log [T ''Test 2: Attempting store.commit()...''] []])
       (seq (commit_attempt env)
          (block
            [log [] [],
             log [P Bulb,
                  T '' Both failures are directly caused by the empty eventsDefsMap''] [],
             log [] [],
             log [P Cycle, T '' Closing store...''] [],
             close_store env,
             log [P Check, T '' Store closed''] []]))"
  unfolding store_body_def
  using block_append
    [of "[meanwhile env AwaitRace (race_store_creation env),
          log [P Check, T '' Store created successfully''] [],
          log [] [],
          log [T ''Test 1: Attempting store.subscribe()...''] [],
          subscribe_attempt env,
          log [] [],
          log [T ''Test 2: Attempting store.commit()...''] []]"
        "[commit_attempt env,
          log [] [],
          log [P Bulb,
               T '' Both failures are directly caused by the empty eventsDefsMap''] [],
          log [] [],
          log [P Cycle, T '' Closing store...''] [],
          close_store env,
          log [P Check, T '' Store closed''] []]"]
  by simp

lemma attempts_return_with_error:
  "snd (subscribe_attempt (with_error env StoreSubscribe x)) = Returned"
  "snd (commit_attempt (with_error env StoreCommit x)) = Returned"
  by (cases x; simp add: snd_subscribe_attempt snd_commit_attempt with_error_def
      with_outcome_fields handlers_return_on_Error split: prod.splits)+

lemma main_differs_only_at_subscribe:
  "differs_only_at (\<lambda>x. subscribe_attempt (with_error env StoreSubscribe x))
     (\<lambda>x. main (with_error env StoreSubscribe x))"
  unfolding main_split main_step6_shape store_body_at_subscribe
  unfolding with_error_def
  unfolding unaffected_by_attempts [of StoreSubscribe, simplified] attempts_unaffected
  apply (rule differs_seq_left)
  apply (rule differs_seq_right)
  apply (rule differs_seq_left)
  apply (rule differs_try_catch)
  apply (rule differs_seq_left)
  apply (rule differs_seq_right)
  apply (rule differs_base)
  apply (rule attempts_return_with_error(1) [unfolded with_error_def])
  done

lemma main_differs_only_at_commit:
  "differs_only_at (\<lambda>x. commit_attempt (with_error env StoreCommit x))
     (\<lambda>x. main (with_error env StoreCommit x))"
  unfolding main_split main_step6_shape store_body_at_commit
  unfolding with_error_def
  unfolding unaffected_by_attempts [of StoreCommit, simplified] attempts_unaffected
  apply (rule differs_seq_left)
  apply (rule differs_seq_right)
  apply (rule differs_seq_left)
  apply (rule differs_try_catch)
  apply (rule differs_seq_left)
  apply (rule differs_seq_right)
  apply (rule differs_base)
  apply (rule attempts_return_with_error(2) [unfolded with_error_def])
  done


lemma seq_never_pending:
  "snd c \<noteq> Pending \<Longrightarrow> snd d \<noteq> Pending \<Longrightarrow> snd (seq c d) \<noteq> Pending"
  by (simp add: snd_seq)

lemma steps_never_pending:
  "snd (main_step1 env) \<noteq> Pending"
  "snd (main_step2 env) \<noteq> Pending"
  "snd (main_step3 env) \<noteq> Pending"
  by (simp_all add: snd_main_step1 snd_main_step2 snd_main_step3 split: option.splits)

lemma steps_1_to_5_never_pending:
  "snd (block [main_banner, main_step1 env, main_step2 env, main_step3 env,
       main_step4 env, main_step5 env]) \<noteq> Pending"
  by (simp add: seq_never_pending steps_never_pending snd_banner main_step4_returns
      main_step5_returns)

lemma setup_error_escapes:
  assumes "site \<in> set setup_sites" and "raises env site = Some e"
  shows "\<exists>e'. snd (main env) = Raised e'"
proof -
  have "\<not> (\<forall>site \<in> set setup_sites. raises env site = None)"
    using assms by auto
  then have n: "snd (block [main_banner, main_step1 env, main_step2 env, main_step3 env,
       main_step4 env, main_step5 env]) \<noteq> Returned"
    by (simp only: snd_steps_1_to_5 not_False_eq_True)
  then have "snd (main env) = snd (block [main_banner, main_step1 env, main_step2 env,
       main_step3 env, main_step4 env, main_step5 env])"
    unfolding main_split by (simp add: snd_seq del: block_Cons)
  then show ?thesis
    using n steps_1_to_5_never_pending [of env]
    by (cases "snd (block [main_banner, main_step1 env, main_step2 env, main_step3 env,
       main_step4 env, main_step5 env])") (simp_all del: block_Cons)
qed

lemma step6_in_main:
  assumes "\<forall>site \<in> set setup_sites. raises env site = None"
  shows "set (fst (main_step6 env)) \<subseteq> set (fst (main env))"
  unfolding fst_main_setup_ok [OF assms] by auto

lemma setup_ok_rejected_env: "\<forall>site \<in> set setup_sites. raises rejected_env site = None"
  by (simp add: rejected_env_fields)

lemma race_rejected_env: "snd (race_store_creation rejected_env) = Raised boom"
  by (simp add: snd_race_store_creation snd_testWithTimeout rejected_env_fields await_def)

lemma message_boom: "get_message boom = Inr (JStr ''boom'')"
  by (simp add: boom_def)

lemma snd_main_rejected_env: "snd (main rejected_env) = Returned"
  by (simp add: main_def snd_seq snd_steps rejected_env_fields rejected_env_def
      happy_env_fields await_def message_boom)

text \<open>Which runs get to \<^verbatim>\<open>store.commit\<close> and to \<^verbatim>\<open>store.close\<close>.\<close>

lemma call_sites_setup_failed:
  assumes "\<not> (\<forall>site \<in> set setup_sites. raises env site = None)"
  shows "set (call_sites (test_bug env)) \<subseteq> set setup_sites"
proof -
  have "lib_calls (fst (main env)) =
      lib_calls (fst (block [main_banner, main_step1 env, main_step2 env,
        main_step3 env, main_step4 env, main_step5 env]))"
    by (simp only: calls_main_cases if_not_P [OF assms])
  then have "subseq (lib_calls (fst (main env))) (take 8 all_lib_calls)"
    using subseq_calls_steps_1_to_5 [of env] by (simp only:)
  then have "subseq (map fst (lib_calls (fst (main env)))) (map fst (take 8 all_lib_calls))"
    by (rule subseq_map)
  then have "set (map fst (lib_calls (fst (main env)))) \<subseteq> set (map fst (take 8 all_lib_calls))"
    by (rule subseq_set)
  then show ?thesis
    by (simp add: call_sites_test_bug all_lib_calls_def setup_sites_def)
qed

lemma close_called_iff:
  "StoreClose \<in> set (call_sites (test_bug env)) \<longleftrightarrow>
     (\<forall>site \<in> set setup_sites. raises env site = None) \<and>
     snd (race_store_creation env) = Returned \<and>
     snd (subscribe_attempt env) = Returned \<and> snd (commit_attempt env) = Returned"
proof (cases "\<forall>site \<in> set setup_sites. raises env site = None")
  case ok: True
  show ?thesis
  proof (cases "snd (race_store_creation env) = Returned")
    case race: True
    show ?thesis
    proof (cases "snd (subscribe_attempt env) = Returned \<and> snd (commit_attempt env) = Returned")
      case True
      then have "lib_calls (fst (main env)) = all_lib_calls"
        using ok race calls_main_full by blast
      then have "StoreClose \<in> set (call_sites (test_bug env))"
        by (simp add: call_sites_test_bug all_lib_calls_def)
      then show ?thesis
        using ok race True by (simp only: simp_thms)
    next
      case False
      have "StoreClose \<notin> set (call_sites (test_bug env))"
        unfolding calls_attempt_raised [OF ok race False]
        by (simp add: all_call_sites_def all_lib_calls_def)
      then show ?thesis
        using False by blast
    qed
  next
    case False
    have "StoreClose \<notin> set (call_sites (test_bug env))"
      unfolding attempts_skipped [OF ok False]
      by (simp add: all_call_sites_def all_lib_calls_def)
    then show ?thesis
      using False by blast
  qed
next
  case False
  have "StoreClose \<notin> set setup_sites"
    by (simp add: setup_sites_def)
  then have "StoreClose \<notin> set (call_sites (test_bug env))"
    using call_sites_setup_failed [OF False] by blast
  then show ?thesis
    using False by blast
qed

lemma commit_called_iff:
  "StoreCommit \<in> set (call_sites (test_bug env)) \<longleftrightarrow>
     (\<forall>site \<in> set setup_sites. raises env site = None) \<and>
     snd (race_store_creation env) = Returned \<and>
     snd (subscribe_attempt env) = Returned"
proof (cases "\<forall>site \<in> set setup_sites. raises env site = None")
  case ok: True
  show ?thesis
  proof (cases "snd (race_store_creation env) = Returned")
    case race: True
    show ?thesis
    proof (cases "snd (subscribe_attempt env) = Returned \<and> snd (commit_attempt env) = Returned")
      case True
      then have "lib_calls (fst (main env)) = all_lib_calls"
        using ok race calls_main_full by blast
      then have "StoreCommit \<in> set (call_sites (test_bug env))"
        by (simp add: call_sites_test_bug all_lib_calls_def)
      then show ?thesis
        using ok race True by (simp only: simp_thms)
    next
      case False
      show ?thesis
        unfolding calls_attempt_raised [OF ok race False]
        using ok race False by (auto simp: all_call_sites_def all_lib_calls_def)
    qed
  next
    case False
    have "StoreCommit \<notin> set (call_sites (test_bug env))"
      unfolding attempts_skipped [OF ok False]
      by (simp add: all_call_sites_def all_lib_calls_def)
    then show ?thesis
      using False by blast
  qed
next
  case False
  have "StoreCommit \<notin> set setup_sites"
    by (simp add: setup_sites_def)
  then have "StoreCommit \<notin> set (call_sites (test_bug env))"
    using call_sites_setup_failed [OF False] by blast
  then show ?thesis
    using False by blast
qed

text \<open>The catch blocks.\<close>

lemma first_line_pin:
  "CHR 0x0A \<notin> set a \<Longrightarrow> first_line (a @ CHR 0x0A # b) = a \<and> first_line a = a"
proof -
  assume "CHR 0x0A \<notin> set a"
  then have "\<And>c. c \<in> set a \<Longrightarrow> c \<noteq> CHR 0x0A"
    by blast
  then show ?thesis
    using takeWhile_append2 [of a "\<lambda>c. c \<noteq> CHR 0x0A" "CHR 0x0A # b"]
      takeWhile_append2 [of a "\<lambda>c. c \<noteq> CHR 0x0A" "[]"]
    by (simp add: first_line_def)
qed

lemma attempt_raises:
  "raises env StoreSubscribe = Some v \<Longrightarrow>
     subscribe_attempt env =
       (fst (call env StoreSubscribe [AStr ''v1.TestEvent'', AFun SubscribeCallback]) @
        fst (subscribe_failed v), snd (subscribe_failed v))"
  "raises env StoreCommit = Some v \<Longrightarrow>
     commit_attempt env =
       (fst (call env StoreCommit
          [AStr ''v1.TestEvent'',
           AObj [(''id'', AStr ''test-123''), (''message'', AStr ''Hello World'')]]) @
        fst (commit_failed v), snd (commit_failed v))"
  by (simp_all add: subscribe_attempt_def commit_attempt_def call_def)

lemma attempt_returns:
  "raises env StoreSubscribe = None \<Longrightarrow>
     subscribe_attempt env =
       (fst (call env StoreSubscribe [AStr ''v1.TestEvent'', AFun SubscribeCallback]) @
        [ConsoleLog [Msg [P Check, T '' Subscribe worked (unexpected - bug may be fixed!)'']]],
        Returned)"
  "raises env StoreCommit = None \<Longrightarrow>
     commit_attempt env =
       (fst (call env StoreCommit
          [AStr ''v1.TestEvent'',
           AObj [(''id'', AStr ''test-123''), (''message'', AStr ''Hello World'')]]) @
        [ConsoleLog [Msg [P Check, T '' Commit worked (unexpected - bug may be fixed!)'']]],
        Returned)"
  by (simp_all add: subscribe_attempt_def commit_attempt_def call_def log_def)

lemma catch_blocks_on_Error:
  "subscribe_failed (JsError m c) =
     ([ConsoleLog [Msg [P Cross, T '' SUBSCRIBE FAILED:''], Val (JStr m)],
       ConsoleLog [Msg [T ''   Error type:''], Val (JStr c)],
       ConsoleLog [Msg [T ''   This confirms the eventsDefsMap bug impact'']]], Returned)"
  "commit_failed (JsError m c) =
     ([ConsoleLog [Msg [P Cross, T '' COMMIT FAILED:''], Val (JStr (first_line m))],
       ConsoleLog [Msg [T ''   Error type:''], Val (JStr c)],
       ConsoleLog [Msg [T ''   This confirms the eventsDefsMap bug impact'']]], Returned)"
  by (simp_all add: subscribe_failed_def commit_failed_def with_result_def log_def
      read_Error)

lemma catch_blocks_return_iff:
  "snd (subscribe_failed v) = Returned \<longleftrightarrow>
     (\<exists>m n. get_message v = Inr m \<and> get_constructor_name v = Inr n)"
  "snd (commit_failed v) = Returned \<longleftrightarrow>
     (\<exists>l n. first_line_of_message v = Inr l \<and> get_constructor_name v = Inr n)"
  "snd (store_failed v) = Returned \<longleftrightarrow> (\<exists>m. get_message v = Inr m)"
  by (auto simp: snd_subscribe_failed snd_commit_failed snd_store_failed split: sum.splits)

lemma catch_blocks_throw:
  "subscribe_failed JUndefined =
     ([], Raised (TypeError ''Cannot read properties of undefined (reading 'message')''))"
  "commit_failed (JStr s) =
     ([], Raised (TypeError ''Cannot read properties of undefined (reading 'split')''))"
  "store_failed JUndefined =
     ([], Raised (TypeError ''Cannot read properties of undefined (reading 'message')''))"
  by (simp_all add: subscribe_failed_def commit_failed_def store_failed_def with_result_def
      raise_def first_line_of_message_def)

lemma main_step6_catches:
  assumes "snd (store_body env) = Raised v"
  shows "main_step6 env =
     (fst (block
        [log [T ''Step 6: Creating store and testing subscribe/commit...''] [],
         log [] [],
         log [P Stopwatch,
              T (''  Setting '' @ string_of_nat timeoutMs @
                 ''ms timeout to prevent hanging...'')] []]) @
      fst (store_body env) @ fst (store_failed v),
      snd (store_failed v))"
  by (simp add: prod_eq_iff fst_main_step6 snd_main_step6 assms)

text \<open>
  C4, as the specification states it, fails: the two call sites are not the only place
  where an error of the library is caught. When the promise of
  \<^verbatim>\<open>createStorePromise\<close> is rejected, the error is caught by the outer
  \<^verbatim>\<open>try\<close> of lines 129 to 185, narrated, and \<^verbatim>\<open>main\<close> returns: the script exits
  with code 0.
\<close>

theorem store_creation_error_caught_locally_too:
  "createStore_promise rejected_env = Settles 1 (Rejected boom) \<and>
   snd (race_store_creation rejected_env) = Raised boom \<and>
   ConsoleLog [Msg [P Cross, T '' STORE CREATION FAILED:''], Val (JStr ''boom'')]
     \<in> set (fst (main rejected_env)) \<and>
   snd (main rejected_env) = Returned \<and>
   exit_code (test_bug rejected_env) = Some 0"
proof -
  have "ConsoleLog [Msg [P Cross, T '' STORE CREATION FAILED:''], Val (JStr ''boom'')]
      \<in> set (fst (main_step6 rejected_env))"
    using race_rejected_env message_boom by (rule failed_line_printed)
  then have "ConsoleLog [Msg [P Cross, T '' STORE CREATION FAILED:''], Val (JStr ''boom'')]
      \<in> set (fst (main rejected_env))"
    using step6_in_main [OF setup_ok_rejected_env] by auto
  moreover have "exit_code (test_bug rejected_env) = Some 0"
    unfolding test_bug_def
    by (simp add: exit_code_run [OF main_action_main] snd_main_rejected_env)
  ultimately show ?thesis
    by (simp add: rejected_env_fields race_rejected_env snd_main_rejected_env)
qed

text \<open>
  C4, amended. Errors of the library are caught locally at three places. The catch
  around \<^verbatim>\<open>store.subscribe\<close> and the catch around \<^verbatim>\<open>store.commit\<close> each read
  the message of the caught value (for commit, the part of it before the first line
  feed) and the name of its constructor, and print them with a fixed remark. When the
  caught value is an \<^verbatim>\<open>Error\<close> instance these reads succeed, the attempt returns,
  and a run in which the call throws an Error differs from the run in which it returns
  in the actions of that attempt only: the actions before it, those after it and the way
  \<^verbatim>\<open>main\<close> ends are the same. When a read throws (the value is undefined or null;
  for commit also when its message is not a string, as for a thrown string), the catch
  block raises that TypeError, the rest of the outer \<^verbatim>\<open>try\<close> is skipped
  (\<^verbatim>\<open>store.commit\<close> after a failed subscribe catch, \<^verbatim>\<open>store.close\<close> after
  either), and the outer catch takes over. The outer catch, around store creation, the
  two attempts and \<^verbatim>\<open>store.close()\<close>, prints the message of what it caught and a
  fixed remark, and step 6 returns; when the message cannot be read (undefined, null) it
  raises the TypeError out of \<^verbatim>\<open>main\<close>. An error raised by a call of steps 1 to 3 is
  not caught locally: \<^verbatim>\<open>main\<close> raises.
\<close>

theorem errors_caught_at_three_places:
  "(raises env StoreSubscribe = None \<longrightarrow>
      subscribe_attempt env =
        (fst (call env StoreSubscribe [AStr ''v1.TestEvent'', AFun SubscribeCallback]) @
         [ConsoleLog [Msg [P Check, T '' Subscribe worked (unexpected - bug may be fixed!)'']]],
         Returned)) \<and>
   (\<forall>v. raises env StoreSubscribe = Some v \<longrightarrow>
      subscribe_attempt env =
        (fst (call env StoreSubscribe [AStr ''v1.TestEvent'', AFun SubscribeCallback]) @
         fst (subscribe_failed v), snd (subscribe_failed v))) \<and>
   (raises env StoreCommit = None \<longrightarrow>
      commit_attempt env =
        (fst (call env StoreCommit
           [AStr ''v1.TestEvent'',
            AObj [(''id'', AStr ''test-123''), (''message'', AStr ''Hello World'')]]) @
         [ConsoleLog [Msg [P Check, T '' Commit worked (unexpected - bug may be fixed!)'']]],
         Returned)) \<and>
   (\<forall>v. raises env StoreCommit = Some v \<longrightarrow>
      commit_attempt env =
        (fst (call env StoreCommit
           [AStr ''v1.TestEvent'',
            AObj [(''id'', AStr ''test-123''), (''message'', AStr ''Hello World'')]]) @
         fst (commit_failed v), snd (commit_failed v))) \<and>
   (\<forall>m c. subscribe_failed (JsError m c) =
      ([ConsoleLog [Msg [P Cross, T '' SUBSCRIBE FAILED:''], Val (JStr m)],
        ConsoleLog [Msg [T ''   Error type:''], Val (JStr c)],
        ConsoleLog [Msg [T ''   This confirms the eventsDefsMap bug impact'']]], Returned)) \<and>
   (\<forall>m c. commit_failed (JsError m c) =
      ([ConsoleLog [Msg [P Cross, T '' COMMIT FAILED:''], Val (JStr (first_line m))],
        ConsoleLog [Msg [T ''   Error type:''], Val (JStr c)],
        ConsoleLog [Msg [T ''   This confirms the eventsDefsMap bug impact'']]], Returned)) \<and>
   (\<forall>a b. CHR 0x0A \<notin> set a \<longrightarrow> first_line (a @ CHR 0x0A # b) = a \<and> first_line a = a) \<and>
   (\<forall>v. snd (subscribe_failed v) = Returned \<longleftrightarrow>
      (\<exists>m n. get_message v = Inr m \<and> get_constructor_name v = Inr n)) \<and>
   (\<forall>v. snd (commit_failed v) = Returned \<longleftrightarrow>
      (\<exists>l n. first_line_of_message v = Inr l \<and> get_constructor_name v = Inr n)) \<and>
   subscribe_failed JUndefined =
     ([], Raised (TypeError ''Cannot read properties of undefined (reading 'message')'')) \<and>
   (\<forall>s. commit_failed (JStr s) =
      ([], Raised (TypeError ''Cannot read properties of undefined (reading 'split')''))) \<and>
   differs_only_at (\<lambda>x. subscribe_attempt (with_error env StoreSubscribe x))
     (\<lambda>x. main (with_error env StoreSubscribe x)) \<and>
   differs_only_at (\<lambda>x. commit_attempt (with_error env StoreCommit x))
     (\<lambda>x. main (with_error env StoreCommit x)) \<and>
   (\<forall>e. snd (race_store_creation env) = Returned \<and>
      snd (subscribe_attempt env) = Raised e \<longrightarrow>
        snd (store_body env) = Raised e \<and>
        StoreCommit \<notin> set (call_sites (test_bug env)) \<and>
        StoreClose \<notin> set (call_sites (test_bug env))) \<and>
   (\<forall>e. snd (race_store_creation env) = Returned \<and>
      snd (subscribe_attempt env) = Returned \<and>
      snd (commit_attempt env) = Raised e \<longrightarrow>
        snd (store_body env) = Raised e \<and>
        StoreClose \<notin> set (call_sites (test_bug env))) \<and>
   (\<forall>v. snd (store_body env) = Raised v \<longrightarrow>
      main_step6 env =
        (fst (block
           [log [T ''Step 6: Creating store and testing subscribe/commit...''] [],
            log [] [],
            log [P Stopwatch,
                 T (''  Setting '' @ string_of_nat timeoutMs @
                    ''ms timeout to prevent hanging...'')] []]) @
         fst (store_body env) @ fst (store_failed v),
         snd (store_failed v))) \<and>
   (\<forall>v m. get_message v = Inr m \<longrightarrow>
      store_failed v =
        ([ConsoleLog [Msg [P Cross, T '' STORE CREATION FAILED:''], Val m],
          ConsoleLog [Msg [T ''   This might be another symptom of the same bug'']]],
         Returned)) \<and>
   (\<forall>v e. get_message v = Inl e \<longrightarrow> store_failed v = ([], Raised e)) \<and>
   (\<forall>site v. site \<in> set setup_sites \<and> raises env site = Some v \<longrightarrow>
      (\<exists>v'. snd (main env) = Raised v'))"
proof -
  have sub_throws: "snd (store_body env) = Raised e \<and>
      StoreCommit \<notin> set (call_sites (test_bug env)) \<and>
      StoreClose \<notin> set (call_sites (test_bug env))"
    if "snd (race_store_creation env) = Returned \<and> snd (subscribe_attempt env) = Raised e"
    for e
    using that by (simp add: snd_store_body commit_called_iff close_called_iff)
  have com_throws: "snd (store_body env) = Raised e \<and>
      StoreClose \<notin> set (call_sites (test_bug env))"
    if "snd (race_store_creation env) = Returned \<and> snd (subscribe_attempt env) = Returned \<and>
      snd (commit_attempt env) = Raised e" for e
    using that by (simp add: snd_store_body close_called_iff)
  have outer: "store_failed v =
        ([ConsoleLog [Msg [P Cross, T '' STORE CREATION FAILED:''], Val m],
          ConsoleLog [Msg [T ''   This might be another symptom of the same bug'']]],
         Returned)"
    if "get_message v = Inr m" for v m
    using that by (simp add: prod_eq_iff fst_store_failed snd_store_failed)
  have escapes: "\<exists>v'. snd (main env) = Raised v'"
    if "site \<in> set setup_sites \<and> raises env site = Some v" for site v
    using that setup_error_escapes by blast
  show ?thesis
    apply (intro conjI allI)
    apply (rule impI, erule attempt_returns(1))
    apply (rule impI, erule attempt_raises(1))
    apply (rule impI, erule attempt_returns(2))
    apply (rule impI, erule attempt_raises(2))
    apply (rule catch_blocks_on_Error(1))
    apply (rule catch_blocks_on_Error(2))
    apply (rule impI, erule first_line_pin)
    apply (rule catch_blocks_return_iff(1))
    apply (rule catch_blocks_return_iff(2))
    apply (rule catch_blocks_throw(1))
    apply (rule catch_blocks_throw(2))
    apply (rule main_differs_only_at_subscribe)
    apply (rule main_differs_only_at_commit)
    apply (rule impI, erule sub_throws)
    apply (rule impI, erule com_throws)
    apply (rule impI, erule main_step6_catches)
    apply (rule impI, erule outer)
    apply (rule impI, erule fst_store_failed(3))
    apply (rule impI, erule escapes)
    done
qed


theorem errors_caught_at_three_places_witness:
  "raises attempts_raise_env StoreSubscribe = Some boom \<and>
   subscribe_attempt attempts_raise_env =
     (fst (call attempts_raise_env StoreSubscribe
        [AStr ''v1.TestEvent'', AFun SubscribeCallback]) @
      fst (subscribe_failed boom), snd (subscribe_failed boom)) \<and>
   first_line (''No mutation definition found'' @ CHR 0x0A # ''    at Store.commit'') =
     ''No mutation definition found'' \<and>
   snd (commit_attempt commit_throws_string_env) =
     Raised (TypeError ''Cannot read properties of undefined (reading 'split')'') \<and>
   snd (store_body commit_throws_string_env) =
     Raised (TypeError ''Cannot read properties of undefined (reading 'split')'') \<and>
   StoreClose \<notin> set (call_sites (test_bug commit_throws_string_env)) \<and>
   snd (store_body rejected_env) = Raised boom \<and>
   store_failed boom =
     ([ConsoleLog [Msg [P Cross, T '' STORE CREATION FAILED:''], Val (JStr ''boom'')],
       ConsoleLog [Msg [T ''   This might be another symptom of the same bug'']]],
      Returned) \<and>
   MakeSchema \<in> set setup_sites \<and>
   raises schema_raises_env MakeSchema = Some boom \<and>
   (\<exists>v'. snd (main schema_raises_env) = Raised v')"
proof -
  have a: "raises attempts_raise_env StoreSubscribe = Some boom"
    by (simp add: attempts_raise_env_def)
  have nl: "CHR 0x0A \<notin> set ''No mutation definition found''"
    by simp
  have b: "snd (store_body rejected_env) = Raised boom"
    by (simp add: snd_store_body race_rejected_env)
  have m: "MakeSchema \<in> set setup_sites"
    by (simp add: setup_sites_def)
  have s: "raises schema_raises_env MakeSchema = Some boom"
    by (simp add: schema_raises_env_def)
  note subscribe = errors_caught_at_three_places
    [of attempts_raise_env, THEN conjunct2, THEN conjunct1, rule_format, OF a]
  note line = errors_caught_at_three_places
    [of happy_env, THEN conjunct2, THEN conjunct2, THEN conjunct2, THEN conjunct2,
     THEN conjunct2, THEN conjunct2, THEN conjunct1, rule_format, OF nl, THEN conjunct1,
     of "''    at Store.commit''"]
  note thrown = errors_caught_at_three_places
    [of commit_throws_string_env, THEN conjunct2, THEN conjunct2, THEN conjunct2,
     THEN conjunct2, THEN conjunct2, THEN conjunct2, THEN conjunct2, THEN conjunct2,
     THEN conjunct2, THEN conjunct2, THEN conjunct2, THEN conjunct2, THEN conjunct2,
     THEN conjunct2, THEN conjunct1, rule_format,
     OF conjI [OF commit_throws_string_env_steps(1)
       conjI [OF commit_throws_string_env_steps(2,3)]]]
  note outer = errors_caught_at_three_places
    [of rejected_env, THEN conjunct2, THEN conjunct2, THEN conjunct2, THEN conjunct2,
     THEN conjunct2, THEN conjunct2, THEN conjunct2, THEN conjunct2, THEN conjunct2,
     THEN conjunct2, THEN conjunct2, THEN conjunct2, THEN conjunct2, THEN conjunct2,
     THEN conjunct2, THEN conjunct2, THEN conjunct1, rule_format, OF message_boom]
  note escapes = errors_caught_at_three_places
    [of schema_raises_env, THEN conjunct2, THEN conjunct2, THEN conjunct2, THEN conjunct2,
     THEN conjunct2, THEN conjunct2, THEN conjunct2, THEN conjunct2, THEN conjunct2,
     THEN conjunct2, THEN conjunct2, THEN conjunct2, THEN conjunct2, THEN conjunct2,
     THEN conjunct2, THEN conjunct2, THEN conjunct2, THEN conjunct2, rule_format,
     OF conjI [OF m s]]
  show ?thesis
    using a subscribe line thrown outer escapes b m s commit_throws_string_env_steps(3)
    by (simp only: simp_thms)
qed

section \<open>Closing the store\<close>

lemma fst_close_store:
  "fst (close_store env) =
     LibCall StoreClose [] # run_callbacks (callbacks env StoreClose) @
       (case raises env StoreClose of
          None \<Rightarrow> run_callbacks (while_awaiting env AwaitClose)
        | Some v \<Rightarrow> [])"
  by (simp add: close_store_def fst_seq call_def meanwhile_def await_def
      split: option.splits fate.splits settlement.splits)

lemma close_store_awaits:
  "raises env StoreClose = None \<Longrightarrow> close_promise env = NeverSettles \<Longrightarrow>
     snd (close_store env) = Pending"
  "raises env StoreClose = None \<Longrightarrow> close_promise env = Settles t Fulfilled \<Longrightarrow>
     snd (close_store env) = Returned"
  "raises env StoreClose = None \<Longrightarrow> close_promise env = Settles t (Rejected v) \<Longrightarrow>
     snd (close_store env) = Raised v"
  "raises env StoreClose = Some v \<Longrightarrow> snd (close_store env) = Raised v"
  by (simp_all add: snd_close_store await_def)

lemma fst_store_body_returned:
  assumes "snd (race_store_creation env) = Returned"
    and "snd (subscribe_attempt env) = Returned"
    and "snd (commit_attempt env) = Returned"
  shows "fst (store_body env) =
     (fst (meanwhile env AwaitRace (race_store_creation env)) @
      fst (block
        [log [P Check, T '' Store created successfully''] [],
         log [] [],
         log [T ''Test 1: Attempting store.subscribe()...''] [],
         subscribe_attempt env,
         log [] [],
         log [T ''Test 2: Attempting store.commit()...''] [],
         commit_attempt env,
         log [] [],
         log [P Bulb, T '' Both failures are directly caused by the empty eventsDefsMap''] [],
         log [] [],
         log [P Cycle, T '' Closing store...''] []])) @
     fst (close_store env) @
     (if snd (close_store env) = Returned
      then [ConsoleLog [Msg [P Check, T '' Store closed'']]] else [])"
  using assms by (simp add: store_body_def fst_seq snd_seq log_def)

lemma calls_before_close:
  "StoreClose \<notin> set (call_sites
     (fst (meanwhile env AwaitRace (race_store_creation env)) @
      fst (block
        [log [P Check, T '' Store created successfully''] [],
         log [] [],
         log [T ''Test 1: Attempting store.subscribe()...''] [],
         subscribe_attempt env,
         log [] [],
         log [T ''Test 2: Attempting store.commit()...''] [],
         commit_attempt env,
         log [] [],
         log [P Bulb, T '' Both failures are directly caused by the empty eventsDefsMap''] [],
         log [] [],
         log [P Cycle, T '' Closing store...''] []])))"
  apply (simp add: call_sites_def calls_seq calls_race_store_creation calls_subscribe_attempt
      calls_commit_attempt)
  apply (simp add: all_lib_calls_def)
  done

lemma close_at_most_once: "count_list (call_sites (test_bug env)) StoreClose \<le> 1"
proof -
  have "distinct (call_sites (test_bug env))"
    using subseq_call_sites_test_bug distinct_all_call_sites by (rule subseq_distinct)
  then show ?thesis
    by (rule distinct_count_le_1)
qed

lemma attempts_return_on_Error:
  "raises env StoreSubscribe = None \<or> (\<exists>m c. raises env StoreSubscribe = Some (JsError m c))
     \<Longrightarrow> snd (subscribe_attempt env) = Returned"
  "raises env StoreCommit = None \<or> (\<exists>m c. raises env StoreCommit = Some (JsError m c))
     \<Longrightarrow> snd (commit_attempt env) = Returned"
  by (auto simp: snd_subscribe_attempt snd_commit_attempt handlers_return_on_Error)

lemma main_around_close:
  assumes "\<forall>site \<in> set setup_sites. raises env site = None"
    and "snd (race_store_creation env) = Returned"
    and "snd (subscribe_attempt env) = Returned"
    and "snd (commit_attempt env) = Returned"
  shows "count_list (call_sites (test_bug env)) StoreClose = 1"
    and "snd (store_body env) = snd (close_store env)"
    and "\<exists>before between.
      fst (main env) =
        before @ fst (close_store env) @ between @
          (if snd (main_step6 env) = Returned then fst (final_diagnostics env) else []) \<and>
      StoreClose \<notin> set (call_sites before) \<and>
      call_sites between = [] \<and>
      between =
        (case snd (close_store env) of
           Returned \<Rightarrow> [ConsoleLog [Msg [P Check, T '' Store closed'']]]
         | Raised v \<Rightarrow> fst (store_failed v)
         | Pending \<Rightarrow> [])"
proof -
  have "lib_calls (fst (main env)) = all_lib_calls"
    using assms by (rule calls_main_full)
  then show "count_list (call_sites (test_bug env)) StoreClose = 1"
    by (simp add: call_sites_test_bug all_lib_calls_def)
  show body: "snd (store_body env) = snd (close_store env)"
    using assms by (simp add: snd_store_body)
  define before where "before =
     fst (block [main_banner, main_step1 env, main_step2 env, main_step3 env,
            main_step4 env, main_step5 env]) @
     fst (block
       [log [T ''Step 6: Creating store and testing subscribe/commit...''] [],
        log [] [],
        log [P Stopwatch,
             T (''  Setting '' @ string_of_nat timeoutMs @ ''ms timeout to prevent hanging...'')] []]) @
     (fst (meanwhile env AwaitRace (race_store_creation env)) @
      fst (block
        [log [P Check, T '' Store created successfully''] [],
         log [] [],
         log [T ''Test 1: Attempting store.subscribe()...''] [],
         subscribe_attempt env,
         log [] [],
         log [T ''Test 2: Attempting store.commit()...''] [],
         commit_attempt env,
         log [] [],
         log [P Bulb, T '' Both failures are directly caused by the empty eventsDefsMap''] [],
         log [] [],
         log [P Cycle, T '' Closing store...''] []]))"
  define between where "between =
     (case snd (close_store env) of
        Returned \<Rightarrow> [ConsoleLog [Msg [P Check, T '' Store closed'']]]
      | Raised v \<Rightarrow> fst (store_failed v)
      | Pending \<Rightarrow> [])"
  have "fst (main env) =
      before @ fst (close_store env) @ between @
        (if snd (main_step6 env) = Returned then fst (final_diagnostics env) else [])"
    unfolding before_def between_def
    by (simp add: fst_main_setup_ok [OF assms(1)] fst_main_step6
        fst_store_body_returned [OF assms(2,3,4)] body
        del: block_Cons split: outcome.splits)
  moreover have "StoreClose \<notin> set (call_sites before)"
  proof -
    have "call_sites (fst (block [main_banner, main_step1 env, main_step2 env,
        main_step3 env, main_step4 env, main_step5 env])) = map fst (take 8 all_lib_calls)"
      using assms(1) by (simp add: call_sites_def calls_steps_1_to_5_ok del: block_Cons)
    then have "StoreClose \<notin> set (call_sites (fst (block [main_banner, main_step1 env,
        main_step2 env, main_step3 env, main_step4 env, main_step5 env])))"
      by (simp add: all_lib_calls_def del: block_Cons)
    then show ?thesis
      using calls_before_close [of env] unfolding before_def
      by (simp add: call_sites_def calls_step6_header del: block_Cons)
  qed
  moreover have "call_sites between = []"
    unfolding between_def by (simp add: call_sites_def calls_silent split: outcome.splits)
  ultimately show "\<exists>before between.
      fst (main env) =
        before @ fst (close_store env) @ between @
          (if snd (main_step6 env) = Returned then fst (final_diagnostics env) else []) \<and>
      StoreClose \<notin> set (call_sites before) \<and>
      call_sites between = [] \<and>
      between =
        (case snd (close_store env) of
           Returned \<Rightarrow> [ConsoleLog [Msg [P Check, T '' Store closed'']]]
         | Raised v \<Rightarrow> fst (store_failed v)
         | Pending \<Rightarrow> [])"
    using between_def by blast
qed


lemma attempts_raise_env_fields:
  "raises attempts_raise_env StoreSubscribe = Some (JsError ''boom'' ''Error'')"
  "raises attempts_raise_env StoreCommit = Some (JsError ''boom'' ''Error'')"
  "\<forall>site \<in> set setup_sites. raises attempts_raise_env site = None"
  "raises attempts_raise_env MakeAdapter = None"
  "raises attempts_raise_env CreateStorePromise = None"
  "createStore_promise attempts_raise_env = Settles 1 Fulfilled"
  "timer_tick attempts_raise_env = 2"
  by (simp_all add: attempts_raise_env_def happy_env_fields no_raise_def setup_sites_def
      boom_def)

lemma race_attempts_raise_env: "snd (race_store_creation attempts_raise_env) = Returned"
  by (simp add: snd_race_store_creation snd_testWithTimeout attempts_raise_env_fields
      await_def)

lemma close_hangs_env_fields:
  "raises close_hangs_env StoreClose = None"
  "close_promise close_hangs_env = NeverSettles"
  by (simp_all add: close_hangs_env_def happy_env_fields)

lemma schema_raises_env_not_ok:
  "\<not> (\<forall>site \<in> set setup_sites. raises schema_raises_env site = None)"
  by (simp add: schema_raises_env_def setup_sites_def)

lemma snd_main_commit_throws_string_env: "snd (main commit_throws_string_env) = Returned"
proof -
  have "snd (store_body commit_throws_string_env) =
      Raised (TypeError ''Cannot read properties of undefined (reading 'split')'')"
    by (simp add: snd_store_body commit_throws_string_env_steps)
  then have "snd (main_step6 commit_throws_string_env) = Returned"
    by (simp add: snd_main_step6_iff TypeError_def)
  then show ?thesis
    using commit_throws_string_env_fields(4)
    by (simp add: snd_main_iff commit_throws_string_env_fields(10))
qed

text \<open>
  C10, as the specification states it, fails in two ways. In the first run below store
  creation wins the race and succeeds and \<^verbatim>\<open>store.commit\<close> raises, yet
  \<^verbatim>\<open>store.close()\<close> is never called: what commit throws is a string, the catch block
  of commit throws on \<^verbatim>\<open>commitError.message.split\<close>, and the outer catch takes
  over. In the second run \<^verbatim>\<open>makeSchema\<close> raises: close is skipped although store
  creation neither failed nor timed out, it was never started.
\<close>

theorem close_skipped_in_further_runs:
  "snd (race_store_creation commit_throws_string_env) = Returned \<and>
   raises commit_throws_string_env StoreCommit = Some (JStr ''No mutation definition found'') \<and>
   StoreClose \<notin> set (call_sites (test_bug commit_throws_string_env)) \<and>
   snd (main commit_throws_string_env) = Returned \<and>
   raises schema_raises_env MakeSchema = Some boom \<and>
   MakeAdapter \<notin> set (call_sites (test_bug schema_raises_env)) \<and>
   CreateStorePromise \<notin> set (call_sites (test_bug schema_raises_env)) \<and>
   StoreClose \<notin> set (call_sites (test_bug schema_raises_env))"
proof -
  have "StoreClose \<notin> set (call_sites (test_bug commit_throws_string_env))"
    by (simp add: close_called_iff commit_throws_string_env_steps)
  moreover have "MakeAdapter \<notin> set (call_sites (test_bug schema_raises_env)) \<and>
      CreateStorePromise \<notin> set (call_sites (test_bug schema_raises_env)) \<and>
      StoreClose \<notin> set (call_sites (test_bug schema_raises_env))"
    using call_sites_setup_failed [OF schema_raises_env_not_ok]
    by (auto simp: setup_sites_def)
  moreover have "raises schema_raises_env MakeSchema = Some boom"
    by (simp add: schema_raises_env_def)
  ultimately show ?thesis
    using commit_throws_string_env_steps(1) commit_throws_string_env_fields(1)
      snd_main_commit_throws_string_env
    by (simp only: simp_thms)
qed

text \<open>
  C10, amended. In the reproduction script \<^verbatim>\<open>store.close()\<close> is called at most once,
  and it is called exactly when every call of steps 1 to 3 returns, store creation wins
  the race and succeeds, and the subscribe and the commit attempt both return, which
  they do whenever the call returns or throws an \<^verbatim>\<open>Error\<close> instance. In such a
  run: everything \<^verbatim>\<open>main\<close> does before that call makes no call to close; when the
  call returns, \<^verbatim>\<open>main\<close> waits for the promise it returned, prints
  \<^verbatim>\<open>Store closed\<close> when the promise is fulfilled, stops there for ever when it
  never settles, and goes to the outer catch when it is rejected, as it does when the
  call itself raises; after the awaited close \<^verbatim>\<open>main\<close> makes no further library
  call; and the final diagnostics follow when step 6 returns. Close is skipped
  in every other run: when a call of steps 1 to 3 raises, when store creation failed or
  timed out, and when the catch block of subscribe or of commit itself throws.
\<close>

theorem store_closed_exactly_once:
  "count_list (call_sites (test_bug env)) StoreClose \<le> 1 \<and>
   (StoreClose \<in> set (call_sites (test_bug env)) \<longleftrightarrow>
      (\<forall>site \<in> set setup_sites. raises env site = None) \<and>
      snd (race_store_creation env) = Returned \<and>
      snd (subscribe_attempt env) = Returned \<and>
      snd (commit_attempt env) = Returned) \<and>
   (raises env StoreSubscribe = None \<or>
    (\<exists>m c. raises env StoreSubscribe = Some (JsError m c)) \<longrightarrow>
      snd (subscribe_attempt env) = Returned) \<and>
   (raises env StoreCommit = None \<or>
    (\<exists>m c. raises env StoreCommit = Some (JsError m c)) \<longrightarrow>
      snd (commit_attempt env) = Returned) \<and>
   ((\<forall>site \<in> set setup_sites. raises env site = None) \<and>
    snd (race_store_creation env) = Returned \<and>
    snd (subscribe_attempt env) = Returned \<and>
    snd (commit_attempt env) = Returned \<longrightarrow>
      count_list (call_sites (test_bug env)) StoreClose = 1 \<and>
      snd (store_body env) = snd (close_store env) \<and>
      (\<exists>before between.
         fst (main env) =
           before @ fst (close_store env) @ between @
             (if snd (main_step6 env) = Returned then fst (final_diagnostics env) else []) \<and>
         StoreClose \<notin> set (call_sites before) \<and>
         call_sites between = [] \<and>
         between =
           (case snd (close_store env) of
              Returned \<Rightarrow> [ConsoleLog [Msg [P Check, T '' Store closed'']]]
            | Raised v \<Rightarrow> fst (store_failed v)
            | Pending \<Rightarrow> []))) \<and>
   fst (close_store env) =
     LibCall StoreClose [] # run_callbacks (callbacks env StoreClose) @
       (case raises env StoreClose of
          None \<Rightarrow> run_callbacks (while_awaiting env AwaitClose)
        | Some v \<Rightarrow> []) \<and>
   (raises env StoreClose = None \<and> close_promise env = NeverSettles \<longrightarrow>
      snd (close_store env) = Pending) \<and>
   (\<forall>t. raises env StoreClose = None \<and> close_promise env = Settles t Fulfilled \<longrightarrow>
      snd (close_store env) = Returned) \<and>
   (\<forall>t v. raises env StoreClose = None \<and> close_promise env = Settles t (Rejected v) \<longrightarrow>
      snd (close_store env) = Raised v) \<and>
   (\<forall>v. raises env StoreClose = Some v \<longrightarrow> snd (close_store env) = Raised v)"
proof -
  have around: "count_list (call_sites (test_bug env)) StoreClose = 1 \<and>
      snd (store_body env) = snd (close_store env) \<and>
      (\<exists>before between.
         fst (main env) =
           before @ fst (close_store env) @ between @
             (if snd (main_step6 env) = Returned then fst (final_diagnostics env) else []) \<and>
         StoreClose \<notin> set (call_sites before) \<and>
         call_sites between = [] \<and>
         between =
           (case snd (close_store env) of
              Returned \<Rightarrow> [ConsoleLog [Msg [P Check, T '' Store closed'']]]
            | Raised v \<Rightarrow> fst (store_failed v)
            | Pending \<Rightarrow> []))"
    if "(\<forall>site \<in> set setup_sites. raises env site = None) \<and>
      snd (race_store_creation env) = Returned \<and>
      snd (subscribe_attempt env) = Returned \<and>
      snd (commit_attempt env) = Returned"
    using that main_around_close [of env] by (intro conjI) blast+
  show ?thesis
    apply (intro conjI allI)
    apply (rule close_at_most_once)
    apply (rule close_called_iff)
    apply (rule impI, erule attempts_return_on_Error(1))
    apply (rule impI, erule attempts_return_on_Error(2))
    apply (rule impI, erule around)
    apply (rule fst_close_store)
    apply (rule impI, erule conjE, erule (1) close_store_awaits(1))
    apply (rule impI, erule conjE, erule (1) close_store_awaits(2))
    apply (rule impI, erule conjE, erule (1) close_store_awaits(3))
    apply (rule impI, erule close_store_awaits(4))
    done
qed

theorem store_closed_exactly_once_witness:
  "raises attempts_raise_env StoreSubscribe = Some (JsError ''boom'' ''Error'') \<and>
   raises attempts_raise_env StoreCommit = Some (JsError ''boom'' ''Error'') \<and>
   snd (race_store_creation attempts_raise_env) = Returned \<and>
   snd (subscribe_attempt attempts_raise_env) = Returned \<and>
   snd (commit_attempt attempts_raise_env) = Returned \<and>
   count_list (call_sites (test_bug attempts_raise_env)) StoreClose = 1 \<and>
   close_promise close_hangs_env = NeverSettles \<and>
   snd (close_store close_hangs_env) = Pending"
proof -
  have s: "raises attempts_raise_env StoreSubscribe = None \<or>
      (\<exists>m c. raises attempts_raise_env StoreSubscribe = Some (JsError m c))"
    using attempts_raise_env_fields(1) by blast
  have c: "raises attempts_raise_env StoreCommit = None \<or>
      (\<exists>m c. raises attempts_raise_env StoreCommit = Some (JsError m c))"
    using attempts_raise_env_fields(2) by blast
  note subscribe = store_closed_exactly_once
    [of attempts_raise_env, THEN conjunct2, THEN conjunct2, THEN conjunct1, rule_format, OF s]
  note commit = store_closed_exactly_once
    [of attempts_raise_env, THEN conjunct2, THEN conjunct2, THEN conjunct2, THEN conjunct1,
     rule_format, OF c]
  note once = store_closed_exactly_once
    [of attempts_raise_env, THEN conjunct2, THEN conjunct2, THEN conjunct2, THEN conjunct2,
     THEN conjunct1, rule_format,
     OF conjI [OF attempts_raise_env_fields(3)
       conjI [OF race_attempts_raise_env conjI [OF subscribe commit]]],
     THEN conjunct1]
  note hangs = store_closed_exactly_once
    [of close_hangs_env, THEN conjunct2, THEN conjunct2, THEN conjunct2, THEN conjunct2,
     THEN conjunct2, THEN conjunct2, THEN conjunct1, rule_format,
     OF conjI [OF close_hangs_env_fields]]
  show ?thesis
    using subscribe commit once hangs attempts_raise_env_fields(1,2) race_attempts_raise_env
      close_hangs_env_fields(2)
    by (simp only: simp_thms)
qed

section \<open>The narration of a run\<close>

lemma narration_append [simp]: "narration (as @ bs) = narration as @ narration bs"
  by (simp add: narration_def)

lemma narration_Nil [simp]: "narration [] = []"
  by (simp add: narration_def)

lemma returned_iff_ending [simp]: "ending_of out = Returns \<longleftrightarrow> out = Returned"
  by (cases out) simp_all

lemma returned_alike: "alike c d \<Longrightarrow> snd c = Returned \<longleftrightarrow> snd d = Returned"
  unfolding alike_def by (metis returned_iff_ending)

lemma alike_refl [simp]: "alike c c"
  by (simp add: alike_def)

lemma alike_seq:
  assumes "alike c c'" and "alike d d'"
  shows "alike (seq c d) (seq c' d')"
  using assms returned_alike [OF assms(1)]
  by (auto simp: alike_def fst_seq snd_seq)

lemma alike_block: "list_all2 alike cs ds \<Longrightarrow> alike (block cs) (block ds)"
  by (induction cs ds rule: list_all2_induct) (simp_all add: alike_seq)

lemma alike_try_catch:
  assumes "alike c c'"
    and "\<And>e e'. snd c = Raised e \<Longrightarrow> snd c' = Raised e' \<Longrightarrow> alike (h e) (h' e')"
  shows "alike (try_catch c h) (try_catch c' h')"
proof (cases "snd c")
  case Returned
  then have "snd c' = Returned"
    using returned_alike [OF assms(1)] by simp
  then show ?thesis
    using assms(1) Returned by (simp add: alike_def fst_try_catch snd_try_catch)
next
  case (Raised e)
  then obtain e' where e': "snd c' = Raised e'"
    using assms(1) by (cases "snd c'") (simp_all add: alike_def)
  then show ?thesis
    using assms(1) assms(2) [OF Raised e'] Raised
    by (simp add: alike_def fst_try_catch snd_try_catch)
next
  case Pending
  then have "snd c' = Pending"
    using assms(1) by (cases "snd c'") (simp_all add: alike_def)
  then show ?thesis
    using assms(1) Pending by (simp add: alike_def fst_try_catch snd_try_catch)
qed

lemma narrates_log:
  "narrates (ConsoleLog (Msg msg # vs)) \<longleftrightarrow>
     (\<exists>m. msg = P Check # m) \<or> (\<exists>m. msg = P Cross # m)"
proof (cases msg)
  case Nil
  then show ?thesis by simp
next
  case (Cons p m)
  show ?thesis
  proof (cases p)
    case (P pic)
    then show ?thesis
      using Cons by (cases pic) simp_all
  next
    case (T str)
    then show ?thesis
      using Cons by simp
  qed
qed

lemma alike_log [simp]: "alike (log msg vs) (log msg vs')"
  by (simp add: alike_def log_def narration_def narrates_log)

lemma narration_run_callbacks [simp]: "narration (run_callbacks rs) = []"
proof (induction rs)
  case Nil
  then show ?case by (simp add: run_callbacks_def)
next
  case (Cons r rs)
  have "narration (run_callback r) = []"
    by (cases r)
      (simp_all add: materializer_def narration_def
        split: sum.splits prod.splits option.splits)
  then show ?case
    using Cons by (simp add: run_callbacks_def)
qed

lemma narration_call [simp]: "narration (fst (call env site args)) = []"
proof -
  have "narration [LibCall site args] = []"
    by (simp add: narration_def)
  then show ?thesis
    using narration_append [of "[LibCall site args]" "run_callbacks (callbacks env site)"]
    by (simp add: call_def)
qed

lemma narration_meanwhile [simp]:
  "narration (fst (meanwhile env point c)) = narration (fst c)"
  by (simp add: meanwhile_def)

lemma narration_await [simp]: "narration (fst (await p)) = []"
  by (simp add: await_def split: fate.splits settlement.splits)

lemma alike_call:
  "(raises env site = None) = (raises env' site = None) \<Longrightarrow>
     alike (call env site args) (call env' site args)"
  by (cases "raises env site"; cases "raises env' site") (simp_all add: alike_def snd_call)

lemma alike_meanwhile:
  "alike c c' \<Longrightarrow> alike (meanwhile env point c) (meanwhile env' point c')"
  by (simp add: alike_def)

lemma alike_with_result:
  assumes "isl r = isl r'" and "\<And>x y. alike (f x) (f' y)"
  shows "alike (with_result r f) (with_result r' f')"
  using assms
  by (cases r; cases r') (simp_all add: with_result_def raise_def alike_def)

lemma alike_log_value [simp]: "alike (log_value v) (log_value v')"
  by (simp add: alike_def log_value_def narration_def)

lemma alike_await:
  "ending_of (snd (await p)) = ending_of (snd (await p')) \<Longrightarrow> alike (await p) (await p')"
  by (simp add: alike_def)

lemma narration_race [simp]: "narration (fst (race_store_creation env)) = []"
proof -
  have "narration [SetTimeout timeoutMs] = []"
    by (simp add: narration_def)
  then show ?thesis
    by (simp add: fst_race_store_creation testWithTimeout_def async_function_def fst_seq)
qed

lemma alike_steps_1_to_3:
  assumes "\<And>site. (raises env site = None) = (raises env' site = None)"
  shows "alike (main_step1 env) (main_step1 env')"
    and "alike (main_step2 env) (main_step2 env')"
    and "alike (main_step3 env) (main_step3 env')"
  unfolding main_step1_def main_step2_def main_step3_def
  by (rule alike_block, simp add: alike_call assms)+

lemma alike_step4: "alike (main_step4 env) (main_step4 env')"
proof -
  obtain ks ks' where
    "Object_keys (js_or (eventsDefsMap env) (JObject [])) = Inr ks"
    "Object_keys (js_or (eventsDefsMap env') (JObject [])) = Inr ks'"
    using Object_keys_guarded by blast
  then have "alike (inspect_eventsDefsMap (eventsDefsMap env))
      (inspect_eventsDefsMap (eventsDefsMap env'))"
    unfolding inspect_eventsDefsMap_def
    by (intro alike_block) (simp add: with_result_def)
  then show ?thesis
    unfolding main_step4_def
    by (intro alike_block) (simp add: with_result_def)
qed

lemma narration_seq:
  "narration (fst (seq c d)) =
     (if snd c = Returned then narration (fst c) @ narration (fst d) else narration (fst c))"
  by (simp add: fst_seq)

lemma narration_log:
  "narration (fst (log msg vs)) =
     (if narrates (ConsoleLog (Msg msg # map Val vs)) then [msg] else [])"
  by (simp add: log_def narration_def)

lemma narration_log_value [simp]: "narration (fst (log_value v)) = []"
  by (simp add: log_value_def narration_def)

lemma narration_step5:
  "narration (fst (main_step5 env)) =
     (if looks_empty env then [[P Cross, T '' BUG CONFIRMED: eventsDefsMap is empty!'']]
      else [[P Check, T '' Schema appears to be working correctly'']])"
proof -
  obtain ks where "Object_keys (js_or (eventsDefsMap env) (JObject [])) = Inr ks"
    using Object_keys_guarded by blast
  then show ?thesis
    by (simp add: main_step5_def demonstrate_bug_impact_def looks_empty_def with_result_def
        bug_confirmed_def schema_working_def log_def narration_def)
qed

lemma alike_step5:
  "looks_empty env = looks_empty env' \<Longrightarrow> alike (main_step5 env) (main_step5 env')"
  by (simp add: alike_def narration_step5 main_step5_returns)

text \<open>The catch blocks narrate their first line, when the message can be read.\<close>

lemma narration_catch_blocks:
  "narration (fst (subscribe_failed v)) =
     (case get_message v of Inl e \<Rightarrow> [] | Inr m \<Rightarrow> [[P Cross, T '' SUBSCRIBE FAILED:'']])"
  "narration (fst (commit_failed v)) =
     (case first_line_of_message v of
        Inl e \<Rightarrow> []
      | Inr l \<Rightarrow> [[P Cross, T '' COMMIT FAILED:'']])"
  "narration (fst (store_failed v)) =
     (case get_message v of Inl e \<Rightarrow> [] | Inr m \<Rightarrow> [[P Cross, T '' STORE CREATION FAILED:'']])"
  by (simp_all add: subscribe_failed_def commit_failed_def store_failed_def with_result_def
      raise_def narration_seq narration_log split: sum.splits)

lemma narration_attempts:
  "raises env StoreSubscribe = None \<Longrightarrow>
     narration (fst (subscribe_attempt env)) =
       [[P Check, T '' Subscribe worked (unexpected - bug may be fixed!)'']]"
  "raises env StoreSubscribe = Some v \<Longrightarrow>
     narration (fst (subscribe_attempt env)) =
       (case get_message v of Inl e \<Rightarrow> [] | Inr m \<Rightarrow> [[P Cross, T '' SUBSCRIBE FAILED:'']])"
  "raises env StoreCommit = None \<Longrightarrow>
     narration (fst (commit_attempt env)) =
       [[P Check, T '' Commit worked (unexpected - bug may be fixed!)'']]"
  "raises env StoreCommit = Some v \<Longrightarrow>
     narration (fst (commit_attempt env)) =
       (case first_line_of_message v of
          Inl e \<Rightarrow> []
        | Inr l \<Rightarrow> [[P Cross, T '' COMMIT FAILED:'']])"
  by (simp_all add: subscribe_attempt_def commit_attempt_def fst_try_catch snd_seq snd_call
      narration_seq narration_log narration_catch_blocks)

lemma narration_step6:
  "narration (fst (main_step6 env)) =
     narration (fst (store_body env)) @
       (case snd (store_body env) of
          Raised v \<Rightarrow>
            (case get_message v of
               Inl e \<Rightarrow> []
             | Inr m \<Rightarrow> [[P Cross, T '' STORE CREATION FAILED:'']])
        | _ \<Rightarrow> [])"
  by (simp add: main_step6_def narration_seq narration_log fst_try_catch
      narration_catch_blocks split: outcome.splits)

lemma alike_catch_blocks:
  assumes "is_Error v" and "is_Error v'"
  shows "alike (subscribe_failed v) (subscribe_failed v')"
    and "alike (commit_failed v) (commit_failed v')"
    and "alike (store_failed v) (store_failed v')"
  using assms
  by (auto simp: alike_def handlers_return_on_Error narration_catch_blocks is_Error_iff
      read_Error)

lemma alike_attempts:
  assumes "\<And>site. (raises env site = None) = (raises env' site = None)"
    and "throws_only_errors env" and "throws_only_errors env'"
  shows "alike (subscribe_attempt env) (subscribe_attempt env')"
    and "alike (commit_attempt env) (commit_attempt env')"
proof -
  have e: "error_or_none (raises env StoreSubscribe)" "error_or_none (raises env' StoreSubscribe)"
    "error_or_none (raises env StoreCommit)" "error_or_none (raises env' StoreCommit)"
    using assms(2,3) by (simp_all add: throws_only_errors_def caught_sites_def)
  have "alike (block
        [call env StoreSubscribe [AStr ''v1.TestEvent'', AFun SubscribeCallback],
         log [P Check, T '' Subscribe worked (unexpected - bug may be fixed!)''] []])
      (block
        [call env' StoreSubscribe [AStr ''v1.TestEvent'', AFun SubscribeCallback],
         log [P Check, T '' Subscribe worked (unexpected - bug may be fixed!)''] []])"
    by (rule alike_block) (simp add: alike_call assms(1))
  then show "alike (subscribe_attempt env) (subscribe_attempt env')"
    unfolding subscribe_attempt_def
  proof (rule alike_try_catch)
    fix v v'
    assume "snd (block
        [call env StoreSubscribe [AStr ''v1.TestEvent'', AFun SubscribeCallback],
         log [P Check, T '' Subscribe worked (unexpected - bug may be fixed!)''] []]) = Raised v"
      and "snd (block
        [call env' StoreSubscribe [AStr ''v1.TestEvent'', AFun SubscribeCallback],
         log [P Check, T '' Subscribe worked (unexpected - bug may be fixed!)''] []]) = Raised v'"
    then have "raises env StoreSubscribe = Some v" "raises env' StoreSubscribe = Some v'"
      by (simp_all add: snd_seq snd_call split: option.splits if_splits)
    then have "is_Error v" "is_Error v'"
      using e by simp_all
    then show "alike (subscribe_failed v) (subscribe_failed v')"
      by (rule alike_catch_blocks)
  qed
  have "alike (block
        [call env StoreCommit
           [AStr ''v1.TestEvent'',
            AObj [(''id'', AStr ''test-123''), (''message'', AStr ''Hello World'')]],
         log [P Check, T '' Commit worked (unexpected - bug may be fixed!)''] []])
      (block
        [call env' StoreCommit
           [AStr ''v1.TestEvent'',
            AObj [(''id'', AStr ''test-123''), (''message'', AStr ''Hello World'')]],
         log [P Check, T '' Commit worked (unexpected - bug may be fixed!)''] []])"
    by (rule alike_block) (simp add: alike_call assms(1))
  then show "alike (commit_attempt env) (commit_attempt env')"
    unfolding commit_attempt_def
  proof (rule alike_try_catch)
    fix v v'
    assume "snd (block
        [call env StoreCommit
           [AStr ''v1.TestEvent'',
            AObj [(''id'', AStr ''test-123''), (''message'', AStr ''Hello World'')]],
         log [P Check, T '' Commit worked (unexpected - bug may be fixed!)''] []]) = Raised v"
      and "snd (block
        [call env' StoreCommit
           [AStr ''v1.TestEvent'',
            AObj [(''id'', AStr ''test-123''), (''message'', AStr ''Hello World'')]],
         log [P Check, T '' Commit worked (unexpected - bug may be fixed!)''] []]) = Raised v'"
    then have "raises env StoreCommit = Some v" "raises env' StoreCommit = Some v'"
      by (simp_all add: snd_seq snd_call split: option.splits if_splits)
    then have "is_Error v" "is_Error v'"
      using e by simp_all
    then show "alike (commit_failed v) (commit_failed v')"
      by (rule alike_catch_blocks)
  qed
qed

text \<open>What the body of the outer \<^verbatim>\<open>try\<close> raises, when only Errors are thrown.\<close>

lemma race_raises_Error:
  assumes "throws_only_errors env" and "snd (race_store_creation env) = Raised v"
  shows "is_Error v"
proof -
  have e: "error_or_none (raises env MakeAdapter)" "error_or_none (raises env CreateStorePromise)"
    "rejects_with_error (createStore_promise env)"
    using assms(1) by (simp_all add: throws_only_errors_def caught_sites_def)
  then have "rejects_with_error (snd (testWithTimeout env))"
    by (auto simp: snd_testWithTimeout split: option.splits)
  then show ?thesis
    using assms(2)
    by (cases "snd (testWithTimeout env)" rule: rejects_with_error.cases)
      (auto simp: snd_race_store_creation await_def split: if_splits settlement.splits)
qed

lemma close_raises_Error:
  assumes "throws_only_errors env" and "snd (close_store env) = Raised v"
  shows "is_Error v"
proof -
  have e: "error_or_none (raises env StoreClose)" "rejects_with_error (close_promise env)"
    using assms(1) by (simp_all add: throws_only_errors_def caught_sites_def)
  then show ?thesis
    using assms(2)
    by (cases "close_promise env" rule: rejects_with_error.cases)
      (auto simp: snd_close_store await_def split: option.splits)
qed

lemma attempts_raise_Errors:
  "snd (subscribe_attempt env) = Raised v \<Longrightarrow> is_Error v"
  "snd (commit_attempt env) = Raised v \<Longrightarrow> is_Error v"
  by (auto simp: snd_subscribe_attempt snd_commit_attempt split: option.splits
      dest: handlers_raise_Errors)

lemma store_body_raises_Error:
  assumes "throws_only_errors env" and "snd (store_body env) = Raised v"
  shows "is_Error v"
  using assms(2) race_raises_Error [OF assms(1)] close_raises_Error [OF assms(1)]
    attempts_raise_Errors [of env]
  by (auto simp: snd_store_body split: if_splits)

lemma alike_step6:
  assumes "same_raise_or_return env env'"
    and "throws_only_errors env" and "throws_only_errors env'"
  shows "alike (main_step6 env) (main_step6 env')"
proof -
  have r: "(raises env site = None) = (raises env' site = None)" for site
    using assms(1) by (simp add: same_raise_or_return_def)
  have "alike (race_store_creation env) (race_store_creation env')"
    using assms(1) by (simp add: same_raise_or_return_def alike_def)
  then have race: "alike (meanwhile env AwaitRace (race_store_creation env))
      (meanwhile env' AwaitRace (race_store_creation env'))"
    by (rule alike_meanwhile)
  have "alike (await (close_promise env)) (await (close_promise env'))"
    using assms(1) by (simp add: same_raise_or_return_def alike_await)
  then have "alike (meanwhile env AwaitClose (await (close_promise env)))
      (meanwhile env' AwaitClose (await (close_promise env')))"
    by (rule alike_meanwhile)
  then have close: "alike (close_store env) (close_store env')"
    unfolding close_store_def by (intro alike_seq alike_call r)
  have "alike (store_body env) (store_body env')"
    unfolding store_body_def
    by (rule alike_block) (simp add: race close alike_attempts [OF r assms(2,3)])
  then have "alike (try_catch (store_body env) store_failed)
      (try_catch (store_body env') store_failed)"
  proof (rule alike_try_catch)
    fix v v'
    assume "snd (store_body env) = Raised v" and "snd (store_body env') = Raised v'"
    then have "is_Error v" "is_Error v'"
      using assms(2,3) store_body_raises_Error by blast+
    then show "alike (store_failed v) (store_failed v')"
      by (rule alike_catch_blocks)
  qed
  then show ?thesis
    unfolding main_step6_def by (intro alike_block) simp
qed

lemma alike_final:
  assumes "isl (stringify_schema env) = isl (stringify_schema env')"
  shows "alike (final_diagnostics env) (final_diagnostics env')"
proof -
  have "alike (with_result (stringify_schema env) log_value)
      (with_result (stringify_schema env') log_value)"
    using assms by (rule alike_with_result) simp
  then show ?thesis
    unfolding final_diagnostics_def by (intro alike_block) simp
qed

lemma alike_main:
  assumes "same_raise_or_return env env'" and "looks_empty env = looks_empty env'"
    and "throws_only_errors env" and "throws_only_errors env'"
  shows "alike (main env) (main env')"
proof -
  have r: "(raises env site = None) = (raises env' site = None)" for site
    using assms(1) by (simp add: same_raise_or_return_def)
  have j: "isl (stringify_schema env) = isl (stringify_schema env')"
    using assms(1) by (simp add: same_raise_or_return_def)
  show ?thesis
    unfolding main_def
    by (rule alike_block)
      (simp add: alike_steps_1_to_3 [OF r] alike_step4 alike_step5 [OF assms(2)]
        alike_step6 [OF assms(1,3,4)] alike_final [OF j])
qed

lemma narration_test_bug:
  "narration (test_bug env) =
     narration (fst (main env)) @
       (case ending_of (snd (main env)) of
          Raises \<Rightarrow> [[P Cross, T '' Unhandled error:'']]
        | _ \<Rightarrow> [])"
  by (simp add: test_bug_performed narration_def split: outcome.splits)


lemma narration_steps_returning:
  assumes "\<forall>site. raises env site = None"
  shows "narration (fst main_banner) = []"
    and "narration (fst (main_step1 env)) =
      [[P Check, T '' Events defined:''], [P Check, T '' Event function type:'']]"
    and "narration (fst (main_step2 env)) = [[P Check, T '' State defined with materializers'']]"
    and "narration (fst (main_step3 env)) = [[P Check, T '' Schema created'']]"
  using assms
  by (simp_all add: main_banner_def main_step1_def main_step2_def main_step3_def
      narration_seq narration_log snd_call)

lemma narration_step4: "narration (fst (main_step4 env)) = []"
proof -
  obtain ks where "Object_keys (js_or (eventsDefsMap env) (JObject [])) = Inr ks"
    using Object_keys_guarded by blast
  then show ?thesis
    by (simp add: main_step4_def inspect_eventsDefsMap_def with_result_def narration_seq
        narration_log)
qed

lemma narration_close_store [simp]: "narration (fst (close_store env)) = []"
  by (simp add: close_store_def narration_seq)

lemma narration_step6_returning:
  assumes "\<forall>site. raises env site = None"
    and "snd (race_store_creation env) = Returned"
    and "snd (await (close_promise env)) = Returned"
  shows "narration (fst (main_step6 env)) =
      [[P Check, T '' Store created successfully''],
       [P Check, T '' Subscribe worked (unexpected - bug may be fixed!)''],
       [P Check, T '' Commit worked (unexpected - bug may be fixed!)''],
       [P Check, T '' Store closed'']]"
proof -
  have a: "snd (subscribe_attempt env) = Returned" "snd (commit_attempt env) = Returned"
    using assms(1) by (simp_all add: snd_subscribe_attempt snd_commit_attempt)
  have c: "snd (close_store env) = Returned"
    using assms by (simp add: snd_close_store)
  have "snd (store_body env) = Returned"
    using assms(2) a c by (simp add: snd_store_body)
  moreover have "narration (fst (store_body env)) =
      [[P Check, T '' Store created successfully''],
       [P Check, T '' Subscribe worked (unexpected - bug may be fixed!)''],
       [P Check, T '' Commit worked (unexpected - bug may be fixed!)''],
       [P Check, T '' Store closed'']]"
    using assms(1,2) a c
    by (simp add: store_body_def narration_seq narration_log narration_attempts)
  ultimately show ?thesis
    by (simp add: narration_step6)
qed

lemma narration_final: "narration (fst (final_diagnostics env)) = []"
  by (cases "stringify_schema env")
    (simp_all add: final_diagnostics_def with_result_def raise_def narration_seq
      narration_log)

lemma narration_full_run:
  assumes "\<forall>site. raises env site = None"
    and "snd (race_store_creation env) = Returned"
    and "snd (await (close_promise env)) = Returned"
    and "stringify_schema env = Inr v"
  shows "narration (test_bug env) =
      [[P Check, T '' Events defined:''], [P Check, T '' Event function type:''],
       [P Check, T '' State defined with materializers''],
       [P Check, T '' Schema created'']] @
      narration (fst (main_step5 env)) @
      [[P Check, T '' Store created successfully''],
       [P Check, T '' Subscribe worked (unexpected - bug may be fixed!)''],
       [P Check, T '' Commit worked (unexpected - bug may be fixed!)''],
       [P Check, T '' Store closed'']]"
proof -
  have s: "snd (main_step1 env) = Returned" "snd (main_step2 env) = Returned"
    "snd (main_step3 env) = Returned"
    using assms(1) by (simp_all add: steps_return_iff)
  have a: "snd (subscribe_attempt env) = Returned" "snd (commit_attempt env) = Returned"
    using assms(1) by (simp_all add: snd_subscribe_attempt snd_commit_attempt)
  have "snd (close_store env) = Returned"
    using assms by (simp add: snd_close_store)
  then have s6: "snd (main_step6 env) = Returned"
    using assms(2) a by (simp add: snd_main_step6 snd_store_body)
  have f: "snd (final_diagnostics env) = Returned"
    using assms(4) by (simp add: snd_final_diagnostics)
  have "narration (fst (main env)) =
      [[P Check, T '' Events defined:''], [P Check, T '' Event function type:''],
       [P Check, T '' State defined with materializers''],
       [P Check, T '' Schema created'']] @
      narration (fst (main_step5 env)) @
      [[P Check, T '' Store created successfully''],
       [P Check, T '' Subscribe worked (unexpected - bug may be fixed!)''],
       [P Check, T '' Commit worked (unexpected - bug may be fixed!)''],
       [P Check, T '' Store closed'']]"
    by (simp add: main_def narration_seq snd_banner s main_step4_returns main_step5_returns
        narration_steps_returning [OF assms(1)] narration_step4
        narration_step6_returning [OF assms(1,2,3)] narration_final)
  moreover have "snd (main env) = Returned"
    by (simp add: main_def snd_seq snd_banner s main_step4_returns main_step5_returns s6 f)
  ultimately show ?thesis
    by (simp add: narration_test_bug)
qed

lemma object_envs_fields:
  "raises plain_object_env site = None"
  "raises empty_object_env site = None"
  "stringify_schema plain_object_env = Inr (JStr ''{}'')"
  "stringify_schema empty_object_env = Inr (JStr ''{}'')"
  "eventsDefsMap plain_object_env = JObject [(''v1.TestEvent'', JNull)]"
  "eventsDefsMap empty_object_env = JObject []"
  "eventsDefsMap happy_env = populated_map"
  "close_promise plain_object_env = Settles 3 Fulfilled"
  "close_promise empty_object_env = Settles 3 Fulfilled"
  "createStore_promise empty_object_env = Settles 1 Fulfilled"
  by (simp_all add: plain_object_env_def empty_object_env_def happy_env_fields
      eventsDefsMap_def own_property_def)

lemma object_envs_race:
  "snd (race_store_creation plain_object_env) = Returned"
  "snd (race_store_creation empty_object_env) = Returned"
  by (simp_all add: snd_race_store_creation snd_testWithTimeout plain_object_env_def
      empty_object_env_def happy_env_fields await_def)

lemma object_envs_close:
  "snd (await (close_promise plain_object_env)) = Returned"
  "snd (await (close_promise empty_object_env)) = Returned"
  "snd (await (close_promise happy_env)) = Returned"
  by (simp_all add: plain_object_env_def empty_object_env_def happy_env_fields await_def)

lemma object_envs_looks_empty:
  "\<not> looks_empty plain_object_env"
  "looks_empty empty_object_env"
  "looks_empty happy_env"
  by (simp_all add: looks_empty_def object_envs_fields populated_map_def js_or_def)

lemma same_raise_or_return_object_envs:
  "same_raise_or_return plain_object_env empty_object_env"
  "same_raise_or_return happy_env empty_object_env"
  by (simp_all add: same_raise_or_return_def object_envs_fields object_envs_race
      object_envs_close happy_env_fields race_happy_env await_def)

lemma throws_only_errors_envs:
  "throws_only_errors happy_env"
  "throws_only_errors empty_object_env"
  by (simp_all add: throws_only_errors_def caught_sites_def happy_env_fields
      object_envs_fields)

lemma close_rejected_env_fields:
  "raises close_rejected_env site = None"
  "createStore_promise close_rejected_env = Settles 1 Fulfilled"
  "close_promise close_rejected_env = Settles 3 (Rejected boom)"
  "timer_tick close_rejected_env = 2"
  by (simp_all add: close_rejected_env_def happy_env_fields)

lemma close_rejected_env_steps:
  "snd (race_store_creation close_rejected_env) = Returned"
  "snd (store_body close_rejected_env) = Raised boom"
  by (simp_all add: snd_store_body snd_race_store_creation snd_testWithTimeout
      snd_subscribe_attempt snd_commit_attempt snd_close_store close_rejected_env_fields
      await_def)

lemma narration_store_body:
  "narration (fst (store_body env)) =
     (if snd (race_store_creation env) \<noteq> Returned then []
      else [[P Check, T '' Store created successfully'']] @
        narration (fst (subscribe_attempt env)) @
        (if snd (subscribe_attempt env) \<noteq> Returned then []
         else narration (fst (commit_attempt env)) @
           (if snd (commit_attempt env) \<noteq> Returned then []
            else if snd (close_store env) = Returned then [[P Check, T '' Store closed'']]
            else [])))"
  by (simp add: store_body_def narration_seq narration_log)

lemma not_failed_in_body:
  "[P Cross, T '' STORE CREATION FAILED:''] \<notin> set (narration (fst (store_body env)))"
proof -
  have "[P Cross, T '' STORE CREATION FAILED:'']
      \<notin> set (narration (fst (subscribe_attempt env)))"
    by (cases "raises env StoreSubscribe")
      (simp_all add: narration_attempts split: sum.splits)
  moreover have "[P Cross, T '' STORE CREATION FAILED:'']
      \<notin> set (narration (fst (commit_attempt env)))"
    by (cases "raises env StoreCommit")
      (simp_all add: narration_attempts split: sum.splits)
  ultimately show ?thesis
    by (simp add: narration_store_body)
qed

text \<open>
  C5, as the specification states it, fails at step 5: in the two runs below every
  library call returns (and every other call raises or returns alike), yet one run prints
  \<^verbatim>\<open>Schema appears to be working correctly\<close> and the other
  \<^verbatim>\<open>BUG CONFIRMED: eventsDefsMap is empty!\<close>. The two runs differ in the value of
  \<^verbatim>\<open>schema.eventsDefsMap\<close> only: a plain object with one property, and one with none.
\<close>

theorem step5_narration_not_decided_by_raise_or_return:
  "same_raise_or_return plain_object_env empty_object_env \<and>
   narration (test_bug plain_object_env) =
     [[P Check, T '' Events defined:''], [P Check, T '' Event function type:''],
      [P Check, T '' State defined with materializers''],
      [P Check, T '' Schema created''],
      [P Check, T '' Schema appears to be working correctly''],
      [P Check, T '' Store created successfully''],
      [P Check, T '' Subscribe worked (unexpected - bug may be fixed!)''],
      [P Check, T '' Commit worked (unexpected - bug may be fixed!)''],
      [P Check, T '' Store closed'']] \<and>
   narration (test_bug empty_object_env) =
     [[P Check, T '' Events defined:''], [P Check, T '' Event function type:''],
      [P Check, T '' State defined with materializers''],
      [P Check, T '' Schema created''],
      [P Cross, T '' BUG CONFIRMED: eventsDefsMap is empty!''],
      [P Check, T '' Store created successfully''],
      [P Check, T '' Subscribe worked (unexpected - bug may be fixed!)''],
      [P Check, T '' Commit worked (unexpected - bug may be fixed!)''],
      [P Check, T '' Store closed'']] \<and>
   narration (test_bug plain_object_env) \<noteq> narration (test_bug empty_object_env)"
proof -
  have p: "narration (test_bug plain_object_env) =
     [[P Check, T '' Events defined:''], [P Check, T '' Event function type:''],
      [P Check, T '' State defined with materializers''],
      [P Check, T '' Schema created''],
      [P Check, T '' Schema appears to be working correctly''],
      [P Check, T '' Store created successfully''],
      [P Check, T '' Subscribe worked (unexpected - bug may be fixed!)''],
      [P Check, T '' Commit worked (unexpected - bug may be fixed!)''],
      [P Check, T '' Store closed'']]"
    using narration_full_run [of plain_object_env "JStr ''{}''"]
    by (simp add: object_envs_fields object_envs_race await_def narration_step5
        object_envs_looks_empty)
  have e: "narration (test_bug empty_object_env) =
     [[P Check, T '' Events defined:''], [P Check, T '' Event function type:''],
      [P Check, T '' State defined with materializers''],
      [P Check, T '' Schema created''],
      [P Cross, T '' BUG CONFIRMED: eventsDefsMap is empty!''],
      [P Check, T '' Store created successfully''],
      [P Check, T '' Subscribe worked (unexpected - bug may be fixed!)''],
      [P Check, T '' Commit worked (unexpected - bug may be fixed!)''],
      [P Check, T '' Store closed'']]"
    using narration_full_run [of empty_object_env "JStr ''{}''"]
    by (simp add: object_envs_fields object_envs_race await_def narration_step5
        object_envs_looks_empty)
  have "narration (test_bug plain_object_env) \<noteq> narration (test_bug empty_object_env)"
    unfolding p e by simp
  then show ?thesis
    using p e same_raise_or_return_object_envs(1) by (simp only: simp_thms)
qed

text \<open>
  C5, amended. The narration of the subscribe and of the commit attempt is decided by
  whether the call raised or returned and, when it raised, by whether the catch block
  can read the message of what it caught (it can for every \<^verbatim>\<open>Error\<close> instance):
  the attempt prints its success line, its failure line, or neither. The narration of
  step 5 is not decided by a raise or a return: it is decided by whether
  \<^verbatim>\<open>Object.keys(schema.eventsDefsMap || {})\<close> is empty, a property of the value that
  \<^verbatim>\<open>makeSchema\<close> returned. The outer catch prints \<^verbatim>\<open>STORE CREATION FAILED\<close>
  exactly when the body of the outer \<^verbatim>\<open>try\<close> raises a value whose message can be
  read, whatever raised it: store creation, a catch block, or \<^verbatim>\<open>store.close()\<close>
  after the store was created. Two runs that throw and reject nothing but
  \<^verbatim>\<open>Error\<close> instances inside the outer \<^verbatim>\<open>try\<close>, in which every call raises or
  returns alike (the library calls, the awaited race, the awaited close,
  \<^verbatim>\<open>JSON.stringify\<close>) and in which the condition of step 5 agrees, print the same
  success and failure messages.
\<close>

theorem narration_decided_by_outcomes_and_emptiness:
  "(raises env StoreSubscribe = None \<longrightarrow>
      narration (fst (subscribe_attempt env)) =
        [[P Check, T '' Subscribe worked (unexpected - bug may be fixed!)'']]) \<and>
   (\<forall>v. raises env StoreSubscribe = Some v \<longrightarrow>
      narration (fst (subscribe_attempt env)) =
        (case get_message v of
           Inl e \<Rightarrow> []
         | Inr m \<Rightarrow> [[P Cross, T '' SUBSCRIBE FAILED:'']])) \<and>
   (raises env StoreCommit = None \<longrightarrow>
      narration (fst (commit_attempt env)) =
        [[P Check, T '' Commit worked (unexpected - bug may be fixed!)'']]) \<and>
   (\<forall>v. raises env StoreCommit = Some v \<longrightarrow>
      narration (fst (commit_attempt env)) =
        (case first_line_of_message v of
           Inl e \<Rightarrow> []
         | Inr l \<Rightarrow> [[P Cross, T '' COMMIT FAILED:'']])) \<and>
   (\<forall>m c. get_message (JsError m c) = Inr (JStr m) \<and>
      first_line_of_message (JsError m c) = Inr (JStr (first_line m))) \<and>
   narration (fst (main_step5 env)) =
     (if looks_empty env then [[P Cross, T '' BUG CONFIRMED: eventsDefsMap is empty!'']]
      else [[P Check, T '' Schema appears to be working correctly'']]) \<and>
   narration (fst (main_step6 env)) =
     narration (fst (store_body env)) @
       (case snd (store_body env) of
          Raised v \<Rightarrow>
            (case get_message v of
               Inl e \<Rightarrow> []
             | Inr m \<Rightarrow> [[P Cross, T '' STORE CREATION FAILED:'']])
        | _ \<Rightarrow> []) \<and>
   narration (fst (store_body env)) =
     (if snd (race_store_creation env) \<noteq> Returned then []
      else [[P Check, T '' Store created successfully'']] @
        narration (fst (subscribe_attempt env)) @
        (if snd (subscribe_attempt env) \<noteq> Returned then []
         else narration (fst (commit_attempt env)) @
           (if snd (commit_attempt env) \<noteq> Returned then []
            else if snd (close_store env) = Returned then [[P Check, T '' Store closed'']]
            else []))) \<and>
   [P Cross, T '' STORE CREATION FAILED:''] \<notin> set (narration (fst (store_body env))) \<and>
   (throws_only_errors env \<and> throws_only_errors env' \<and>
    same_raise_or_return env env' \<and> looks_empty env = looks_empty env' \<longrightarrow>
      narration (test_bug env) = narration (test_bug env'))"
proof -
  have same: "narration (test_bug env) = narration (test_bug env')"
    if "throws_only_errors env \<and> throws_only_errors env' \<and>
      same_raise_or_return env env' \<and> looks_empty env = looks_empty env'"
  proof -
    have "alike (main env) (main env')"
      using that alike_main by blast
    then show ?thesis
      by (simp add: narration_test_bug alike_def)
  qed
  show ?thesis
    apply (intro conjI allI)
    apply (rule impI, erule narration_attempts(1))
    apply (rule impI, erule narration_attempts(2))
    apply (rule impI, erule narration_attempts(3))
    apply (rule impI, erule narration_attempts(4))
    apply (rule read_Error(1))
    apply (rule read_Error(3))
    apply (rule narration_step5)
    apply (rule narration_step6)
    apply (rule narration_store_body)
    apply (rule not_failed_in_body)
    apply (rule impI, erule same)
    done
qed


theorem narration_decided_by_outcomes_and_emptiness_witness:
  "throws_only_errors happy_env \<and>
   throws_only_errors empty_object_env \<and>
   same_raise_or_return happy_env empty_object_env \<and>
   looks_empty happy_env = looks_empty empty_object_env \<and>
   narration (test_bug happy_env) = narration (test_bug empty_object_env) \<and>
   raises attempts_raise_env StoreSubscribe = Some (JsError ''boom'' ''Error'') \<and>
   narration (fst (subscribe_attempt attempts_raise_env)) =
     [[P Cross, T '' SUBSCRIBE FAILED:'']] \<and>
   raises commit_throws_string_env StoreCommit = Some (JStr ''No mutation definition found'') \<and>
   narration (fst (commit_attempt commit_throws_string_env)) = [] \<and>
   snd (race_store_creation close_rejected_env) = Returned \<and>
   snd (store_body close_rejected_env) = Raised boom \<and>
   narration (fst (main_step6 close_rejected_env)) =
     narration (fst (store_body close_rejected_env)) @
       [[P Cross, T '' STORE CREATION FAILED:'']]"
proof -
  have l: "looks_empty happy_env = looks_empty empty_object_env"
    by (simp add: object_envs_looks_empty)
  note same = narration_decided_by_outcomes_and_emptiness
    [of happy_env empty_object_env, THEN conjunct2, THEN conjunct2, THEN conjunct2,
     THEN conjunct2, THEN conjunct2, THEN conjunct2, THEN conjunct2, THEN conjunct2,
     THEN conjunct2, rule_format,
     OF conjI [OF throws_only_errors_envs(1) conjI [OF throws_only_errors_envs(2)
       conjI [OF same_raise_or_return_object_envs(2) l]]]]
  have subscribe: "narration (fst (subscribe_attempt attempts_raise_env)) =
      [[P Cross, T '' SUBSCRIBE FAILED:'']]"
    using narration_decided_by_outcomes_and_emptiness
      [of attempts_raise_env happy_env, THEN conjunct2, THEN conjunct1, rule_format,
       OF attempts_raise_env_fields(1)]
    by simp
  have commit: "narration (fst (commit_attempt commit_throws_string_env)) = []"
    using narration_decided_by_outcomes_and_emptiness
      [of commit_throws_string_env happy_env, THEN conjunct2, THEN conjunct2,
       THEN conjunct2, THEN conjunct1, rule_format, OF commit_throws_string_env_fields(1)]
    by (simp add: first_line_of_message_def)
  have outer: "narration (fst (main_step6 close_rejected_env)) =
      narration (fst (store_body close_rejected_env)) @
        [[P Cross, T '' STORE CREATION FAILED:'']]"
    using narration_decided_by_outcomes_and_emptiness
      [of close_rejected_env happy_env, THEN conjunct2, THEN conjunct2, THEN conjunct2,
       THEN conjunct2, THEN conjunct2, THEN conjunct2, THEN conjunct1]
    by (simp add: close_rejected_env_steps message_boom)
  show ?thesis
    using same l subscribe commit outer throws_only_errors_envs
      same_raise_or_return_object_envs(2) attempts_raise_env_fields(1)
      commit_throws_string_env_fields(1) close_rejected_env_steps
    by (simp only: simp_thms)
qed

end
